theory Spec2Isabelle
  imports Main "HOL-Library.Word" "HOL-Library.Sublist"
begin

unbundle bit_operations_syntax

section \<open>The mini linker: an embedding of linker.c, elf\_parser.c and dlfcn.c\<close>

text \<open>
  The linker works on raw process memory. Addresses and \<open>size_t\<close> values are 64-bit
  words, pointer arithmetic wraps, and memory is a total byte store. Page protection and
  access faults are not part of the model: a read returns the byte that is stored there.
  A function whose C original can fail to return (an endless chain walk, a division by
  zero, a dereference of a pointer that is no record) returns \<open>None\<close>; \<open>Some\<close> carries
  the value the C function returns.
\<close>

subsection \<open>Memory\<close>

type_synonym addr = "64 word"
type_synonym memory = "addr \<Rightarrow> 8 word"

definition read_u8 :: "memory \<Rightarrow> addr \<Rightarrow> 8 word" where
  "read_u8 m a = m a"

definition read_u16 :: "memory \<Rightarrow> addr \<Rightarrow> 16 word" where
  "read_u16 m a = ucast (m a) OR push_bit 8 (ucast (m (a + 1)))"

definition read_u32 :: "memory \<Rightarrow> addr \<Rightarrow> 32 word" where
  "read_u32 m a = ucast (read_u16 m a) OR push_bit 16 (ucast (read_u16 m (a + 2)))"

definition read_u64 :: "memory \<Rightarrow> addr \<Rightarrow> 64 word" where
  "read_u64 m a = ucast (read_u32 m a) OR push_bit 32 (ucast (read_u32 m (a + 4)))"

definition write_u64 :: "memory \<Rightarrow> addr \<Rightarrow> 64 word \<Rightarrow> memory" where
  "write_u64 m a v = (\<lambda>x. if x - a < 8 then ucast (drop_bit (8 * unat (x - a)) v) else m x)"

text \<open>\<open>memcpy(dst, src, n)\<close> for regions that do not overlap.\<close>

definition memcpy :: "memory \<Rightarrow> addr \<Rightarrow> addr \<Rightarrow> 64 word \<Rightarrow> memory" where
  "memcpy m dst src n = (\<lambda>x. if x - dst < n then m (src + (x - dst)) else m x)"

text \<open>\<open>memset(dst, 0, n)\<close>.\<close>

definition memzero :: "memory \<Rightarrow> addr \<Rightarrow> 64 word \<Rightarrow> memory" where
  "memzero m dst n = (\<lambda>x. if x - dst < n then 0 else m x)"

subsection \<open>C strings\<close>

text \<open>
  A \<open>const char*\<close> argument is the list of its bytes; a NUL byte inside the list ends
  the string, as it does in C.
\<close>

definition c_str :: "string \<Rightarrow> string" where
  "c_str s = takeWhile (\<lambda>c. c \<noteq> CHR 0x00) s"

text \<open>\<open>strcmp(p, name) == 0\<close> for a string \<open>p\<close> in memory.\<close>

fun strcmp_eq :: "memory \<Rightarrow> addr \<Rightarrow> string \<Rightarrow> bool" where
  "strcmp_eq m p [] = (m p = 0)"
| "strcmp_eq m p (c # cs) =
     (if c = CHR 0x00 then m p = 0 else m p = of_char c \<and> strcmp_eq m (p + 1) cs)"

subsection \<open>Constants of the ELF ABI (elf.h) and of the page macros\<close>

definition SHN_UNDEF :: "16 word" where "SHN_UNDEF = 0"
definition STB_GLOBAL :: "8 word" where "STB_GLOBAL = 1"
definition STB_WEAK :: "8 word" where "STB_WEAK = 2"

definition PT_LOAD :: "32 word" where "PT_LOAD = 1"
definition PT_DYNAMIC :: "32 word" where "PT_DYNAMIC = 2"
definition PT_PHDR :: "32 word" where "PT_PHDR = 6"

definition PF_X :: "32 word" where "PF_X = 1"
definition PF_W :: "32 word" where "PF_W = 2"
definition PF_R :: "32 word" where "PF_R = 4"
definition PROT_READ :: "32 word" where "PROT_READ = 1"
definition PROT_WRITE :: "32 word" where "PROT_WRITE = 2"
definition PROT_EXEC :: "32 word" where "PROT_EXEC = 4"

definition DT_NULL :: "64 word" where "DT_NULL = 0"
definition DT_PLTRELSZ :: "64 word" where "DT_PLTRELSZ = 2"
definition DT_HASH :: "64 word" where "DT_HASH = 4"
definition DT_STRTAB :: "64 word" where "DT_STRTAB = 5"
definition DT_SYMTAB :: "64 word" where "DT_SYMTAB = 6"
definition DT_RELA :: "64 word" where "DT_RELA = 7"
definition DT_RELASZ :: "64 word" where "DT_RELASZ = 8"
definition DT_STRSZ :: "64 word" where "DT_STRSZ = 10"
definition DT_INIT :: "64 word" where "DT_INIT = 12"
definition DT_FINI :: "64 word" where "DT_FINI = 13"
definition DT_JMPREL :: "64 word" where "DT_JMPREL = 23"
definition DT_INIT_ARRAY :: "64 word" where "DT_INIT_ARRAY = 25"
definition DT_FINI_ARRAY :: "64 word" where "DT_FINI_ARRAY = 26"
definition DT_INIT_ARRAYSZ :: "64 word" where "DT_INIT_ARRAYSZ = 27"
definition DT_FINI_ARRAYSZ :: "64 word" where "DT_FINI_ARRAYSZ = 28"
definition DT_GNU_HASH :: "64 word" where "DT_GNU_HASH = 0x6ffffef5"

definition R_X86_64_NONE :: "32 word" where "R_X86_64_NONE = 0"
definition R_X86_64_64 :: "32 word" where "R_X86_64_64 = 1"
definition R_X86_64_COPY :: "32 word" where "R_X86_64_COPY = 5"
definition R_X86_64_GLOB_DAT :: "32 word" where "R_X86_64_GLOB_DAT = 6"
definition R_X86_64_JUMP_SLOT :: "32 word" where "R_X86_64_JUMP_SLOT = 7"
definition R_X86_64_RELATIVE :: "32 word" where "R_X86_64_RELATIVE = 8"

definition ELFCLASS64 :: "8 word" where "ELFCLASS64 = 2"
definition ELFDATA2LSB :: "8 word" where "ELFDATA2LSB = 1"
definition ET_EXEC :: "16 word" where "ET_EXEC = 2"
definition ET_DYN :: "16 word" where "ET_DYN = 3"
definition EM_X86_64 :: "16 word" where "EM_X86_64 = 62"

definition MAP_FAILED :: addr where "MAP_FAILED = - 1"

definition PAGE_SIZE :: "64 word" where "PAGE_SIZE = 4096"

definition PAGE_START :: "64 word \<Rightarrow> 64 word" where
  "PAGE_START x = x AND NOT (PAGE_SIZE - 1)"

definition PAGE_END :: "64 word \<Rightarrow> 64 word" where
  "PAGE_END x = PAGE_START (x + PAGE_SIZE - 1)"

subsection \<open>Views of the ELF structures in memory\<close>

text \<open>\<open>Elf64_Sym\<close>, 24 bytes.\<close>

definition st_name :: "memory \<Rightarrow> addr \<Rightarrow> 32 word" where "st_name m p = read_u32 m p"
definition st_info :: "memory \<Rightarrow> addr \<Rightarrow> 8 word" where "st_info m p = read_u8 m (p + 4)"
definition st_shndx :: "memory \<Rightarrow> addr \<Rightarrow> 16 word" where "st_shndx m p = read_u16 m (p + 6)"
definition st_value :: "memory \<Rightarrow> addr \<Rightarrow> 64 word" where "st_value m p = read_u64 m (p + 8)"
definition st_size :: "memory \<Rightarrow> addr \<Rightarrow> 64 word" where "st_size m p = read_u64 m (p + 16)"

definition ELF64_ST_BIND :: "8 word \<Rightarrow> 8 word" where
  "ELF64_ST_BIND info = drop_bit 4 info"

text \<open>\<open>Elf64_Rela\<close>, 24 bytes.\<close>

definition r_offset :: "memory \<Rightarrow> addr \<Rightarrow> 64 word" where "r_offset m p = read_u64 m p"
definition r_info :: "memory \<Rightarrow> addr \<Rightarrow> 64 word" where "r_info m p = read_u64 m (p + 8)"
definition r_addend :: "memory \<Rightarrow> addr \<Rightarrow> 64 word" where "r_addend m p = read_u64 m (p + 16)"

definition ELF64_R_TYPE :: "64 word \<Rightarrow> 32 word" where
  "ELF64_R_TYPE i = ucast (i AND 0xffffffff)"

definition ELF64_R_SYM :: "64 word \<Rightarrow> 32 word" where
  "ELF64_R_SYM i = ucast (drop_bit 32 i)"

text \<open>\<open>Elf64_Phdr\<close>, 56 bytes.\<close>

definition p_type :: "memory \<Rightarrow> addr \<Rightarrow> 32 word" where "p_type m p = read_u32 m p"
definition p_flags :: "memory \<Rightarrow> addr \<Rightarrow> 32 word" where "p_flags m p = read_u32 m (p + 4)"
definition p_offset :: "memory \<Rightarrow> addr \<Rightarrow> 64 word" where "p_offset m p = read_u64 m (p + 8)"
definition p_vaddr :: "memory \<Rightarrow> addr \<Rightarrow> 64 word" where "p_vaddr m p = read_u64 m (p + 16)"
definition p_filesz :: "memory \<Rightarrow> addr \<Rightarrow> 64 word" where "p_filesz m p = read_u64 m (p + 32)"
definition p_memsz :: "memory \<Rightarrow> addr \<Rightarrow> 64 word" where "p_memsz m p = read_u64 m (p + 40)"

text \<open>\<open>Elf64_Ehdr\<close>, 64 bytes.\<close>

definition e_ident :: "memory \<Rightarrow> addr \<Rightarrow> nat \<Rightarrow> 8 word" where
  "e_ident m p i = read_u8 m (p + of_nat i)"
definition e_type :: "memory \<Rightarrow> addr \<Rightarrow> 16 word" where "e_type m p = read_u16 m (p + 16)"
definition e_machine :: "memory \<Rightarrow> addr \<Rightarrow> 16 word" where "e_machine m p = read_u16 m (p + 18)"
definition e_phoff :: "memory \<Rightarrow> addr \<Rightarrow> 64 word" where "e_phoff m p = read_u64 m (p + 32)"
definition e_shoff :: "memory \<Rightarrow> addr \<Rightarrow> 64 word" where "e_shoff m p = read_u64 m (p + 40)"
definition e_phnum :: "memory \<Rightarrow> addr \<Rightarrow> 16 word" where "e_phnum m p = read_u16 m (p + 56)"
definition e_shstrndx :: "memory \<Rightarrow> addr \<Rightarrow> 16 word" where "e_shstrndx m p = read_u16 m (p + 62)"

text \<open>\<open>Elf64_Shdr\<close>, 64 bytes.\<close>

definition sh_offset :: "memory \<Rightarrow> addr \<Rightarrow> 64 word" where "sh_offset m p = read_u64 m (p + 24)"

text \<open>\<open>Elf64_Dyn\<close>, 16 bytes.\<close>

definition d_tag :: "memory \<Rightarrow> addr \<Rightarrow> 64 word" where "d_tag m p = read_u64 m p"
definition d_un :: "memory \<Rightarrow> addr \<Rightarrow> 64 word" where "d_un m p = read_u64 m (p + 8)"

subsection \<open>The module record and the linker state (linker.h)\<close>

text \<open>
  The fields of \<open>soinfo_t\<close>. The \<open>next\<close> link is not a field here: the registry list
  below holds the records' addresses in the order of the links, head first.
\<close>

record soinfo =
  si_name :: string
  si_base :: addr
  si_size :: "64 word"
  si_load_bias :: addr
  si_phdr :: addr
  si_phnum :: "64 word"
  si_dynamic :: addr
  si_symtab :: addr
  si_strtab :: addr
  si_strtab_size :: "64 word"
  si_hash :: addr
  si_gnu_hash :: addr
  si_rela :: addr
  si_rela_count :: "64 word"
  si_plt_rela :: addr
  si_plt_rela_count :: "64 word"
  si_init_func :: addr
  si_fini_func :: addr
  si_init_array :: addr
  si_init_array_count :: "64 word"
  si_fini_array :: addr
  si_fini_array_count :: "64 word"
  si_ref_count :: "32 word"

text \<open>\<open>calloc(1, sizeof(soinfo_t))\<close>: every field zero.\<close>

definition soinfo_zero :: soinfo where
  "soinfo_zero = \<lparr> si_name = [], si_base = 0, si_size = 0, si_load_bias = 0, si_phdr = 0,
     si_phnum = 0, si_dynamic = 0, si_symtab = 0, si_strtab = 0, si_strtab_size = 0,
     si_hash = 0, si_gnu_hash = 0, si_rela = 0, si_rela_count = 0, si_plt_rela = 0,
     si_plt_rela_count = 0, si_init_func = 0, si_fini_func = 0, si_init_array = 0,
     si_init_array_count = 0, si_fini_array = 0, si_fini_array_count = 0, si_ref_count = 0 \<rparr>"

text \<open>
  What the process does to the outside, in order: file descriptors, mappings, heap blocks,
  calls through function pointers, and the two points where the registry list changes.
  \<open>Ev_mmap k a n prot\<close> is a successful \<open>mmap\<close> of \<open>n\<close> bytes at \<open>a\<close>, tagged with
  the place in the code that made it: the view of the whole file in \<open>elf_open\<close>, the
  anonymous reservation, the file mapping of a segment, the anonymous mapping of a BSS
  tail. What a called function does itself is outside the model.
\<close>

datatype map_kind = File_view | Reservation | Segment | Bss

datatype event =
    Ev_open int
  | Ev_close int
  | Ev_mmap map_kind addr "64 word" "32 word"
  | Ev_munmap addr "64 word"
  | Ev_calloc addr
  | Ev_free addr
  | Ev_call addr
  | Ev_register addr
  | Ev_unregister addr

text \<open>
  \<open>linker_state_t\<close> (the global \<open>g_linker\<close>), extended by what the C program keeps
  implicitly: the live module records by address, the process memory, and the events so far.
\<close>

record linker_state_t =
  soinfo_list :: "addr list"
  error_msg :: string
  has_error :: bool

record world = linker_state_t +
  heap :: "addr \<rightharpoonup> soinfo"
  mem :: memory
  trace :: "event list"

text \<open>
  How the operating system answers during one call of the linker: the calls to
  \<open>open\<close>, \<open>fstat\<close>, \<open>mmap\<close> and \<open>calloc\<close> made by one load, the bytes of the file, and
  the host loader's \<open>dlsym(RTLD_DEFAULT, _)\<close>.
\<close>

record env =
  elf_fd :: int
  fstat_ok :: bool
  file_bytes :: "8 word list"
  elf_map :: addr
  calloc_ptr :: addr
  reserve_ptr :: addr
  seg_fd :: int
  seg_mmap_ok :: "nat \<Rightarrow> bool"
  bss_mmap_ok :: "nat \<Rightarrow> bool"
  host_dlsym :: "string \<Rightarrow> addr"

subsection \<open>The error slot\<close>

text \<open>
  \<open>linker_set_error\<close> takes the formatted message; \<open>vsnprintf\<close> keeps at most
  \<open>sizeof(error_msg) - 1 = 511\<close> bytes of it.
\<close>

definition linker_init :: "world \<Rightarrow> world" where
  "linker_init w = w\<lparr> soinfo_list := [], error_msg := [], has_error := False \<rparr>"

definition linker_set_error :: "string \<Rightarrow> world \<Rightarrow> world" where
  "linker_set_error msg w = w\<lparr> error_msg := take 511 msg, has_error := True \<rparr>"

definition linker_get_error :: "world \<Rightarrow> string option \<times> world" where
  "linker_get_error w =
     (if has_error w then (Some (error_msg w), w\<lparr> has_error := False \<rparr>) else (None, w))"

definition linker_clear_error :: "world \<Rightarrow> world" where
  "linker_clear_error w = w\<lparr> has_error := False, error_msg := [] \<rparr>"

subsection \<open>Symbol lookup\<close>

definition get_symbol_count :: "memory \<Rightarrow> soinfo \<Rightarrow> 64 word" where
  "get_symbol_count m si =
     (if si_hash si \<noteq> 0 then ucast (read_u32 m (si_hash si + 4)) else 256)"

fun elf_hash_from :: "32 word \<Rightarrow> string \<Rightarrow> 32 word" where
  "elf_hash_from h [] = h"
| "elf_hash_from h (c # cs) =
     (if c = CHR 0x00 then h
      else let h1 = push_bit 4 h + of_char c;
               g = h1 AND 0xf0000000;
               h2 = (if g \<noteq> 0 then h1 XOR drop_bit 24 g else h1)
           in elf_hash_from (h2 AND NOT g) cs)"

definition elf_hash :: "string \<Rightarrow> 32 word" where
  "elf_hash name = elf_hash_from 0 name"

fun gnu_hash_from :: "32 word \<Rightarrow> string \<Rightarrow> 32 word" where
  "gnu_hash_from h [] = h"
| "gnu_hash_from h (c # cs) =
     (if c = CHR 0x00 then h else gnu_hash_from (push_bit 5 h + h + of_char c) cs)"

definition gnu_hash :: "string \<Rightarrow> 32 word" where
  "gnu_hash name = gnu_hash_from 5381 name"

text \<open>
  The \<open>do ... while (1)\<close> of \<open>gnu_lookup\<close>: the result is the address of the symbol
  entry, or 0 for \<open>NULL\<close>. The walk need not end.
\<close>

partial_function (option) gnu_chain_walk ::
  "memory \<Rightarrow> soinfo \<Rightarrow> string \<Rightarrow> 32 word \<Rightarrow> addr \<Rightarrow> 32 word \<Rightarrow> 32 word \<Rightarrow> addr option"
where
  "gnu_chain_walk m si name h1 chain symoffset n =
     (let symb = si_symtab si + 24 * ucast n;
          h2 = read_u32 m (chain + 4 * ucast (n - symoffset))
      in if drop_bit 1 (h1 XOR h2) = 0
            \<and> strcmp_eq m (si_strtab si + ucast (st_name m symb)) name
         then Some symb
         else if h2 AND 1 \<noteq> 0 then Some 0
         else gnu_chain_walk m si name h1 chain symoffset (n + 1))"

text \<open>
  \<open>%\<close> by a zero \<open>bloom_size\<close> or \<open>nbuckets\<close> traps, and a shift of the 32-bit hash
  by 32 or more is undefined: no result.
\<close>

definition gnu_lookup :: "memory \<Rightarrow> soinfo \<Rightarrow> string \<Rightarrow> addr option" where
  "gnu_lookup m si name =
     (if si_gnu_hash si = 0 then Some 0
      else
        let gnu = si_gnu_hash si;
            nbuckets = read_u32 m gnu;
            symoffset = read_u32 m (gnu + 4);
            bloom_size = read_u32 m (gnu + 8);
            bloom_shift = read_u32 m (gnu + 12);
            bloom = gnu + 16;
            buckets = bloom + 8 * ucast bloom_size;
            chain = buckets + 4 * ucast nbuckets;
            h1 = gnu_hash name
        in if bloom_size = 0 \<or> 32 \<le> bloom_shift then None
           else
             let word = read_u64 m (bloom + 8 * ucast ((h1 div 64) mod bloom_size));
                 mask = push_bit (unat (h1 mod 64)) (1 :: 64 word)
                        OR push_bit (unat (drop_bit (unat bloom_shift) h1 mod 64)) 1
             in if word AND mask \<noteq> mask then Some 0
                else if nbuckets = 0 then None
                else
                  let n = read_u32 m (buckets + 4 * ucast (h1 mod nbuckets))
                  in if n = 0 then Some 0
                     else gnu_chain_walk m si name h1 chain symoffset n)"

definition sym_exported :: "memory \<Rightarrow> addr \<Rightarrow> bool" where
  "sym_exported m symb =
     (let bind = ELF64_ST_BIND (st_info m symb) in bind = STB_GLOBAL \<or> bind = STB_WEAK)"

text \<open>
  The loops of \<open>linker_find_symbol\<close>. The inner option tells a \<open>return\<close> inside the
  loop (\<open>Some\<close> of the returned address) from a loop that ends (\<open>None\<close>).
\<close>

partial_function (option) elf_chain_walk ::
  "memory \<Rightarrow> soinfo \<Rightarrow> string \<Rightarrow> addr \<Rightarrow> 32 word \<Rightarrow> addr option option"
where
  "elf_chain_walk m si name chain i =
     (if i = 0 then Some None
      else
        let symb = si_symtab si + 24 * ucast i
        in if strcmp_eq m (si_strtab si + ucast (st_name m symb)) name
              \<and> st_shndx m symb \<noteq> SHN_UNDEF \<and> sym_exported m symb
           then Some (Some (si_load_bias si + st_value m symb))
           else elf_chain_walk m si name chain (read_u32 m (chain + 4 * ucast i)))"

fun linear_scan :: "memory \<Rightarrow> soinfo \<Rightarrow> string \<Rightarrow> nat list \<Rightarrow> addr option" where
  "linear_scan m si name [] = None"
| "linear_scan m si name (i # is) =
     (let symb = si_symtab si + 24 * of_nat i
      in if st_name m symb = 0 then linear_scan m si name is
         else if strcmp_eq m (si_strtab si + ucast (st_name m symb)) name
                 \<and> st_shndx m symb \<noteq> SHN_UNDEF \<and> sym_exported m symb
         then Some (si_load_bias si + st_value m symb)
         else linear_scan m si name is)"

definition find_symbol_linear :: "memory \<Rightarrow> soinfo \<Rightarrow> string \<Rightarrow> addr option" where
  "find_symbol_linear m si name =
     (if si_hash si = 0 \<and> si_gnu_hash si = 0
      then (case linear_scan m si name [0 ..< unat (get_symbol_count m si)] of
              Some a \<Rightarrow> Some a
            | None \<Rightarrow> Some 0)
      else Some 0)"

definition find_symbol_elf :: "memory \<Rightarrow> soinfo \<Rightarrow> string \<Rightarrow> addr option" where
  "find_symbol_elf m si name =
     (if si_hash si \<noteq> 0
      then
        let nbucket = read_u32 m (si_hash si);
            bucket = si_hash si + 8;
            chain = si_hash si + 4 * ucast (2 + nbucket);
            hash = elf_hash name
        in if nbucket = 0 then None
           else (case elf_chain_walk m si name chain
                        (read_u32 m (bucket + 4 * ucast (hash mod nbucket))) of
                   None \<Rightarrow> None
                 | Some (Some a) \<Rightarrow> Some a
                 | Some None \<Rightarrow> find_symbol_linear m si name)
      else find_symbol_linear m si name)"

text \<open>\<open>linker_find_symbol\<close> on a record that is not \<open>NULL\<close>.\<close>

definition find_symbol_in :: "memory \<Rightarrow> soinfo \<Rightarrow> string \<Rightarrow> addr option" where
  "find_symbol_in m si name =
     (if si_symtab si = 0 \<or> si_strtab si = 0 then Some 0
      else if si_gnu_hash si \<noteq> 0
      then (case gnu_lookup m si name of
              None \<Rightarrow> None
            | Some symb \<Rightarrow>
                if symb \<noteq> 0 \<and> st_shndx m symb \<noteq> SHN_UNDEF \<and> sym_exported m symb
                then Some (si_load_bias si + st_value m symb)
                else find_symbol_elf m si name)
      else find_symbol_elf m si name)"

definition linker_find_symbol :: "world \<Rightarrow> addr \<Rightarrow> string \<Rightarrow> addr option" where
  "linker_find_symbol w si name =
     (if si = 0 then Some 0
      else (case heap w si of
              None \<Rightarrow> None
            | Some s \<Rightarrow> find_symbol_in (mem w) s name))"

fun find_global_from :: "env \<Rightarrow> world \<Rightarrow> addr list \<Rightarrow> string \<Rightarrow> addr option" where
  "find_global_from e w [] name = Some (host_dlsym e name)"
| "find_global_from e w (si # rest) name =
     (case linker_find_symbol w si name of
        None \<Rightarrow> None
      | Some symb \<Rightarrow> if symb \<noteq> 0 then Some symb else find_global_from e w rest name)"

definition linker_find_global_symbol :: "env \<Rightarrow> world \<Rightarrow> string \<Rightarrow> addr option" where
  "linker_find_global_symbol e w name = find_global_from e w (soinfo_list w) name"


subsection \<open>Relocation\<close>

text \<open>The name \<open>si->strtab + sym->st_name\<close> as a string; it need not be terminated.\<close>

partial_function (option) read_cstr :: "memory \<Rightarrow> addr \<Rightarrow> string option" where
  "read_cstr m p =
     (if m p = 0 then Some []
      else Option.bind (read_cstr m (p + 1)) (\<lambda>cs. Some (char_of (unat (m p)) # cs)))"

text \<open>The symbol address \<open>sym_addr\<close> that \<open>do_reloc\<close> computes first.\<close>

definition reloc_sym_addr :: "env \<Rightarrow> world \<Rightarrow> soinfo \<Rightarrow> 32 word \<Rightarrow> addr option" where
  "reloc_sym_addr e w si sym_idx =
     (if sym_idx \<noteq> 0
      then
        let symb = si_symtab si + 24 * ucast sym_idx
        in if st_shndx (mem w) symb \<noteq> SHN_UNDEF
           then Some (si_load_bias si + st_value (mem w) symb)
           else (case read_cstr (mem w) (si_strtab si + ucast (st_name (mem w) symb)) of
                   None \<Rightarrow> None
                 | Some sym_name \<Rightarrow> linker_find_global_symbol e w sym_name)
      else Some 0)"

definition do_reloc :: "env \<Rightarrow> world \<Rightarrow> soinfo \<Rightarrow> addr \<Rightarrow> (int \<times> world) option" where
  "do_reloc e w si rela =
     (let m = mem w;
          type = ELF64_R_TYPE (r_info m rela);
          sym_idx = ELF64_R_SYM (r_info m rela);
          reloc_addr = si_load_bias si + r_offset m rela
      in case reloc_sym_addr e w si sym_idx of
           None \<Rightarrow> None
         | Some sym_addr \<Rightarrow>
             Some (0,
               if type = R_X86_64_NONE then w
               else if type = R_X86_64_64
               then w\<lparr> mem := write_u64 m reloc_addr (sym_addr + r_addend m rela) \<rparr>
               else if type = R_X86_64_GLOB_DAT
               then w\<lparr> mem := write_u64 m reloc_addr sym_addr \<rparr>
               else if type = R_X86_64_JUMP_SLOT
               then w\<lparr> mem := write_u64 m reloc_addr sym_addr \<rparr>
               else if type = R_X86_64_RELATIVE
               then w\<lparr> mem := write_u64 m reloc_addr (si_load_bias si + r_addend m rela) \<rparr>
               else if type = R_X86_64_COPY
               then (if sym_addr \<noteq> 0
                     then w\<lparr> mem := memcpy m reloc_addr sym_addr
                                       (st_size m (si_symtab si + 24 * ucast sym_idx)) \<rparr>
                     else w)
               else w))"

text \<open>One \<open>for\<close> loop of \<open>linker_relocate\<close> over the entries of a table.\<close>

fun reloc_loop :: "env \<Rightarrow> soinfo \<Rightarrow> addr \<Rightarrow> nat list \<Rightarrow> world \<Rightarrow> (int \<times> world) option" where
  "reloc_loop e si table [] w = Some (0, w)"
| "reloc_loop e si table (i # is) w =
     (case do_reloc e w si (table + 24 * of_nat i) of
        None \<Rightarrow> None
      | Some (r, w') \<Rightarrow> if r < 0 then Some (- 1, w') else reloc_loop e si table is w')"

definition linker_relocate :: "env \<Rightarrow> world \<Rightarrow> soinfo \<Rightarrow> (int \<times> world) option" where
  "linker_relocate e w si =
     (case (if si_rela si \<noteq> 0
            then reloc_loop e si (si_rela si) [0 ..< unat (si_rela_count si)] w
            else Some (0, w)) of
        None \<Rightarrow> None
      | Some (r, w1) \<Rightarrow>
          if r < 0 then Some (- 1, w1)
          else if si_plt_rela si \<noteq> 0
          then reloc_loop e si (si_plt_rela si) [0 ..< unat (si_plt_rela_count si)] w1
          else Some (0, w1))"

subsection \<open>The dynamic section\<close>

text \<open>The \<open>switch\<close> of \<open>parse_dynamic\<close> for one entry with tag \<open>t\<close> and value \<open>v\<close>.\<close>

definition dyn_entry :: "soinfo \<Rightarrow> 64 word \<Rightarrow> 64 word \<Rightarrow> soinfo" where
  "dyn_entry si t v =
     (if t = DT_SYMTAB then si\<lparr> si_symtab := si_load_bias si + v \<rparr>
      else if t = DT_STRTAB then si\<lparr> si_strtab := si_load_bias si + v \<rparr>
      else if t = DT_STRSZ then si\<lparr> si_strtab_size := v \<rparr>
      else if t = DT_HASH then si\<lparr> si_hash := si_load_bias si + v \<rparr>
      else if t = DT_GNU_HASH then si\<lparr> si_gnu_hash := si_load_bias si + v \<rparr>
      else if t = DT_RELA then si\<lparr> si_rela := si_load_bias si + v \<rparr>
      else if t = DT_RELASZ then si\<lparr> si_rela_count := v div 24 \<rparr>
      else if t = DT_JMPREL then si\<lparr> si_plt_rela := si_load_bias si + v \<rparr>
      else if t = DT_PLTRELSZ then si\<lparr> si_plt_rela_count := v div 24 \<rparr>
      else if t = DT_INIT then si\<lparr> si_init_func := si_load_bias si + v \<rparr>
      else if t = DT_FINI then si\<lparr> si_fini_func := si_load_bias si + v \<rparr>
      else if t = DT_INIT_ARRAY then si\<lparr> si_init_array := si_load_bias si + v \<rparr>
      else if t = DT_INIT_ARRAYSZ then si\<lparr> si_init_array_count := v div 8 \<rparr>
      else if t = DT_FINI_ARRAY then si\<lparr> si_fini_array := si_load_bias si + v \<rparr>
      else if t = DT_FINI_ARRAYSZ then si\<lparr> si_fini_array_count := v div 8 \<rparr>
      else si)"

partial_function (option) dynamic_walk :: "memory \<Rightarrow> soinfo \<Rightarrow> addr \<Rightarrow> soinfo option" where
  "dynamic_walk m si d =
     (if d_tag m d = DT_NULL then Some si
      else dynamic_walk m (dyn_entry si (d_tag m d) (d_un m d)) (d + 16))"

definition parse_dynamic :: "world \<Rightarrow> soinfo \<Rightarrow> (int \<times> world \<times> soinfo) option" where
  "parse_dynamic w si =
     (if si_dynamic si = 0
      then Some (- 1, linker_set_error ''No dynamic section'' w, si)
      else (case dynamic_walk (mem w) si (si_dynamic si) of
              None \<Rightarrow> None
            | Some si' \<Rightarrow>
                if si_symtab si' = 0 \<or> si_strtab si' = 0
                then Some (- 1, linker_set_error ''Missing symbol table or string table'' w, si')
                else Some (0, w, si')))"

subsection \<open>The ELF reader (elf\_parser.c)\<close>

record elf_file_t =
  ef_fd :: int
  ef_map_start :: addr
  ef_map_size :: "64 word"
  ef_ehdr :: addr
  ef_phdr :: addr
  ef_shdr :: addr
  ef_shstrtab :: addr

definition elf_file_zero :: elf_file_t where
  "elf_file_zero = \<lparr> ef_fd = 0, ef_map_start = 0, ef_map_size = 0, ef_ehdr = 0, ef_phdr = 0,
     ef_shdr = 0, ef_shstrtab = 0 \<rparr>"

definition emit :: "event \<Rightarrow> world \<Rightarrow> world" where
  "emit ev w = w\<lparr> trace := trace w @ [ev] \<rparr>"

definition file_byte :: "8 word list \<Rightarrow> nat \<Rightarrow> 8 word" where
  "file_byte bytes n = (if n < length bytes then bytes ! n else 0)"

text \<open>
  A file mapping of \<open>len\<close> bytes at \<open>a\<close> from file offset \<open>off\<close>: whole pages, zero
  after the end of the file. An anonymous mapping is zero.
\<close>

definition map_file :: "memory \<Rightarrow> addr \<Rightarrow> 64 word \<Rightarrow> 8 word list \<Rightarrow> 64 word \<Rightarrow> memory" where
  "map_file m a len bytes off =
     (\<lambda>x. if x - a < PAGE_END len then file_byte bytes (unat off + unat (x - a)) else m x)"

definition map_anon :: "memory \<Rightarrow> addr \<Rightarrow> 64 word \<Rightarrow> memory" where
  "map_anon m a len = (\<lambda>x. if x - a < PAGE_END len then 0 else m x)"

definition elf_validate_header :: "memory \<Rightarrow> addr \<Rightarrow> int" where
  "elf_validate_header m ehdr =
     (if e_ident m ehdr 0 \<noteq> 0x7f \<or> e_ident m ehdr 1 \<noteq> 0x45
         \<or> e_ident m ehdr 2 \<noteq> 0x4c \<or> e_ident m ehdr 3 \<noteq> 0x46 then - 1
      else if e_ident m ehdr 4 \<noteq> ELFCLASS64 then - 1
      else if e_ident m ehdr 5 \<noteq> ELFDATA2LSB then - 1
      else if e_type m ehdr \<noteq> ET_DYN \<and> e_type m ehdr \<noteq> ET_EXEC then - 1
      else if e_machine m ehdr \<noteq> EM_X86_64 then - 1
      else 0)"

definition elf_open :: "env \<Rightarrow> world \<Rightarrow> string \<Rightarrow> int \<times> world \<times> elf_file_t" where
  "elf_open e w path =
     (let elf = elf_file_zero\<lparr> ef_fd := elf_fd e \<rparr>
      in if elf_fd e < 0 then (- 1, w, elf)
         else
           let w1 = emit (Ev_open (elf_fd e)) w
           in if \<not> fstat_ok e then (- 1, emit (Ev_close (elf_fd e)) w1, elf)
              else
                let elf = elf\<lparr> ef_map_size := of_nat (length (file_bytes e)),
                                ef_map_start := elf_map e \<rparr>
                in if elf_map e = MAP_FAILED then (- 1, emit (Ev_close (elf_fd e)) w1, elf)
                   else
                     let w2 = emit (Ev_mmap File_view (elf_map e) (ef_map_size elf) PROT_READ)
                                (w1\<lparr> mem := map_file (mem w1) (elf_map e) (ef_map_size elf)
                                                (file_bytes e) 0 \<rparr>);
                         elf = elf\<lparr> ef_ehdr := elf_map e \<rparr>;
                         m = mem w2
                     in if elf_validate_header m (ef_ehdr elf) < 0
                        then (- 1, emit (Ev_close (elf_fd e))
                                     (emit (Ev_munmap (elf_map e) (ef_map_size elf)) w2), elf)
                        else
                          let elf = (if e_phoff m (ef_ehdr elf) \<noteq> 0
                                     then elf\<lparr> ef_phdr := elf_map e + e_phoff m (ef_ehdr elf) \<rparr>
                                     else elf);
                              elf = (if e_shoff m (ef_ehdr elf) \<noteq> 0
                                     then
                                       let elf = elf\<lparr> ef_shdr := elf_map e + e_shoff m (ef_ehdr elf) \<rparr>
                                       in if e_shstrndx m (ef_ehdr elf) \<noteq> SHN_UNDEF
                                          then elf\<lparr> ef_shstrtab := elf_map e
                                                  + sh_offset m (ef_shdr elf
                                                      + 64 * ucast (e_shstrndx m (ef_ehdr elf))) \<rparr>
                                          else elf
                                     else elf)
                          in (0, w2, elf))"

definition elf_close :: "elf_file_t \<Rightarrow> world \<Rightarrow> world" where
  "elf_close elf w =
     (let w1 = (if ef_map_start elf \<noteq> 0 \<and> ef_map_start elf \<noteq> MAP_FAILED
                then emit (Ev_munmap (ef_map_start elf) (ef_map_size elf)) w else w)
      in if 0 \<le> ef_fd elf then emit (Ev_close (ef_fd elf)) w1 else w1)"


subsection \<open>Loading (linker\_load)\<close>

definition load_size_step ::
  "memory \<Rightarrow> addr \<Rightarrow> nat \<Rightarrow> 64 word \<times> 64 word \<Rightarrow> 64 word \<times> 64 word" where
  "load_size_step m phdr i acc =
     (let ph = phdr + 56 * of_nat i; min_vaddr = fst acc; max_vaddr = snd acc
      in if p_type m ph \<noteq> PT_LOAD then acc
         else (if p_vaddr m ph < min_vaddr then p_vaddr m ph else min_vaddr,
               if max_vaddr < p_vaddr m ph + p_memsz m ph
               then p_vaddr m ph + p_memsz m ph else max_vaddr))"

definition calculate_load_size :: "memory \<Rightarrow> addr \<Rightarrow> 64 word \<Rightarrow> 64 word" where
  "calculate_load_size m phdr phnum =
     (let acc = fold (load_size_step m phdr) [0 ..< unat phnum] (- 1, 0)
      in if snd acc < fst acc then 0 else PAGE_END (snd acc) - PAGE_START (fst acc))"

definition elf_to_mmap_prot :: "32 word \<Rightarrow> 32 word" where
  "elf_to_mmap_prot flags =
     (if flags AND PF_R \<noteq> 0 then PROT_READ else 0)
     OR (if flags AND PF_W \<noteq> 0 then PROT_WRITE else 0)
     OR (if flags AND PF_X \<noteq> 0 then PROT_EXEC else 0)"

text \<open>Step 4: the smallest \<open>p_vaddr\<close> of a \<open>PT_LOAD\<close> header.\<close>

definition min_vaddr_step :: "memory \<Rightarrow> addr \<Rightarrow> nat \<Rightarrow> 64 word \<Rightarrow> 64 word" where
  "min_vaddr_step m phdr i min_vaddr =
     (let ph = phdr + 56 * of_nat i
      in if p_type m ph = PT_LOAD \<and> p_vaddr m ph < min_vaddr then p_vaddr m ph else min_vaddr)"

text \<open>
  Step 7, the body of the loop for one \<open>PT_LOAD\<close> header: the file mapping, then the
  zero fill and the anonymous mapping of the BSS. The result is false after
  \<open>goto error\<close>.
\<close>

definition map_segment :: "env \<Rightarrow> soinfo \<Rightarrow> elf_file_t \<Rightarrow> nat \<Rightarrow> world \<Rightarrow> bool \<times> world" where
  "map_segment e si elf i w =
     (let ph = ef_phdr elf + 56 * of_nat i;
          m = mem w;
          seg_start = si_load_bias si + p_vaddr m ph;
          seg_end = seg_start + p_memsz m ph;
          seg_page_start = PAGE_START seg_start;
          seg_page_end = PAGE_END seg_end;
          seg_file_end = seg_start + p_filesz m ph;
          file_page_start = PAGE_START (p_offset m ph)
      in if \<not> seg_mmap_ok e i then (False, linker_set_error ''Failed to mmap segment'' w)
         else
           let w1 = emit (Ev_mmap Segment seg_page_start (seg_file_end - seg_page_start)
                            (elf_to_mmap_prot (p_flags m ph)))
                      (w\<lparr> mem := map_file m seg_page_start (seg_file_end - seg_page_start)
                                    (file_bytes e) file_page_start \<rparr>)
           in if p_filesz (mem w1) ph < p_memsz (mem w1) ph
              then
                let bss_start = seg_file_end;
                    bss_page_start = PAGE_END bss_start;
                    w2 = (if bss_start < bss_page_start
                          then w1\<lparr> mem := memzero (mem w1) bss_start (bss_page_start - bss_start) \<rparr>
                          else w1)
                in if bss_page_start < seg_page_end
                   then (if \<not> bss_mmap_ok e i
                         then (False, linker_set_error ''Failed to mmap BSS'' w2)
                         else (True,
                               emit (Ev_mmap Bss bss_page_start (seg_page_end - bss_page_start)
                                       (elf_to_mmap_prot (p_flags (mem w2) ph)))
                                 (w2\<lparr> mem := map_anon (mem w2) bss_page_start
                                                 (seg_page_end - bss_page_start) \<rparr>)))
                   else (True, w2)
              else (True, w1))"

function map_segments :: "env \<Rightarrow> soinfo \<Rightarrow> elf_file_t \<Rightarrow> nat \<Rightarrow> world \<Rightarrow> bool \<times> world" where
  "map_segments e si elf i w =
     (if i < unat (e_phnum (mem w) (ef_ehdr elf))
      then (if p_type (mem w) (ef_phdr elf + 56 * of_nat i) \<noteq> PT_LOAD
            then map_segments e si elf (Suc i) w
            else if fst (map_segment e si elf i w)
            then map_segments e si elf (Suc i) (snd (map_segment e si elf i w))
            else (False, snd (map_segment e si elf i w)))
      else (True, w))"
  by pat_completeness auto
termination
proof (relation "measure (\<lambda>(e, si, elf, i, w). 65536 - i)")
  show "wf (measure (\<lambda>(e, si, elf, i, w). 65536 - i))" by simp
next
  fix e :: env and si :: soinfo and elf :: elf_file_t and i :: nat and w :: world
  assume "i < unat (e_phnum (mem w) (ef_ehdr elf))"
  moreover have "unat (e_phnum (mem w) (ef_ehdr elf)) < 65536"
    using unsigned_less [of "e_phnum (mem w) (ef_ehdr elf)", where ?'a = nat] by simp
  ultimately have "i < 65535" by arith
  then show "((e, si, elf, Suc i, w), e, si, elf, i, w)
               \<in> measure (\<lambda>(e, si, elf, i, w). 65536 - i)"
    by simp
next
  fix e :: env and si :: soinfo and elf :: elf_file_t and i :: nat and w :: world
  assume "i < unat (e_phnum (mem w) (ef_ehdr elf))"
  moreover have "unat (e_phnum (mem w) (ef_ehdr elf)) < 65536"
    using unsigned_less [of "e_phnum (mem w) (ef_ehdr elf)", where ?'a = nat] by simp
  ultimately have "i < 65535" by arith
  then show "((e, si, elf, Suc i, snd (map_segment e si elf i w)), e, si, elf, i, w)
               \<in> measure (\<lambda>(e, si, elf, i, w). 65536 - i)"
    by simp
qed

text \<open>The exit through the label \<open>error\<close>, with the record at \<open>h\<close> allocated.\<close>

definition load_error :: "int \<Rightarrow> addr \<Rightarrow> soinfo \<Rightarrow> elf_file_t \<Rightarrow> world \<Rightarrow> world" where
  "load_error fd h si elf w =
     (let w1 = (if 0 \<le> fd then emit (Ev_close fd) w else w);
          w2 = (if si_base si \<noteq> 0 \<and> si_base si \<noteq> MAP_FAILED
                then emit (Ev_munmap (si_base si) (si_size si)) w1 else w1)
      in elf_close elf (emit (Ev_free h) w2))"

text \<open>Step 8: the addresses of the program headers and of the dynamic section.\<close>

definition load_phdr_step :: "memory \<Rightarrow> elf_file_t \<Rightarrow> nat \<Rightarrow> soinfo \<Rightarrow> soinfo" where
  "load_phdr_step m elf i si =
     (let ph = ef_phdr elf + 56 * of_nat i
      in if p_type m ph = PT_PHDR then si\<lparr> si_phdr := si_load_bias si + p_vaddr m ph \<rparr>
         else if p_type m ph = PT_DYNAMIC
         then si\<lparr> si_dynamic := si_load_bias si + p_vaddr m ph \<rparr>
         else si)"

text \<open>
  Steps 8 to 11. The record under construction is a value; it enters the heap when it
  is linked into the list, at the address \<open>h\<close> that \<open>calloc\<close> returned.
\<close>

definition load_link :: "env \<Rightarrow> world \<Rightarrow> addr \<Rightarrow> soinfo \<Rightarrow> elf_file_t \<Rightarrow> (addr \<times> world) option" where
  "load_link e w h si elf =
     (let m = mem w;
          si1 = fold (load_phdr_step m elf) [0 ..< unat (e_phnum m (ef_ehdr elf))] si;
          si2 = (if si_phdr si1 = 0
                 then si1\<lparr> si_phdr := si_load_bias si1 + e_phoff m (ef_ehdr elf) \<rparr> else si1)
      in case parse_dynamic w si2 of
           None \<Rightarrow> None
         | Some (r, w1, si3) \<Rightarrow>
             if r < 0 then Some (0, load_error (- 1) h si3 elf w1)
             else (case linker_relocate e w1 si3 of
                     None \<Rightarrow> None
                   | Some (r2, w2) \<Rightarrow>
                       if r2 < 0 then Some (0, load_error (- 1) h si3 elf w2)
                       else
                         let si4 = si3\<lparr> si_ref_count := 1 \<rparr>;
                             w3 = emit (Ev_register h)
                                    (w2\<lparr> soinfo_list := h # soinfo_list w2,
                                         heap := (heap w2)(h \<mapsto> si4) \<rparr>)
                         in Some (h, elf_close elf w3)))"

text \<open>Steps 3 to 7.\<close>

definition load_map :: "env \<Rightarrow> world \<Rightarrow> addr \<Rightarrow> soinfo \<Rightarrow> elf_file_t \<Rightarrow> (addr \<times> world) option" where
  "load_map e w h si elf =
     (let m = mem w;
          phnum = e_phnum m (ef_ehdr elf);
          load_size = calculate_load_size m (ef_phdr elf) (ucast phnum)
      in if load_size = 0
         then Some (0, load_error (- 1) h si elf (linker_set_error ''No loadable segments'' w))
         else
           let si1 = si\<lparr> si_size := load_size \<rparr>;
               min_vaddr = PAGE_START (fold (min_vaddr_step m (ef_phdr elf)) [0 ..< unat phnum] (- 1));
               si2 = si1\<lparr> si_base := reserve_ptr e \<rparr>
           in if reserve_ptr e = MAP_FAILED
              then Some (0, load_error (- 1) h si2 elf (linker_set_error ''mmap failed'' w))
              else
                let w1 = emit (Ev_mmap Reservation (reserve_ptr e) load_size 0)
                           (w\<lparr> mem := map_anon m (reserve_ptr e) load_size \<rparr>);
                    si3 = si2\<lparr> si_load_bias := reserve_ptr e - min_vaddr \<rparr>
                in if seg_fd e < 0
                   then Some (0, load_error (seg_fd e) h si3 elf
                                   (linker_set_error ''Failed to open file for mmap'' w1))
                   else
                     let r = map_segments e si3 elf 0 (emit (Ev_open (seg_fd e)) w1)
                     in if \<not> fst r then Some (0, load_error (seg_fd e) h si3 elf (snd r))
                        else load_link e (emit (Ev_close (seg_fd e)) (snd r)) h si3 elf)"

definition linker_load :: "env \<Rightarrow> world \<Rightarrow> string \<Rightarrow> (addr \<times> world) option" where
  "linker_load e w path =
     (case elf_open e w path of
        (r, w1, elf) \<Rightarrow>
          if r < 0 then Some (0, linker_set_error (''Failed to open: '' @ c_str path) w1)
          else if calloc_ptr e = 0
          then Some (0, elf_close elf (linker_set_error ''Out of memory'' w1))
          else
            let w2 = emit (Ev_calloc (calloc_ptr e)) w1;
                si = soinfo_zero\<lparr> si_name := take 255 (c_str path),
                                   si_phdr := ef_phdr elf,
                                   si_phnum := ucast (e_phnum (mem w2) (ef_ehdr elf)) \<rparr>
            in load_map e w2 (calloc_ptr e) si elf)"

subsection \<open>Unloading, constructors and destructors\<close>

definition is_valid_func_ptr :: "addr \<Rightarrow> bool" where
  "is_valid_func_ptr p = (\<not> (p = 0 \<or> p = - 1))"

text \<open>The function pointers of an array that are called, in the order of the indices given.\<close>

definition array_calls :: "memory \<Rightarrow> addr \<Rightarrow> nat list \<Rightarrow> event list" where
  "array_calls m arr idx =
     map Ev_call (filter is_valid_func_ptr (map (\<lambda>i. read_u64 m (arr + 8 * of_nat i)) idx))"

definition linker_call_constructors :: "world \<Rightarrow> addr \<Rightarrow> world option" where
  "linker_call_constructors w h =
     (if h = 0 then Some w
      else (case heap w h of
              None \<Rightarrow> None
            | Some si \<Rightarrow>
                let w1 = (if is_valid_func_ptr (si_init_func si)
                          then emit (Ev_call (si_init_func si)) w else w)
                in if si_init_array si \<noteq> 0 \<and> 0 < si_init_array_count si
                   then Some (w1\<lparr> trace := trace w1
                                  @ array_calls (mem w1) (si_init_array si)
                                      [0 ..< unat (si_init_array_count si)] \<rparr>)
                   else Some w1))"

definition linker_call_destructors :: "world \<Rightarrow> addr \<Rightarrow> world option" where
  "linker_call_destructors w h =
     (if h = 0 then Some w
      else (case heap w h of
              None \<Rightarrow> None
            | Some si \<Rightarrow>
                let w1 = (if si_fini_array si \<noteq> 0 \<and> 0 < si_fini_array_count si
                          then w\<lparr> trace := trace w
                                  @ array_calls (mem w) (si_fini_array si)
                                      (rev [0 ..< unat (si_fini_array_count si)]) \<rparr>
                          else w)
                in if is_valid_func_ptr (si_fini_func si)
                   then Some (emit (Ev_call (si_fini_func si)) w1) else Some w1))"

text \<open>
  \<open>ref_count\<close> is an \<open>int\<close>; decrementing \<open>INT_MIN\<close> is undefined. The search of the
  list for the record unlinks its first occurrence.
\<close>

definition linker_unload :: "world \<Rightarrow> addr \<Rightarrow> world option" where
  "linker_unload w h =
     (if h = 0 then Some w
      else (case heap w h of
              None \<Rightarrow> None
            | Some si \<Rightarrow>
                if si_ref_count si = 0x80000000 then None
                else
                  let w1 = w\<lparr> heap := (heap w)(h \<mapsto> si\<lparr> si_ref_count := si_ref_count si - 1 \<rparr>) \<rparr>
                  in if 0 <s si_ref_count si - 1 then Some w1
                     else (case linker_call_destructors w1 h of
                             None \<Rightarrow> None
                           | Some w2 \<Rightarrow>
                               let w3 = (if h \<in> set (soinfo_list w2)
                                         then emit (Ev_unregister h)
                                                (w2\<lparr> soinfo_list := remove1 h (soinfo_list w2) \<rparr>)
                                         else w2);
                                   w4 = (if si_base si \<noteq> 0
                                         then emit (Ev_munmap (si_base si) (si_size si)) w3
                                         else w3)
                               in Some (emit (Ev_free h) (w4\<lparr> heap := (heap w4)(h := None) \<rparr>)))))"

subsection \<open>The facade (dlfcn.c)\<close>

text \<open>A pointer argument that may be \<open>NULL\<close> is an option; a handle is an address.\<close>

definition MINI_RTLD_DEFAULT :: addr where "MINI_RTLD_DEFAULT = 0"
definition MINI_RTLD_NEXT :: addr where "MINI_RTLD_NEXT = - 1"

definition mini_dlopen :: "env \<Rightarrow> world \<Rightarrow> string option \<Rightarrow> 32 word \<Rightarrow> (addr \<times> world) option" where
  "mini_dlopen e w path flags =
     (case path of
        None \<Rightarrow> Some (0, linker_set_error ''dlopen: path is NULL'' w)
      | Some p \<Rightarrow>
          (case linker_load e w p of
             None \<Rightarrow> None
           | Some (si, w1) \<Rightarrow>
               if si = 0 then Some (0, w1)
               else (case linker_call_constructors w1 si of
                       None \<Rightarrow> None
                     | Some w2 \<Rightarrow> Some (si, w2))))"

definition mini_dlsym :: "env \<Rightarrow> world \<Rightarrow> addr \<Rightarrow> string option \<Rightarrow> (addr \<times> world) option" where
  "mini_dlsym e w handle symbol =
     (case symbol of
        None \<Rightarrow> Some (0, linker_set_error ''dlsym: symbol is NULL'' w)
      | Some s \<Rightarrow>
          if handle = MINI_RTLD_DEFAULT
          then (case linker_find_global_symbol e w s of
                  None \<Rightarrow> None
                | Some a \<Rightarrow>
                    Some (a, if a = 0
                             then linker_set_error (''dlsym: symbol not found: '' @ c_str s) w
                             else w))
          else if handle = MINI_RTLD_NEXT
          then Some (0, linker_set_error ''dlsym: RTLD_NEXT not implemented'' w)
          else (case linker_find_symbol w handle s of
                  None \<Rightarrow> None
                | Some a \<Rightarrow>
                    if a = 0
                    then (case heap w handle of
                            None \<Rightarrow> None
                          | Some si \<Rightarrow>
                              Some (a, linker_set_error
                                         (''dlsym: symbol not found in '' @ c_str (si_name si)
                                            @ '': '' @ c_str s) w))
                    else Some (a, w)))"

definition mini_dlclose :: "world \<Rightarrow> addr \<Rightarrow> (int \<times> world) option" where
  "mini_dlclose w handle =
     (if handle = 0 then Some (- 1, linker_set_error ''dlclose: invalid handle'' w)
      else (case linker_unload w handle of
              None \<Rightarrow> None
            | Some w1 \<Rightarrow> Some (0, w1)))"

definition mini_dlerror :: "world \<Rightarrow> string option \<times> world" where
  "mini_dlerror w = linker_get_error w"


subsection \<open>The GNU hash lookup as the specification words it\<close>

text \<open>
  The typed view of a GNU hash table that the specification speaks of: the four header
  words, then the bloom words, the buckets and the chain, read from the module's memory
  at the places where \<open>gnu_lookup\<close> computes them; \<open>gv_name_eq n\<close> compares the name
  bytes of symbol \<open>n\<close>.
\<close>

record gnu_view =
  gv_nbuckets :: "32 word"
  gv_symoffset :: "32 word"
  gv_bloom_size :: "32 word"
  gv_bloom_shift :: "32 word"
  gv_bloom :: "32 word \<Rightarrow> 64 word"
  gv_buckets :: "32 word \<Rightarrow> 32 word"
  gv_chain :: "32 word \<Rightarrow> 32 word"
  gv_name_eq :: "32 word \<Rightarrow> string \<Rightarrow> bool"

definition gnu_chain_addr :: "memory \<Rightarrow> soinfo \<Rightarrow> addr" where
  "gnu_chain_addr m si =
     si_gnu_hash si + 16 + 8 * ucast (read_u32 m (si_gnu_hash si + 8))
       + 4 * ucast (read_u32 m (si_gnu_hash si))"

definition gnu_view_of :: "memory \<Rightarrow> soinfo \<Rightarrow> gnu_view" where
  "gnu_view_of m si =
     (let gnu = si_gnu_hash si;
          nb = read_u32 m gnu;
          bs = read_u32 m (gnu + 8)
      in \<lparr> gv_nbuckets = nb,
           gv_symoffset = read_u32 m (gnu + 4),
           gv_bloom_size = bs,
           gv_bloom_shift = read_u32 m (gnu + 12),
           gv_bloom = (\<lambda>i. read_u64 m (gnu + 16 + 8 * ucast i)),
           gv_buckets = (\<lambda>i. read_u32 m (gnu + 16 + 8 * ucast bs + 4 * ucast i)),
           gv_chain = (\<lambda>i. read_u32 m (gnu + 16 + 8 * ucast bs + 4 * ucast nb + 4 * ucast i)),
           gv_name_eq = (\<lambda>n name.
              strcmp_eq m (si_strtab si + ucast (st_name m (si_symtab si + 24 * ucast n))) name) \<rparr>)"

text \<open>
  The algorithm in the specification's words, on 32-bit hash values: the hash starts at
  5381 and takes \<open>h * 33 + c\<close> for each byte; the bloom word must hold both bits; the
  bucket gives the first symbol index, zero meaning absence; the chain walk compares
  \<open>(h ^ chain[n - symoffset]) >> 1\<close> with zero and then the name, and ends at an
  entry with the low bit set. The result is the index of the symbol found, if any.
\<close>

definition spec_gnu_hash :: "string \<Rightarrow> 32 word" where
  "spec_gnu_hash name = foldl (\<lambda>h c. h * 33 + of_char c) 5381 (c_str name)"

partial_function (option) spec_chain_walk ::
  "gnu_view \<Rightarrow> string \<Rightarrow> 32 word \<Rightarrow> 32 word \<Rightarrow> 32 word option option"
where
  "spec_chain_walk v name h n =
     (let c = gv_chain v (n - gv_symoffset v)
      in if drop_bit 1 (h XOR c) = 0 \<and> gv_name_eq v n name then Some (Some n)
         else if c AND 1 \<noteq> 0 then Some None
         else spec_chain_walk v name h (n + 1))"

definition spec_gnu_lookup :: "gnu_view \<Rightarrow> string \<Rightarrow> 32 word option option" where
  "spec_gnu_lookup v name =
     (let h = spec_gnu_hash name;
          w = gv_bloom v ((h div 64) mod gv_bloom_size v);
          k = push_bit (unat (h mod 64)) (1 :: 64 word)
              OR push_bit (unat (drop_bit (unat (gv_bloom_shift v)) h mod 64)) 1
      in if w AND k \<noteq> k then Some None
         else let n = gv_buckets v (h mod gv_nbuckets v)
              in if n = 0 then Some None else spec_chain_walk v name h n)"

text \<open>The pointer \<open>&si->symtab[n]\<close> for a symbol found, \<open>NULL\<close> for absence.\<close>

definition sym_ptr :: "soinfo \<Rightarrow> 32 word option \<Rightarrow> addr" where
  "sym_ptr si r = (case r of None \<Rightarrow> 0 | Some n \<Rightarrow> si_symtab si + 24 * ucast n)"

subsection \<open>Example data\<close>

text \<open>Memory given by blocks of bytes at addresses, zero elsewhere.\<close>

fun mem_of :: "(addr \<times> 8 word list) list \<Rightarrow> memory" where
  "mem_of [] a = 0"
| "mem_of ((b, bs) # r) a =
     (if unat (a - b) < length bs then bs ! unat (a - b) else mem_of r a)"

definition le16 :: "16 word \<Rightarrow> 8 word list" where
  "le16 v = [ucast v, ucast (drop_bit 8 v)]"

definition le32 :: "32 word \<Rightarrow> 8 word list" where
  "le32 v = le16 (ucast v) @ le16 (ucast (drop_bit 16 v))"

definition le64 :: "64 word \<Rightarrow> 8 word list" where
  "le64 v = le32 (ucast v) @ le32 (ucast (drop_bit 32 v))"

definition elf_sym :: "32 word \<Rightarrow> 8 word \<Rightarrow> 16 word \<Rightarrow> 64 word \<Rightarrow> 8 word list" where
  "elf_sym nm info shndx val = le32 nm @ [info, 0] @ le16 shndx @ le64 val @ le64 0"

text \<open>
  A module at load bias \<open>0x10000\<close> with one global function \<open>f\<close> at \<open>0x500\<close>
  (symbol 1), a GNU hash table (one bucket, \<open>symoffset\<close> 1, one bloom word, the chain
  entry \<open>gnu_hash f = 177675\<close>) and an ELF hash table (one bucket, two chain entries).
\<close>

definition ex_mem :: memory where
  "ex_mem = mem_of
     [(0x10100, elf_sym 0 0 0 0 @ elf_sym 1 0x12 1 0x500),
      (0x10200, [0, 102, 0]),
      (0x10300, le32 1 @ le32 1 @ le32 1 @ le32 6 @ le64 0xFFFFFFFFFFFFFFFF @ le32 1
                @ le32 177675),
      (0x10400, le32 1 @ le32 2 @ le32 1 @ le32 0 @ le32 0)]"

definition ex_si :: soinfo where
  "ex_si = soinfo_zero\<lparr> si_name := ''liba.so'', si_load_bias := 0x10000, si_symtab := 0x10100,
      si_strtab := 0x10200, si_gnu_hash := 0x10300, si_hash := 0x10400, si_ref_count := 1 \<rparr>"

subsection \<open>Vocabulary of the claims about lookup\<close>

text \<open>
  \<open>sym_at si i\<close> is the address of \<open>si->symtab[i]\<close>. The entry at \<open>symb\<close> defines
  \<open>name\<close> when its name is exactly \<open>name\<close>, its section index is not \<open>SHN_UNDEF\<close> and
  its binding is global or weak. The linear scan also wants a name offset that is not zero.
\<close>

definition sym_at :: "soinfo \<Rightarrow> nat \<Rightarrow> addr" where
  "sym_at si i = si_symtab si + 24 * of_nat i"

definition sym_defines :: "memory \<Rightarrow> soinfo \<Rightarrow> string \<Rightarrow> addr \<Rightarrow> bool" where
  "sym_defines m si name symb =
     (strcmp_eq m (si_strtab si + ucast (st_name m symb)) name
      \<and> st_shndx m symb \<noteq> SHN_UNDEF \<and> sym_exported m symb)"

definition linear_match :: "memory \<Rightarrow> soinfo \<Rightarrow> string \<Rightarrow> nat \<Rightarrow> bool" where
  "linear_match m si name i =
     (st_name m (sym_at si i) \<noteq> 0 \<and> sym_defines m si name (sym_at si i))"

text \<open>
  A module without hash tables whose only named symbol, the global function \<open>f\<close>, is
  entry 256 of the symbol table.
\<close>

definition big_mem :: memory where
  "big_mem = mem_of [(0x21800, elf_sym 1 0x12 1 0x500), (0x30000, [0, 102, 0])]"

definition big_si :: soinfo where
  "big_si = soinfo_zero\<lparr> si_name := ''big.so'', si_load_bias := 0x10000, si_symtab := 0x20000,
      si_strtab := 0x30000, si_ref_count := 1 \<rparr>"

text \<open>The two modules loaded, each alone in its registry.\<close>

definition ex_world :: world where
  "ex_world = \<lparr> soinfo_list = [0x7000], error_msg = [], has_error = False,
      heap = [0x7000 \<mapsto> ex_si], mem = ex_mem, trace = [] \<rparr>"

definition big_world :: world where
  "big_world = \<lparr> soinfo_list = [0x8000], error_msg = [], has_error = False,
      heap = [0x8000 \<mapsto> big_si], mem = big_mem, trace = [] \<rparr>"

text \<open>
  The ELF hash chain of a name: \<open>elf_chain_from m chain n i\<close> lists the symbol indices
  that the walk from index \<open>i\<close> visits in its first \<open>n\<close> steps, and
  \<open>elf_chain_ends\<close> tells whether the walk has reached the index 0 by then.
  \<open>elf_bucket_chain\<close> starts at the bucket of the name. \<open>gnu_misses\<close>: the module has
  no GNU hash table, or the GNU lookup returns \<open>NULL\<close> or an entry that is undefined or
  not exported, so that \<open>linker_find_symbol\<close> goes on to the ELF hash table.
\<close>

fun elf_chain_from :: "memory \<Rightarrow> addr \<Rightarrow> nat \<Rightarrow> 32 word \<Rightarrow> nat list" where
  "elf_chain_from m chain 0 i = []"
| "elf_chain_from m chain (Suc n) i =
     (if i = 0 then []
      else unat i # elf_chain_from m chain n (read_u32 m (chain + 4 * ucast i)))"

fun elf_chain_ends :: "memory \<Rightarrow> addr \<Rightarrow> nat \<Rightarrow> 32 word \<Rightarrow> bool" where
  "elf_chain_ends m chain 0 i = (i = 0)"
| "elf_chain_ends m chain (Suc n) i =
     (i = 0 \<or> elf_chain_ends m chain n (read_u32 m (chain + 4 * ucast i)))"

definition elf_bucket_chain :: "memory \<Rightarrow> soinfo \<Rightarrow> string \<Rightarrow> nat \<Rightarrow> nat list" where
  "elf_bucket_chain m si name n =
     (let nbucket = read_u32 m (si_hash si)
      in elf_chain_from m (si_hash si + 4 * ucast (2 + nbucket)) n
           (read_u32 m (si_hash si + 8 + 4 * ucast (elf_hash name mod nbucket))))"

definition elf_bucket_chain_ends :: "memory \<Rightarrow> soinfo \<Rightarrow> string \<Rightarrow> nat \<Rightarrow> bool" where
  "elf_bucket_chain_ends m si name n =
     (let nbucket = read_u32 m (si_hash si)
      in elf_chain_ends m (si_hash si + 4 * ucast (2 + nbucket)) n
           (read_u32 m (si_hash si + 8 + 4 * ucast (elf_hash name mod nbucket))))"

definition gnu_misses :: "memory \<Rightarrow> soinfo \<Rightarrow> string \<Rightarrow> bool" where
  "gnu_misses m si name =
     (si_gnu_hash si = 0
      \<or> (case gnu_lookup m si name of
            None \<Rightarrow> False
          | Some p \<Rightarrow> p = 0 \<or> st_shndx m p = SHN_UNDEF \<or> \<not> sym_exported m p))"

text \<open>
  The module \<open>ex_si\<close> over a memory in which the symbol table has a third entry, the
  global function \<open>g\<close> at \<open>0x600\<close>, which neither hash table links; and a process
  with one module, given by its record, over that memory.
\<close>

definition hid_mem :: memory where
  "hid_mem = mem_of
     [(0x10100, elf_sym 0 0 0 0 @ elf_sym 1 0x12 1 0x500 @ elf_sym 3 0x12 1 0x600),
      (0x10200, [0, 102, 0, 103, 0]),
      (0x10300, le32 1 @ le32 1 @ le32 1 @ le32 6 @ le64 0xFFFFFFFFFFFFFFFF @ le32 1
                @ le32 177675),
      (0x10400, le32 1 @ le32 3 @ le32 1 @ le32 0 @ le32 0 @ le32 0)]"

definition hid_world :: "soinfo \<Rightarrow> world" where
  "hid_world si = \<lparr> soinfo_list = [0x7000], error_msg = [], has_error = False,
      heap = [0x7000 \<mapsto> si], mem = hid_mem, trace = [] \<rparr>"


subsection \<open>Vocabulary of the claim about relocation\<close>

text \<open>
  The entries that \<open>linker_relocate\<close> is to process, in order: the RELA table, then the
  PLT RELA table, each when its pointer is set. \<open>reloc_seq\<close> applies \<open>do_reloc\<close> to a
  list of entries, each in the world that the one before left.
\<close>

definition reloc_entries :: "soinfo \<Rightarrow> addr list" where
  "reloc_entries si =
     (if si_rela si \<noteq> 0
      then map (\<lambda>i. si_rela si + 24 * of_nat i) [0 ..< unat (si_rela_count si)] else [])
     @ (if si_plt_rela si \<noteq> 0
        then map (\<lambda>i. si_plt_rela si + 24 * of_nat i) [0 ..< unat (si_plt_rela_count si)]
        else [])"

fun reloc_seq :: "env \<Rightarrow> soinfo \<Rightarrow> addr list \<Rightarrow> world \<Rightarrow> world option" where
  "reloc_seq e si [] w = Some w"
| "reloc_seq e si (r # rs) w =
     (case do_reloc e w si r of
        None \<Rightarrow> None
      | Some (c, w') \<Rightarrow> reloc_seq e si rs w')"





definition ex_env :: env where
  "ex_env = \<lparr> elf_fd = 3, fstat_ok = True, file_bytes = [], elf_map = 0x40000,
      calloc_ptr = 0x7000, reserve_ptr = 0x10000, seg_fd = 4, seg_mmap_ok = (\<lambda>i. True),
      bss_mmap_ok = (\<lambda>i. True), host_dlsym = (\<lambda>name. 0) \<rparr>"

subsection \<open>Vocabulary of the claims about loading and unloading\<close>

text \<open>The events of \<open>elf_close\<close> and of the exit through the label \<open>error\<close>.\<close>

definition elf_close_events :: "elf_file_t \<Rightarrow> event list" where
  "elf_close_events elf =
     (if ef_map_start elf \<noteq> 0 \<and> ef_map_start elf \<noteq> MAP_FAILED
      then [Ev_munmap (ef_map_start elf) (ef_map_size elf)] else [])
     @ (if 0 \<le> ef_fd elf then [Ev_close (ef_fd elf)] else [])"

definition load_error_events :: "int \<Rightarrow> addr \<Rightarrow> soinfo \<Rightarrow> elf_file_t \<Rightarrow> event list" where
  "load_error_events fd h si elf =
     (if 0 \<le> fd then [Ev_close fd] else [])
     @ (if si_base si \<noteq> 0 \<and> si_base si \<noteq> MAP_FAILED
        then [Ev_munmap (si_base si) (si_size si)] else [])
     @ [Ev_free h] @ elf_close_events elf"

text \<open>
  In a list of events, every occurrence of the event \<open>a\<close> is followed, later, by the
  event \<open>r\<close>: what \<open>a\<close> acquired, \<open>r\<close> has released.
\<close>

fun then_released :: "event \<Rightarrow> event \<Rightarrow> event list \<Rightarrow> bool" where
  "then_released a r [] = True"
| "then_released a r (x # xs) = ((x = a \<longrightarrow> r \<in> set xs) \<and> then_released a r xs)"

definition is_segment_mmap :: "event \<Rightarrow> bool" where
  "is_segment_mmap ev =
     (case ev of Ev_mmap k a n p \<Rightarrow> k = Segment \<or> k = Bss | _ \<Rightarrow> False)"

definition is_call :: "event \<Rightarrow> bool" where
  "is_call ev = (case ev of Ev_call a \<Rightarrow> True | _ \<Rightarrow> False)"

text \<open>
  What a load that fails after the record was allocated leaves in the trace between
  \<open>calloc\<close> and \<open>free\<close>: nothing, or the reservation, then segment mappings and the
  opening and closing of the second descriptor, then the \<open>munmap\<close> of the reservation
  (which the code skips for a null base).
\<close>

definition load_mid :: "env \<Rightarrow> event list \<Rightarrow> bool" where
  "load_mid e mid =
     (\<forall>ev \<in> set mid. is_segment_mmap ev \<or> ev = Ev_open (seg_fd e) \<or> ev = Ev_close (seg_fd e))"

definition reservation_shape :: "env \<Rightarrow> event list \<Rightarrow> bool" where
  "reservation_shape e evs =
     (evs = []
      \<or> (\<exists>n mid. evs = Ev_mmap Reservation (reserve_ptr e) n 0 # mid
                        @ (if reserve_ptr e \<noteq> 0 then [Ev_munmap (reserve_ptr e) n] else [])
                  \<and> load_mid e mid))"

text \<open>
  The events of a load. \<open>view_events\<close> are those of a successful \<open>elf_open\<close>,
  \<open>view_close_events\<close> those of the \<open>elf_close\<close> that follows it.
  \<open>load_failure_shape\<close> lists the traces of a load that fails: the three failures
  inside \<open>elf_open\<close>, the failure of \<open>calloc\<close>, and every later failure.
\<close>

definition view_events :: "env \<Rightarrow> event list" where
  "view_events e =
     [Ev_open (elf_fd e),
      Ev_mmap File_view (elf_map e) (of_nat (length (file_bytes e))) PROT_READ]"

definition view_close_events :: "env \<Rightarrow> event list" where
  "view_close_events e =
     (if elf_map e \<noteq> 0 then [Ev_munmap (elf_map e) (of_nat (length (file_bytes e)))] else [])
     @ [Ev_close (elf_fd e)]"

definition load_success_events :: "env \<Rightarrow> 64 word \<Rightarrow> event list \<Rightarrow> event list" where
  "load_success_events e n segs =
     view_events e
     @ [Ev_calloc (calloc_ptr e), Ev_mmap Reservation (reserve_ptr e) n 0, Ev_open (seg_fd e)]
     @ segs
     @ [Ev_close (seg_fd e), Ev_register (calloc_ptr e)]
     @ view_close_events e"

definition load_failure_shape :: "env \<Rightarrow> event list \<Rightarrow> bool" where
  "load_failure_shape e evs =
     (evs = []
      \<or> evs = [Ev_open (elf_fd e), Ev_close (elf_fd e)]
      \<or> evs = view_events e
               @ [Ev_munmap (elf_map e) (of_nat (length (file_bytes e))), Ev_close (elf_fd e)]
      \<or> evs = view_events e @ view_close_events e
      \<or> (\<exists>mid. evs = view_events e @ [Ev_calloc (calloc_ptr e)] @ mid
                      @ [Ev_free (calloc_ptr e)] @ view_close_events e
                \<and> reservation_shape e mid))"

subsection \<open>An example shared object\<close>

text \<open>
  A shared object of 400 bytes, loaded whole by one \<open>PT_LOAD\<close> segment at address 0:
  the ELF header, two program headers (\<open>PT_LOAD\<close>, \<open>PT_DYNAMIC\<close>), the dynamic
  section at \<open>0xb0\<close> (symbol table, string table, ELF hash table, \<open>DT_INIT\<close> at
  \<open>0x200\<close>, an init array of two entries), the symbol table at \<open>0x130\<close> with the
  global function \<open>f\<close> at the value \<open>0x500\<close>, the string table at \<open>0x160\<close>, the
  hash table at \<open>0x168\<close>, and the init array at \<open>0x180\<close> holding \<open>0x300\<close> and a
  null entry.
\<close>

definition elf_ehdr :: "16 word \<Rightarrow> 8 word list" where
  "elf_ehdr n = [0x7f, 0x45, 0x4c, 0x46, 2, 1, 1, 0, 0, 0, 0, 0, 0, 0, 0, 0]
     @ le16 3 @ le16 62 @ le32 1 @ le64 0 @ le64 0x40 @ le64 0 @ le32 0
     @ le16 64 @ le16 56 @ le16 n @ le16 0 @ le16 0 @ le16 0"

definition elf_phdr :: "32 word \<Rightarrow> 32 word \<Rightarrow> 64 word \<Rightarrow> 64 word \<Rightarrow> 8 word list" where
  "elf_phdr t flags off sz = le32 t @ le32 flags @ le64 off @ le64 off @ le64 off
     @ le64 sz @ le64 sz @ le64 0x1000"

definition elf_dyn :: "64 word \<Rightarrow> 64 word \<Rightarrow> 8 word list" where
  "elf_dyn t v = le64 t @ le64 v"

definition ex_image :: "8 word list" where
  "ex_image =
     elf_ehdr 2 @ elf_phdr 1 7 0 0x190 @ elf_phdr 2 6 0xb0 0x80
     @ elf_dyn 6 0x130 @ elf_dyn 5 0x160 @ elf_dyn 4 0x168 @ elf_dyn 12 0x200
     @ elf_dyn 25 0x180 @ elf_dyn 27 16 @ elf_dyn 0 0 @ elf_dyn 0 0
     @ elf_sym 0 0 0 0 @ elf_sym 1 0x12 1 0x500
     @ [0, 102, 0, 0, 0, 0, 0, 0]
     @ le32 1 @ le32 2 @ le32 1 @ le32 0 @ le32 0 @ le32 0
     @ le64 0x300 @ le64 0"

text \<open>
  The operating system's answers for a load of the object with the record at \<open>h\<close>, the
  reservation at \<open>base\<close> and the second descriptor \<open>fd\<close>; an empty process.
\<close>

definition env_img :: "addr \<Rightarrow> addr \<Rightarrow> int \<Rightarrow> env" where
  "env_img h base fd = \<lparr> elf_fd = 3, fstat_ok = True, file_bytes = ex_image, elf_map = 0x40000,
      calloc_ptr = h, reserve_ptr = base, seg_fd = fd, seg_mmap_ok = (\<lambda>i. True),
      bss_mmap_ok = (\<lambda>i. True), host_dlsym = (\<lambda>name. 0) \<rparr>"

definition world0 :: world where
  "world0 = \<lparr> soinfo_list = [], error_msg = [], has_error = False,
      heap = Map.empty, mem = (\<lambda>a. 0), trace = [] \<rparr>"

text \<open>The record of the object loaded at \<open>base\<close> under the name \<open>name\<close>.\<close>

definition img_si :: "addr \<Rightarrow> string \<Rightarrow> soinfo" where
  "img_si base name = \<lparr> si_name = name, si_base = base, si_size = 4096, si_load_bias = base,
     si_phdr = 0x40040, si_phnum = 2, si_dynamic = base + 0xb0, si_symtab = base + 0x130,
     si_strtab = base + 0x160, si_strtab_size = 0, si_hash = base + 0x168, si_gnu_hash = 0,
     si_rela = 0, si_rela_count = 0, si_plt_rela = 0, si_plt_rela_count = 0,
     si_init_func = base + 0x200, si_fini_func = 0, si_init_array = base + 0x180,
     si_init_array_count = 2, si_fini_array = 0, si_fini_array_count = 0, si_ref_count = 1 \<rparr>"

definition img_mem :: "memory \<Rightarrow> addr \<Rightarrow> memory" where
  "img_mem m base =
     map_file (map_anon (map_file m 0x40000 400 ex_image 0) base 4096) base 0x190 ex_image 0"

text \<open>What \<open>elf_open\<close> returns for the object, and its record before step 8.\<close>

definition img_view :: elf_file_t where
  "img_view = \<lparr> ef_fd = 3, ef_map_start = 0x40000, ef_map_size = 400, ef_ehdr = 0x40000,
        ef_phdr = 0x40040, ef_shdr = 0, ef_shstrtab = 0 \<rparr>"

definition img_si0 :: "addr \<Rightarrow> string \<Rightarrow> soinfo" where
  "img_si0 base name = soinfo_zero\<lparr> si_name := name, si_phdr := 0x40040, si_phnum := 2,
      si_size := 4096, si_base := base, si_load_bias := base \<rparr>"

text \<open>The process after the object was loaded once, and after it was loaded a second time.\<close>

definition world_a :: world where
  "world_a = world0\<lparr> soinfo_list := [0x7000],
       heap := [0x7000 \<mapsto> img_si 0x10000 ''liba.so''],
       mem := img_mem (\<lambda>a. 0) 0x10000,
       trace := [Ev_open 3, Ev_mmap File_view 0x40000 400 PROT_READ, Ev_calloc 0x7000,
           Ev_mmap Reservation 0x10000 4096 0, Ev_open 4, Ev_mmap Segment 0x10000 0x190 7,
           Ev_close 4, Ev_register 0x7000, Ev_munmap 0x40000 400, Ev_close 3,
           Ev_call 0x10200, Ev_call 0x300] \<rparr>"

definition world_ab :: world where
  "world_ab = world_a\<lparr> soinfo_list := [0x7100, 0x7000],
       heap := [0x7000 \<mapsto> img_si 0x10000 ''liba.so'', 0x7100 \<mapsto> img_si 0x20000 ''libb.so''],
       mem := img_mem (img_mem (\<lambda>a. 0) 0x10000) 0x20000,
       trace := trace world_a @ [Ev_open 3, Ev_mmap File_view 0x40000 400 PROT_READ,
           Ev_calloc 0x7100, Ev_mmap Reservation 0x20000 4096 0, Ev_open 4,
           Ev_mmap Segment 0x20000 0x190 7, Ev_close 4, Ev_register 0x7100,
           Ev_munmap 0x40000 400, Ev_close 3, Ev_call 0x20200, Ev_call 0x300] \<rparr>"

subsection \<open>Vocabulary of the claim about the error slot\<close>

text \<open>The messages that a failing \<open>mini_dlopen\<close> can leave in the error slot.\<close>

definition load_error_messages :: "string option \<Rightarrow> string list" where
  "load_error_messages path =
     (case path of
        None \<Rightarrow> [''dlopen: path is NULL'']
      | Some p \<Rightarrow>
          [''Failed to open: '' @ c_str p, ''Out of memory'', ''No loadable segments'',
           ''mmap failed'', ''Failed to open file for mmap'', ''Failed to mmap segment'',
           ''Failed to mmap BSS'', ''No dynamic section'',
           ''Missing symbol table or string table''])"

subsection \<open>Vocabulary of the claim about unloading\<close>

text \<open>
  The events of an unload that releases the module with the record \<open>si\<close> at \<open>h\<close>: the
  calls of the entries of the fini array from the last index down to 0, without the null
  and the all-ones entries, the call of \<open>DT_FINI\<close> if it is valid, the removal from
  the list, the \<open>munmap\<close> of the reservation, and the \<open>free\<close> of the record.
\<close>

definition unload_events :: "world \<Rightarrow> addr \<Rightarrow> soinfo \<Rightarrow> event list" where
  "unload_events w h si =
     (if si_fini_array si \<noteq> 0 \<and> 0 < si_fini_array_count si
      then map Ev_call (filter is_valid_func_ptr
             (map (\<lambda>i. read_u64 (mem w) (si_fini_array si + 8 * of_nat i))
                (rev [0 ..< unat (si_fini_array_count si)])))
      else [])
     @ (if is_valid_func_ptr (si_fini_func si) then [Ev_call (si_fini_func si)] else [])
     @ (if h \<in> set (soinfo_list w) then [Ev_unregister h] else [])
     @ (if si_base si \<noteq> 0 then [Ev_munmap (si_base si) (si_size si)] else [])
     @ [Ev_free h]"

text \<open>
  The invariant of the registry: no record is in the list twice, and every record in
  the list is allocated and has a reference count of at least 1.
\<close>

definition registry_inv :: "world \<Rightarrow> bool" where
  "registry_inv w =
     (distinct (soinfo_list w)
      \<and> (\<forall>h \<in> set (soinfo_list w).
            h \<noteq> 0 \<and> (case heap w h of None \<Rightarrow> False | Some si \<Rightarrow> 1 \<le>s si_ref_count si)))"

text \<open>
  A process with one module whose fini array holds \<open>0x111\<close>, a null entry, an all-ones
  entry and \<open>0x222\<close>, and whose reference count is \<open>n\<close>.
\<close>

definition fini_mem :: memory where
  "fini_mem = mem_of [(0x5000, le64 0x111 @ le64 0 @ le64 0xFFFFFFFFFFFFFFFF @ le64 0x222)]"

definition fini_si :: "32 word \<Rightarrow> soinfo" where
  "fini_si n = soinfo_zero\<lparr> si_name := ''libfini.so'', si_base := 0x10000, si_size := 4096,
      si_load_bias := 0x10000, si_fini_func := 0x333, si_fini_array := 0x5000,
      si_fini_array_count := 4, si_ref_count := n \<rparr>"

definition fini_world :: "32 word \<Rightarrow> world" where
  "fini_world n = \<lparr> soinfo_list = [0x7000], error_msg = [], has_error = False,
      heap = [0x7000 \<mapsto> fini_si n], mem = fini_mem, trace = [] \<rparr>"

section \<open>Properties\<close>

lemmas read_defs = read_u8_def read_u16_def read_u32_def read_u64_def
  st_name_def st_info_def st_shndx_def st_value_def st_size_def

lemmas ex_defs = ex_mem_def ex_si_def soinfo_zero_def le16_def le32_def le64_def elf_sym_def

subsection \<open>GNU hash lookup\<close>

lemma gnu_hash_step: "push_bit 5 h + h = (h :: 32 word) * 33"
  by (simp add: push_bit_eq_mult)

lemma gnu_hash_from_foldl:
  "gnu_hash_from h name = foldl (\<lambda>h c. h * 33 + of_char c) h (c_str name)"
proof (induction name arbitrary: h)
  case Nil
  then show ?case by (simp add: c_str_def)
next
  case (Cons c cs)
  show ?case
  proof (cases "c = CHR 0x00")
    case True
    then show ?thesis by (simp add: c_str_def)
  next
    case False
    have "gnu_hash_from h (c # cs) = gnu_hash_from (h * 33 + of_char c) cs"
      using False by (simp only: gnu_hash_from.simps if_False gnu_hash_step)
    also have "\<dots> = foldl (\<lambda>h c. h * 33 + of_char c) (h * 33 + of_char c) (c_str cs)"
      by (rule Cons.IH)
    also have "\<dots> = foldl (\<lambda>h c. h * 33 + of_char c) h (c_str (c # cs))"
      using False by (simp add: c_str_def)
    finally show ?thesis .
  qed
qed

lemma gnu_hash_spec: "gnu_hash name = spec_gnu_hash name"
  by (simp add: gnu_hash_def spec_gnu_hash_def gnu_hash_from_foldl)

lemma sym_ptr_simps:
  "sym_ptr si None = 0" "sym_ptr si (Some n) = si_symtab si + 24 * ucast n"
  by (simp_all add: sym_ptr_def)

lemma gnu_view_sel:
  "gv_symoffset (gnu_view_of m si) = read_u32 m (si_gnu_hash si + 4)"
  "gv_chain (gnu_view_of m si) i =
     read_u32 m (si_gnu_hash si + 16 + 8 * ucast (read_u32 m (si_gnu_hash si + 8))
                   + 4 * ucast (read_u32 m (si_gnu_hash si)) + 4 * ucast i)"
  "gv_name_eq (gnu_view_of m si) n name =
     strcmp_eq m (si_strtab si + ucast (st_name m (si_symtab si + 24 * ucast n))) name"
  by (simp_all add: gnu_view_of_def Let_def)

lemma walk_code_to_spec:
  assumes "gnu_chain_walk m si name h chain so n = Some r"
  shows "chain = gnu_chain_addr m si \<longrightarrow> so = read_u32 m (si_gnu_hash si + 4) \<longrightarrow>
   (\<exists>q. spec_chain_walk (gnu_view_of m si) name h n = Some q \<and> r = sym_ptr si q)"
proof (rule gnu_chain_walk.raw_induct[where P = "\<lambda>m si name h chain so n r.
    chain = gnu_chain_addr m si \<longrightarrow> so = read_u32 m (si_gnu_hash si + 4) \<longrightarrow>
   (\<exists>q. spec_chain_walk (gnu_view_of m si) name h n = Some q \<and> r = sym_ptr si q)", OF _ assms])
  fix gw m si name h chain so n r
  assume IH: "\<And>m si name h chain so n r. gw m si name h chain so n = Some r \<Longrightarrow>
     chain = gnu_chain_addr m si \<longrightarrow> so = read_u32 m (si_gnu_hash si + 4) \<longrightarrow>
     (\<exists>q. spec_chain_walk (gnu_view_of m si) name h n = Some q \<and> r = sym_ptr si q)"
  assume body: "(let symb = si_symtab si + 24 * ucast n;
            h2 = read_u32 m (chain + 4 * ucast (n - so))
        in if drop_bit 1 (h XOR h2) = 0 \<and>
              strcmp_eq m (si_strtab si + ucast (st_name m symb)) name
           then Some symb
           else if h2 AND 1 \<noteq> 0 then Some 0
                else gw m si name h chain so (n + 1)) = Some r"
  show "chain = gnu_chain_addr m si \<longrightarrow> so = read_u32 m (si_gnu_hash si + 4) \<longrightarrow>
     (\<exists>q. spec_chain_walk (gnu_view_of m si) name h n = Some q \<and> r = sym_ptr si q)"
  proof (intro impI)
    assume ch: "chain = gnu_chain_addr m si" and so: "so = read_u32 m (si_gnu_hash si + 4)"
    let ?c = "read_u32 m (chain + 4 * ucast (n - so))"
    let ?nm = "strcmp_eq m (si_strtab si + ucast (st_name m (si_symtab si + 24 * ucast n))) name"
    have c: "gv_chain (gnu_view_of m si) (n - gv_symoffset (gnu_view_of m si)) = ?c"
      unfolding ch so gnu_view_sel gnu_chain_addr_def ..
    have nm: "gv_name_eq (gnu_view_of m si) n name = ?nm"
      by (simp only: gnu_view_sel)
    have unf: "spec_chain_walk (gnu_view_of m si) name h n =
       (if drop_bit 1 (h XOR ?c) = 0 \<and> ?nm then Some (Some n)
         else if ?c AND 1 \<noteq> 0 then Some None
         else spec_chain_walk (gnu_view_of m si) name h (n + 1))"
      by (subst spec_chain_walk.simps) (simp only: Let_def c nm)
    have body': "(if drop_bit 1 (h XOR ?c) = 0 \<and> ?nm then Some (si_symtab si + 24 * ucast n)
           else if ?c AND 1 \<noteq> 0 then Some 0
                else gw m si name h chain so (n + 1)) = Some r"
      using body by (simp only: Let_def)
    show "\<exists>q. spec_chain_walk (gnu_view_of m si) name h n = Some q \<and> r = sym_ptr si q"
    proof (cases "drop_bit 1 (h XOR ?c) = 0 \<and> ?nm")
      case True
      then have "r = si_symtab si + 24 * ucast n" using body' by (auto split: if_splits)
      moreover have "spec_chain_walk (gnu_view_of m si) name h n = Some (Some n)"
        using True by (subst unf) (auto split: if_splits)
      ultimately show ?thesis by (simp add: sym_ptr_simps)
    next
      case False
      show ?thesis
      proof (cases "?c AND 1 \<noteq> 0")
        case True
        then have "r = 0" using body' False by (auto split: if_splits)
        moreover have "spec_chain_walk (gnu_view_of m si) name h n = Some None"
          using True False by (subst unf) (auto split: if_splits)
        ultimately show ?thesis by (simp add: sym_ptr_simps)
      next
        case F2: False
        then have "gw m si name h chain so (n + 1) = Some r" using body' False by (auto split: if_splits)
        from IH[OF this] ch so obtain q where
          q: "spec_chain_walk (gnu_view_of m si) name h (n + 1) = Some q" "r = sym_ptr si q" by blast
        have "spec_chain_walk (gnu_view_of m si) name h n = spec_chain_walk (gnu_view_of m si) name h (n + 1)"
          using F2 False by (subst unf) (auto split: if_splits)
        then show ?thesis using q by simp
      qed
    qed
  qed
qed


lemma walk_spec_to_code:
  assumes "spec_chain_walk v name h n = Some q"
  shows "v = gnu_view_of m si \<longrightarrow>
    gnu_chain_walk m si name h (gnu_chain_addr m si) (read_u32 m (si_gnu_hash si + 4)) n
      = Some (sym_ptr si q)"
proof (rule spec_chain_walk.raw_induct[where P = "\<lambda>v name h n q. v = gnu_view_of m si \<longrightarrow>
    gnu_chain_walk m si name h (gnu_chain_addr m si) (read_u32 m (si_gnu_hash si + 4)) n
      = Some (sym_ptr si q)", OF _ assms])
  fix sw v name h n q
  assume IH: "\<And>v name h n q. sw v name h n = Some q \<Longrightarrow> v = gnu_view_of m si \<longrightarrow>
    gnu_chain_walk m si name h (gnu_chain_addr m si) (read_u32 m (si_gnu_hash si + 4)) n
      = Some (sym_ptr si q)"
  assume body: "(let c = gv_chain v (n - gv_symoffset v)
        in if drop_bit 1 (h XOR c) = 0 \<and> gv_name_eq v n name
           then Some (Some n)
           else if c AND 1 \<noteq> 0 then Some None
                else sw v name h (n + 1)) = Some q"
  show "v = gnu_view_of m si \<longrightarrow>
    gnu_chain_walk m si name h (gnu_chain_addr m si) (read_u32 m (si_gnu_hash si + 4)) n
      = Some (sym_ptr si q)"
  proof
    assume v: "v = gnu_view_of m si"
    let ?chain = "gnu_chain_addr m si"
    let ?so = "read_u32 m (si_gnu_hash si + 4)"
    let ?c = "read_u32 m (?chain + 4 * ucast (n - ?so))"
    let ?nm = "strcmp_eq m (si_strtab si + ucast (st_name m (si_symtab si + 24 * ucast n))) name"
    have c: "gv_chain v (n - gv_symoffset v) = ?c"
      unfolding v gnu_view_sel gnu_chain_addr_def ..
    have nm: "gv_name_eq v n name = ?nm"
      unfolding v by (simp only: gnu_view_sel)
    have unf: "gnu_chain_walk m si name h ?chain ?so n =
       (if drop_bit 1 (h XOR ?c) = 0 \<and> ?nm then Some (si_symtab si + 24 * ucast n)
         else if ?c AND 1 \<noteq> 0 then Some 0
         else gnu_chain_walk m si name h ?chain ?so (n + 1))"
      by (subst gnu_chain_walk.simps) (simp only: Let_def)
    have body': "(if drop_bit 1 (h XOR ?c) = 0 \<and> ?nm then Some (Some n)
           else if ?c AND 1 \<noteq> 0 then Some None
                else sw v name h (n + 1)) = Some q"
      using body by (simp only: Let_def c nm)
    show "gnu_chain_walk m si name h ?chain ?so n = Some (sym_ptr si q)"
    proof (cases "drop_bit 1 (h XOR ?c) = 0 \<and> ?nm")
      case True
      then have "q = Some n" using body' by (auto split: if_splits)
      then show ?thesis using True by (subst unf) (auto simp: sym_ptr_simps split: if_splits)
    next
      case False
      show ?thesis
      proof (cases "?c AND 1 \<noteq> 0")
        case True
        then have "q = None" using body' False by (auto split: if_splits)
        then show ?thesis using True False by (subst unf) (auto simp: sym_ptr_simps split: if_splits)
      next
        case F2: False
        then have "sw v name h (n + 1) = Some q" using body' False by (auto split: if_splits)
        from IH[OF this] v have "gnu_chain_walk m si name h ?chain ?so (n + 1) = Some (sym_ptr si q)"
          by blast
        then show ?thesis using F2 False by (subst unf) (auto split: if_splits)
      qed
    qed
  qed
qed

lemma gnu_chain_walk_spec:
  "gnu_chain_walk m si name h (gnu_chain_addr m si) (read_u32 m (si_gnu_hash si + 4)) n
     = map_option (sym_ptr si) (spec_chain_walk (gnu_view_of m si) name h n)"
proof (cases "spec_chain_walk (gnu_view_of m si) name h n")
  case None
  show ?thesis
  proof (cases "gnu_chain_walk m si name h (gnu_chain_addr m si) (read_u32 m (si_gnu_hash si + 4)) n")
    case N2: None
    then show ?thesis using None by simp
  next
    case (Some r)
    from walk_code_to_spec[OF Some] None show ?thesis by simp
  qed
next
  case (Some q)
  from walk_spec_to_code[OF Some, of m si] show ?thesis using Some by simp
qed

text \<open>
  Claim C3. When a module has a GNU hash table, \<open>gnu_lookup\<close> follows the specified
  algorithm: the hash \<open>h = 5381\<close>, \<open>h = h * 33 + c\<close>; the bloom word
  \<open>bloom[(h / 64) mod bloom_size]\<close> must hold the bits \<open>h mod 64\<close> and
  \<open>(h >> bloom_shift) mod 64\<close>, else absence; the walk starts at
  \<open>buckets[h mod nbuckets]\<close>, zero meaning absence, matches where
  \<open>(h ^ chain[n - symoffset]) >> 1 = 0\<close> and the names are equal, and ends at a chain
  entry with the low bit set. The table's header is taken to be well formed: the sizes
  by which the algorithm divides are not zero and the shift is below the width of the hash.
\<close>

theorem gnu_lookup_follows_spec:
  assumes "si_gnu_hash si \<noteq> 0"
    and "gv_bloom_size (gnu_view_of m si) \<noteq> 0"
    and "gv_nbuckets (gnu_view_of m si) \<noteq> 0"
    and "gv_bloom_shift (gnu_view_of m si) < 32"
  shows "gnu_lookup m si name
           = map_option (sym_ptr si) (spec_gnu_lookup (gnu_view_of m si) name)"
proof -
  let ?g = "si_gnu_hash si"
  have sel: "gv_bloom_size (gnu_view_of m si) = read_u32 m (?g + 8)"
    "gv_nbuckets (gnu_view_of m si) = read_u32 m ?g"
    "gv_bloom_shift (gnu_view_of m si) = read_u32 m (?g + 12)"
    "\<And>i. gv_bloom (gnu_view_of m si) i = read_u64 m (?g + 16 + 8 * ucast i)"
    "\<And>i. gv_buckets (gnu_view_of m si) i = read_u32 m (?g + 16 + 8 * ucast (read_u32 m (?g + 8)) + 4 * ucast i)"
    by (simp_all add: gnu_view_of_def Let_def)
  have ns: "\<not> (32 \<le> read_u32 m (?g + 12))"
    using assms(4) unfolding sel by simp
  show ?thesis
    using assms(1) assms(2,3)[unfolded sel] ns
    unfolding gnu_lookup_def spec_gnu_lookup_def Let_def sel gnu_hash_spec
    by (simp add: sym_ptr_simps gnu_chain_walk_spec[unfolded gnu_chain_addr_def])
qed


theorem gnu_lookup_follows_spec_witness:
  "si_gnu_hash ex_si \<noteq> 0
   \<and> gv_bloom_size (gnu_view_of ex_mem ex_si) \<noteq> 0
   \<and> gv_nbuckets (gnu_view_of ex_mem ex_si) \<noteq> 0
   \<and> gv_bloom_shift (gnu_view_of ex_mem ex_si) < 32
   \<and> gnu_lookup ex_mem ex_si ''f''
       = map_option (sym_ptr ex_si) (spec_gnu_lookup (gnu_view_of ex_mem ex_si) ''f'')
   \<and> gnu_lookup ex_mem ex_si ''f'' = Some 0x10118"
proof -
  have h1: "si_gnu_hash ex_si \<noteq> 0" by (simp add: ex_defs)
  have h2: "gv_bloom_size (gnu_view_of ex_mem ex_si) \<noteq> 0"
    by (simp add: gnu_view_of_def Let_def ex_defs read_defs)
  have h3: "gv_nbuckets (gnu_view_of ex_mem ex_si) \<noteq> 0"
    by (simp add: gnu_view_of_def Let_def ex_defs read_defs)
  have h4: "gv_bloom_shift (gnu_view_of ex_mem ex_si) < 32"
    by (simp add: gnu_view_of_def Let_def ex_defs read_defs)
  have v: "gnu_lookup ex_mem ex_si ''f'' = Some 0x10118"
    by (simp add: gnu_lookup_def gnu_hash_def gnu_chain_walk.simps ex_defs read_defs)
  from gnu_lookup_follows_spec [OF h1 h2 h3 h4, of "''f''"] h1 h2 h3 h4 v
  show ?thesis by simp
qed

subsection \<open>Lookup in one module\<close>

lemma linear_scan_find:
  "linear_scan m si name idx =
     map_option (\<lambda>i. si_load_bias si + st_value m (sym_at si i))
       (find (linear_match m si name) idx)"
  by (induction idx) (simp_all add: Let_def linear_match_def sym_defines_def sym_at_def)

lemma ucast_sym_at: "si_symtab si + 24 * ucast (k :: 32 word) = sym_at si (unat k)"
  by (simp add: sym_at_def)

lemma unat32_bound: "unat (k :: 32 word) < 2 ^ 32"
  using unsigned_less [of k, where ?'a = nat] by simp

lemma elf_chain_walk_sound:
  assumes "elf_chain_walk m si name chain i = Some r"
  shows "\<forall>a. r = Some a \<longrightarrow>
     (\<exists>k < 2 ^ 32. sym_defines m si name (sym_at si k) \<and> a = si_load_bias si + st_value m (sym_at si k))"
proof (rule elf_chain_walk.raw_induct [where P = "\<lambda>m si name chain i r. \<forall>a. r = Some a \<longrightarrow>
     (\<exists>k < 2 ^ 32. sym_defines m si name (sym_at si k) \<and> a = si_load_bias si + st_value m (sym_at si k))",
     OF _ assms])
  fix ew :: "memory \<Rightarrow> soinfo \<Rightarrow> string \<Rightarrow> addr \<Rightarrow> 32 word \<Rightarrow> addr option option"
    and m :: memory and si :: soinfo and name :: string and chain :: addr and i :: "32 word"
    and r :: "addr option"
  assume IH: "\<And>m si name chain i r. ew m si name chain i = Some r \<Longrightarrow> \<forall>a. r = Some a \<longrightarrow>
     (\<exists>k < 2 ^ 32. sym_defines m si name (sym_at si k) \<and> a = si_load_bias si + st_value m (sym_at si k))"
  assume body: "(if i = 0 then Some None
        else let symb = si_symtab si + 24 * ucast i
             in if strcmp_eq m (si_strtab si + ucast (st_name m symb)) name \<and>
                   st_shndx m symb \<noteq> SHN_UNDEF \<and> sym_exported m symb
                then Some (Some (si_load_bias si + st_value m symb))
                else ew m si name chain (read_u32 m (chain + 4 * ucast i))) = Some r"
  show "\<forall>a. r = Some a \<longrightarrow>
     (\<exists>k < 2 ^ 32. sym_defines m si name (sym_at si k) \<and> a = si_load_bias si + st_value m (sym_at si k))"
  proof (cases "i = 0")
    case True
    then show ?thesis using body by simp
  next
    case False
    show ?thesis
    proof (cases "sym_defines m si name (sym_at si (unat i))")
      case True
      then have "r = Some (si_load_bias si + st_value m (sym_at si (unat i)))"
        using body False by (auto simp: Let_def ucast_sym_at sym_defines_def split: if_splits)
      then show ?thesis using True unat32_bound [of i] by blast
    next
      case F2: False
      then have "ew m si name chain (read_u32 m (chain + 4 * ucast i)) = Some r"
        using body False by (auto simp: Let_def ucast_sym_at sym_defines_def split: if_splits)
      then show ?thesis by (rule IH)
    qed
  qed
qed

lemma gnu_chain_walk_sound:
  assumes "gnu_chain_walk m si name h chain so n = Some symb"
  shows "symb \<noteq> 0 \<longrightarrow>
     (\<exists>k < 2 ^ 32. symb = sym_at si k \<and> strcmp_eq m (si_strtab si + ucast (st_name m symb)) name)"
proof (rule gnu_chain_walk.raw_induct [where P = "\<lambda>m si name h chain so n symb. symb \<noteq> 0 \<longrightarrow>
     (\<exists>k < 2 ^ 32. symb = sym_at si k \<and> strcmp_eq m (si_strtab si + ucast (st_name m symb)) name)",
     OF _ assms])
  fix gw :: "memory \<Rightarrow> soinfo \<Rightarrow> string \<Rightarrow> 32 word \<Rightarrow> addr \<Rightarrow> 32 word \<Rightarrow> 32 word \<Rightarrow> addr option"
    and m :: memory and si :: soinfo and name :: string and h :: "32 word" and chain :: addr
    and so :: "32 word" and n :: "32 word" and symb :: addr
  assume IH: "\<And>m si name h chain so n symb. gw m si name h chain so n = Some symb \<Longrightarrow>
     symb \<noteq> 0 \<longrightarrow>
     (\<exists>k < 2 ^ 32. symb = sym_at si k \<and> strcmp_eq m (si_strtab si + ucast (st_name m symb)) name)"
  assume body: "(let symb = si_symtab si + 24 * ucast n;
            h2 = read_u32 m (chain + 4 * ucast (n - so))
        in if drop_bit 1 (h XOR h2) = 0 \<and>
              strcmp_eq m (si_strtab si + ucast (st_name m symb)) name
           then Some symb
           else if h2 AND 1 \<noteq> 0 then Some 0
                else gw m si name h chain so (n + 1)) = Some symb"
  let ?c = "read_u32 m (chain + 4 * ucast (n - so))"
  let ?s = "sym_at si (unat n)"
  have body': "(if drop_bit 1 (h XOR ?c) = 0 \<and> strcmp_eq m (si_strtab si + ucast (st_name m ?s)) name
           then Some ?s
           else if ?c AND 1 \<noteq> 0 then Some 0
                else gw m si name h chain so (n + 1)) = Some symb"
    using body by (simp only: Let_def ucast_sym_at)
  show "symb \<noteq> 0 \<longrightarrow>
     (\<exists>k < 2 ^ 32. symb = sym_at si k \<and> strcmp_eq m (si_strtab si + ucast (st_name m symb)) name)"
  proof (cases "drop_bit 1 (h XOR ?c) = 0 \<and> strcmp_eq m (si_strtab si + ucast (st_name m ?s)) name")
    case True
    then have "symb = ?s" using body' by (auto split: if_splits)
    then show ?thesis using True unat32_bound [of n] by blast
  next
    case False
    show ?thesis
    proof (cases "?c AND 1 \<noteq> 0")
      case True
      then have "symb = 0" using body' False by (auto split: if_splits)
      then show ?thesis by simp
    next
      case F2: False
      then have "gw m si name h chain so (n + 1) = Some symb"
        using body' False by (auto split: if_splits)
      then show ?thesis by (rule IH)
    qed
  qed
qed

lemma gnu_lookup_sound:
  assumes "gnu_lookup m si name = Some symb" and "symb \<noteq> 0"
  shows "\<exists>k < 2 ^ 32. symb = sym_at si k \<and> strcmp_eq m (si_strtab si + ucast (st_name m symb)) name"
proof -
  from assms obtain h chain so n where "gnu_chain_walk m si name h chain so n = Some symb"
    unfolding gnu_lookup_def Let_def by (auto split: if_splits)
  from gnu_chain_walk_sound [OF this] assms(2) show ?thesis by blast
qed

lemma find_symbol_linear_eq:
  "find_symbol_linear m si name =
     (if si_hash si = 0 \<and> si_gnu_hash si = 0
      then Some (case find (linear_match m si name) [0 ..< 256] of
                   None \<Rightarrow> 0
                 | Some i \<Rightarrow> si_load_bias si + st_value m (sym_at si i))
      else Some 0)"
  by (simp add: find_symbol_linear_def get_symbol_count_def linear_scan_find split: option.splits)

lemma find_symbol_linear_sound:
  assumes "find_symbol_linear m si name = Some a" and "a \<noteq> 0"
  shows "\<exists>k < 2 ^ 32. sym_defines m si name (sym_at si k) \<and> a = si_load_bias si + st_value m (sym_at si k)"
proof -
  from assms obtain i where f: "find (linear_match m si name) [0 ..< 256] = Some i"
    and a: "a = si_load_bias si + st_value m (sym_at si i)"
    unfolding find_symbol_linear_eq by (auto split: if_splits option.splits)
  from f have "linear_match m si name i" by (auto simp: find_Some_iff)
  moreover from f have "i \<in> set [0 ..< 256]" by (auto simp: find_Some_iff)
  then have "i < 2 ^ 32" by simp
  ultimately show ?thesis using a unfolding linear_match_def by blast
qed

lemma find_symbol_elf_sound:
  assumes "find_symbol_elf m si name = Some a" and "a \<noteq> 0"
  shows "\<exists>k < 2 ^ 32. sym_defines m si name (sym_at si k) \<and> a = si_load_bias si + st_value m (sym_at si k)"
proof (cases "si_hash si \<noteq> 0")
  case False
  then have "find_symbol_linear m si name = Some a" using assms(1) by (simp add: find_symbol_elf_def)
  then show ?thesis using assms(2) by (rule find_symbol_linear_sound)
next
  case True
  let ?nb = "read_u32 m (si_hash si)"
  let ?walk = "elf_chain_walk m si name (si_hash si + 4 * ucast (2 + ?nb))
                 (read_u32 m (si_hash si + 8 + 4 * ucast (elf_hash name mod ?nb)))"
  have e: "(if ?nb = 0 then None
            else case ?walk of None \<Rightarrow> None | Some (Some a) \<Rightarrow> Some a
                 | Some None \<Rightarrow> find_symbol_linear m si name) = Some a"
    using assms(1) True by (simp add: find_symbol_elf_def Let_def)
  then obtain r where r: "?walk = Some r"
    by (cases ?walk) (auto split: if_splits)
  show ?thesis
  proof (cases r)
    case None
    then have "find_symbol_linear m si name = Some a" using e r by (auto split: if_splits)
    then show ?thesis using assms(2) by (rule find_symbol_linear_sound)
  next
    case (Some b)
    then have "b = a" using e r by (auto split: if_splits)
    with elf_chain_walk_sound [OF r] Some show ?thesis by blast
  qed
qed

lemma find_symbol_in_sound:
  assumes "find_symbol_in m si name = Some a" and "a \<noteq> 0"
  shows "\<exists>k < 2 ^ 32. sym_defines m si name (sym_at si k) \<and> a = si_load_bias si + st_value m (sym_at si k)"
proof -
  have nz: "\<not> (si_symtab si = 0 \<or> si_strtab si = 0)"
    using assms by (auto simp: find_symbol_in_def)
  show ?thesis
  proof (cases "si_gnu_hash si \<noteq> 0")
    case False
    then have "find_symbol_elf m si name = Some a"
      using assms(1) nz by (simp add: find_symbol_in_def)
    then show ?thesis using assms(2) by (rule find_symbol_elf_sound)
  next
    case True
    then obtain symb where g: "gnu_lookup m si name = Some symb"
      using assms(1) nz by (cases "gnu_lookup m si name") (auto simp: find_symbol_in_def)
    show ?thesis
    proof (cases "symb \<noteq> 0 \<and> st_shndx m symb \<noteq> SHN_UNDEF \<and> sym_exported m symb")
      case F: False
      then have "find_symbol_elf m si name = Some a"
        using assms(1) nz True g by (auto simp: find_symbol_in_def)
      then show ?thesis using assms(2) by (rule find_symbol_elf_sound)
    next
      case T: True
      then have a: "a = si_load_bias si + st_value m symb"
        using assms(1) nz True g by (auto simp: find_symbol_in_def)
      from gnu_lookup_sound [OF g] T obtain k where
        "k < 2 ^ 32" "symb = sym_at si k"
        "strcmp_eq m (si_strtab si + ucast (st_name m symb)) name" by blast
      then show ?thesis using T a unfolding sym_defines_def by blast
    qed
  qed
qed



lemma block_miss:
  fixes a b :: addr
  assumes "a < b" and "unat b + n \<le> 2 ^ 64"
  shows "\<not> unat (a - b) < n"
proof -
  have "unat a < unat b" using assms(1) by (simp add: word_less_nat_alt)
  then have "unat (a - b) = 2 ^ 64 + unat a - unat b"
    by (simp add: unat_sub_if')
  then show ?thesis using assms(2) by simp
qed

lemma low_addr:
  fixes i k :: nat
  assumes "i < 256" "k < 4"
  shows "unat (0x20000 + 24 * of_nat i + of_nat k :: addr) = 0x20000 + 24 * i + k"
proof -
  have "unat (0x20000 + 24 * of_nat i + of_nat k :: addr) = unat (of_nat (0x20000 + 24 * i + k) :: addr)"
    by simp
  also have "\<dots> = 0x20000 + 24 * i + k"
    using assms by (simp only: unat_of_nat) simp
  finally show ?thesis .
qed

lemma big_mem_low:
  assumes "i < 256" "k < 4"
  shows "big_mem (0x20000 + 24 * of_nat i + of_nat k) = 0"
proof -
  define a :: addr where "a = 0x20000 + 24 * of_nat i + of_nat k"
  have u: "unat a = 0x20000 + 24 * i + k" unfolding a_def using assms by (rule low_addr)
  have lt1: "a < 0x21800" using assms unfolding word_less_nat_alt u by simp
  have lt2: "a < 0x30000" using assms unfolding word_less_nat_alt u by simp
  have m1: "\<not> unat (a - 0x21800) < length (elf_sym 1 0x12 1 0x500)"
    by (rule block_miss [OF lt1]) (simp add: elf_sym_def le16_def le32_def le64_def)
  have m2: "\<not> unat (a - 0x30000) < length [0, 102, 0 :: 8 word]"
    by (rule block_miss [OF lt2]) simp
  have "big_mem a = 0"
    unfolding big_mem_def by (simp only: mem_of.simps m1 m2 if_False)
  then show ?thesis unfolding a_def .
qed

lemma big_name0:
  assumes "i < 256"
  shows "st_name big_mem (si_symtab big_si + 24 * of_nat i) = 0"
proof -
  have b: "\<And>k. k < 4 \<Longrightarrow> big_mem (0x20000 + 24 * of_nat i + of_nat k) = 0"
    using assms by (rule big_mem_low)
  have "big_mem (0x20000 + 24 * of_nat i) = 0" using b [of 0] by simp
  moreover have "big_mem (0x20000 + 24 * of_nat i + 1) = 0" using b [of 1] by simp
  moreover have "big_mem (0x20000 + 24 * of_nat i + 1 + 2) = 0" using b [of 3] by (simp add: add.assoc)
  moreover have "big_mem (0x20000 + 24 * of_nat i + 2) = 0" using b [of 2] by simp
  moreover have "si_symtab big_si = 0x20000" by (simp add: big_si_def soinfo_zero_def)
  ultimately show ?thesis
    by (simp only: read_defs) simp
qed


lemma big_no_match: "find (linear_match big_mem big_si ''f'') [0 ..< 256] = None"
  by (simp add: find_None_iff linear_match_def sym_at_def big_name0)

lemma elf_walk_found:
  "find (\<lambda>i. sym_defines m si name (sym_at si i)) (elf_chain_from m chain n i) = Some j \<Longrightarrow>
   elf_chain_walk m si name chain i = Some (Some (si_load_bias si + st_value m (sym_at si j)))"
proof (induction n arbitrary: i)
  case 0
  then show ?case by simp
next
  case (Suc n)
  then have nz: "i \<noteq> 0" by (auto split: if_splits)
  show ?case
  proof (cases "sym_defines m si name (sym_at si (unat i))")
    case True
    then have "j = unat i" using Suc.prems nz by simp
    then show ?thesis using True nz
      by (subst elf_chain_walk.simps) (simp add: Let_def ucast_sym_at sym_defines_def)
  next
    case False
    then have "find (\<lambda>i. sym_defines m si name (sym_at si i))
        (elf_chain_from m chain n (read_u32 m (chain + 4 * ucast i))) = Some j"
      using Suc.prems nz by simp
    from Suc.IH [OF this] False nz show ?thesis
      by (subst elf_chain_walk.simps) (auto simp: Let_def ucast_sym_at sym_defines_def)
  qed
qed

lemma elf_walk_none:
  "elf_chain_ends m chain n i \<Longrightarrow>
   find (\<lambda>i. sym_defines m si name (sym_at si i)) (elf_chain_from m chain n i) = None \<Longrightarrow>
   elf_chain_walk m si name chain i = Some None"
proof (induction n arbitrary: i)
  case 0
  then show ?case by (subst elf_chain_walk.simps) simp
next
  case (Suc n)
  show ?case
  proof (cases "i = 0")
    case True
    then show ?thesis by (subst elf_chain_walk.simps) simp
  next
    case False
    then have nd: "\<not> sym_defines m si name (sym_at si (unat i))"
      and f: "find (\<lambda>i. sym_defines m si name (sym_at si i))
        (elf_chain_from m chain n (read_u32 m (chain + 4 * ucast i))) = None"
      using Suc.prems(2) by (auto split: if_splits)
    have e: "elf_chain_ends m chain n (read_u32 m (chain + 4 * ucast i))"
      using Suc.prems(1) False by simp
    from Suc.IH [OF e f] nd False show ?thesis
      by (subst elf_chain_walk.simps) (auto simp: Let_def ucast_sym_at sym_defines_def)
  qed
qed

lemma find_in_misses:
  assumes "si_symtab si \<noteq> 0" and "si_strtab si \<noteq> 0" and "gnu_misses m si name"
  shows "find_symbol_in m si name = find_symbol_elf m si name"
  using assms by (auto simp: find_symbol_in_def gnu_misses_def split: option.splits)

lemma find_elf_chain_found:
  assumes "si_hash si \<noteq> 0" and "read_u32 m (si_hash si) \<noteq> 0"
    and "find (\<lambda>i. sym_defines m si name (sym_at si i)) (elf_bucket_chain m si name n) = Some j"
  shows "find_symbol_elf m si name = Some (si_load_bias si + st_value m (sym_at si j))"
  using assms elf_walk_found [of m si name _ n _ j]
  by (simp add: find_symbol_elf_def elf_bucket_chain_def Let_def)

lemma find_elf_chain_none:
  assumes "si_hash si \<noteq> 0" and "read_u32 m (si_hash si) \<noteq> 0"
    and "elf_bucket_chain_ends m si name n"
    and "find (\<lambda>i. sym_defines m si name (sym_at si i)) (elf_bucket_chain m si name n) = None"
  shows "find_symbol_elf m si name = Some 0"
  using assms elf_walk_none [of m _ n _ si name]
  by (simp add: find_symbol_elf_def elf_bucket_chain_def elf_bucket_chain_ends_def Let_def
      find_symbol_linear_def)

lemmas hid_defs = hid_mem_def ex_si_def soinfo_zero_def le16_def le32_def le64_def elf_sym_def

lemma hid_defines_g:
  assumes "si_symtab s = 0x10100" and "si_strtab s = 0x10200"
  shows "sym_defines hid_mem s ''g'' (sym_at s 2)"
  using assms
  by (simp add: sym_defines_def sym_at_def sym_exported_def ELF64_ST_BIND_def
      STB_GLOBAL_def STB_WEAK_def SHN_UNDEF_def hid_defs read_defs)

lemma gnu_hash_g: "gnu_hash ''g'' = 177676"
  by (simp add: gnu_hash_def)

lemma hid_gnu_g: "gnu_lookup hid_mem (ex_si\<lparr> si_hash := x \<rparr>) ''g'' = Some 0"
  by (simp add: gnu_lookup_def gnu_hash_g gnu_chain_walk.simps hid_defs read_defs)

lemma hid_elf_hash: "elf_hash ''f'' = 102" "elf_hash ''g'' = 103"
  by (simp_all add: elf_hash_def Let_def)

lemma hid_elf_g: "find_symbol_elf hid_mem (ex_si\<lparr> si_gnu_hash := x \<rparr>) ''g'' = Some 0"
  by (simp add: find_symbol_elf_def find_symbol_linear_def Let_def hid_elf_hash
      elf_chain_walk.simps [of _ _ _ _ 1] elf_chain_walk.simps [of _ _ _ _ 0]
      sym_exported_def ELF64_ST_BIND_def STB_GLOBAL_def STB_WEAK_def SHN_UNDEF_def
      hid_defs read_defs)

lemma hid_lookups:
  "linker_find_symbol (hid_world ex_si) 0x7000 ''g'' = Some 0"
  "linker_find_symbol (hid_world (ex_si\<lparr> si_hash := 0 \<rparr>)) 0x7000 ''g'' = Some 0"
  "linker_find_symbol (hid_world (ex_si\<lparr> si_gnu_hash := 0 \<rparr>)) 0x7000 ''g'' = Some 0"
proof -
  have 1: "find_symbol_elf hid_mem ex_si ''g'' = Some 0"
    using hid_elf_g [of "si_gnu_hash ex_si"] by simp
  have g: "gnu_lookup hid_mem ex_si ''g'' = Some 0"
    using hid_gnu_g [of "si_hash ex_si"] by simp
  show "linker_find_symbol (hid_world ex_si) 0x7000 ''g'' = Some 0"
    by (simp add: linker_find_symbol_def hid_world_def find_symbol_in_def g 1)
  show "linker_find_symbol (hid_world (ex_si\<lparr> si_hash := 0 \<rparr>)) 0x7000 ''g'' = Some 0"
    by (simp add: linker_find_symbol_def hid_world_def find_symbol_in_def hid_gnu_g
        find_symbol_elf_def find_symbol_linear_def)
      (simp add: ex_si_def soinfo_zero_def)
  show "linker_find_symbol (hid_world (ex_si\<lparr> si_gnu_hash := 0 \<rparr>)) 0x7000 ''g'' = Some 0"
    by (simp add: linker_find_symbol_def hid_world_def find_symbol_in_def hid_elf_g)
qed


lemma hid_chain:
  "elf_bucket_chain hid_mem (ex_si\<lparr> si_gnu_hash := x \<rparr>) ''f'' 1 = [1]"
  "elf_bucket_chain hid_mem (ex_si\<lparr> si_gnu_hash := x \<rparr>) ''g'' 1 = [1]"
  "elf_bucket_chain_ends hid_mem (ex_si\<lparr> si_gnu_hash := x \<rparr>) ''g'' 1"
  "read_u32 hid_mem (si_hash (ex_si\<lparr> si_gnu_hash := x \<rparr>)) \<noteq> 0"
  by (simp_all add: elf_bucket_chain_def elf_bucket_chain_ends_def Let_def hid_elf_hash
      hid_defs read_defs)

lemma hid_entry1:
  "sym_defines hid_mem (ex_si\<lparr> si_gnu_hash := x \<rparr>) ''f'' (sym_at (ex_si\<lparr> si_gnu_hash := x \<rparr>) 1)"
  "\<not> sym_defines hid_mem (ex_si\<lparr> si_gnu_hash := x \<rparr>) ''g'' (sym_at (ex_si\<lparr> si_gnu_hash := x \<rparr>) 1)"
  "st_value hid_mem (sym_at (ex_si\<lparr> si_gnu_hash := x \<rparr>) 1) = 0x500"
  by (simp_all add: sym_defines_def sym_at_def sym_exported_def ELF64_ST_BIND_def
      STB_GLOBAL_def STB_WEAK_def SHN_UNDEF_def hid_defs read_defs)

lemma upt_256: "[0 ..< 256] = 0 # 1 # 2 # [3 ..< 256]"
  by (simp add: upt_conv_Cons)

lemma hid_linear:
  "find (linear_match hid_mem (ex_si\<lparr> si_gnu_hash := 0, si_hash := 0 \<rparr>) ''g'') [0 ..< 256] = Some 2"
  "st_value hid_mem (sym_at (ex_si\<lparr> si_gnu_hash := 0, si_hash := 0 \<rparr>) 2) = 0x600"
  by (simp_all add: upt_256 linear_match_def sym_defines_def sym_at_def sym_exported_def
      ELF64_ST_BIND_def STB_GLOBAL_def STB_WEAK_def SHN_UNDEF_def hid_defs read_defs)

text \<open>
  Claim C4, as stated, fails in every kind of module. Entry 256 of the symbol table of
  the module \<open>big_si\<close>, which has no hash table, defines \<open>f\<close>, and the lookup of \<open>f\<close>
  returns \<open>NULL\<close>, because the linear scan stops after 256 entries. Entry 2 of the
  symbol table under \<open>hid_mem\<close> defines \<open>g\<close>, and the lookup of \<open>g\<close> returns \<open>NULL\<close>
  in the module with both hash tables, with the GNU hash table only and with the ELF
  hash table only, because the lookup visits only the entries that the hash tables link.
\<close>

theorem linker_find_symbol_converse_counterexample:
  "sym_defines (mem big_world) big_si ''f'' (sym_at big_si 256)
   \<and> heap big_world 0x8000 = Some big_si
   \<and> linker_find_symbol big_world 0x8000 ''f'' = Some 0
   \<and> si_gnu_hash ex_si \<noteq> 0 \<and> si_hash ex_si \<noteq> 0
   \<and> sym_defines hid_mem ex_si ''g'' (sym_at ex_si 2)
   \<and> heap (hid_world ex_si) 0x7000 = Some ex_si
   \<and> linker_find_symbol (hid_world ex_si) 0x7000 ''g'' = Some 0
   \<and> sym_defines hid_mem (ex_si\<lparr> si_hash := 0 \<rparr>) ''g'' (sym_at (ex_si\<lparr> si_hash := 0 \<rparr>) 2)
   \<and> heap (hid_world (ex_si\<lparr> si_hash := 0 \<rparr>)) 0x7000 = Some (ex_si\<lparr> si_hash := 0 \<rparr>)
   \<and> linker_find_symbol (hid_world (ex_si\<lparr> si_hash := 0 \<rparr>)) 0x7000 ''g'' = Some 0
   \<and> sym_defines hid_mem (ex_si\<lparr> si_gnu_hash := 0 \<rparr>) ''g''
         (sym_at (ex_si\<lparr> si_gnu_hash := 0 \<rparr>) 2)
   \<and> heap (hid_world (ex_si\<lparr> si_gnu_hash := 0 \<rparr>)) 0x7000 = Some (ex_si\<lparr> si_gnu_hash := 0 \<rparr>)
   \<and> linker_find_symbol (hid_world (ex_si\<lparr> si_gnu_hash := 0 \<rparr>)) 0x7000 ''g'' = Some 0"
proof -
  have d: "sym_defines (mem big_world) big_si ''f'' (sym_at big_si 256)"
    by (simp add: big_world_def sym_defines_def sym_at_def sym_exported_def ELF64_ST_BIND_def
        STB_GLOBAL_def STB_WEAK_def SHN_UNDEF_def big_mem_def big_si_def soinfo_zero_def
        elf_sym_def le16_def le32_def le64_def read_defs)
  have h: "heap big_world 0x8000 = Some big_si" by (simp add: big_world_def)
  have m: "mem big_world = big_mem" by (simp add: big_world_def)
  have "find_symbol_in big_mem big_si ''f'' = Some 0"
    by (simp add: find_symbol_in_def find_symbol_elf_def find_symbol_linear_eq big_no_match)
       (simp add: big_si_def soinfo_zero_def)
  then have b: "linker_find_symbol big_world 0x8000 ''f'' = Some 0"
    using h m by (simp add: linker_find_symbol_def)
  have t: "si_gnu_hash ex_si \<noteq> 0" "si_hash ex_si \<noteq> 0"
    by (simp_all add: ex_si_def soinfo_zero_def)
  have s: "sym_defines hid_mem ex_si ''g'' (sym_at ex_si 2)"
    "sym_defines hid_mem (ex_si\<lparr> si_hash := 0 \<rparr>) ''g'' (sym_at (ex_si\<lparr> si_hash := 0 \<rparr>) 2)"
    "sym_defines hid_mem (ex_si\<lparr> si_gnu_hash := 0 \<rparr>) ''g''
         (sym_at (ex_si\<lparr> si_gnu_hash := 0 \<rparr>) 2)"
    by (rule hid_defines_g; simp add: ex_si_def soinfo_zero_def)+
  have hw: "\<And>s. heap (hid_world s) 0x7000 = Some s" by (simp add: hid_world_def)
  from d h b t s hw hid_lookups show ?thesis by simp
qed

text \<open>
  Claim C4, amended. \<open>linker_find_symbol\<close> returns an address that is not \<open>NULL\<close> only
  if some entry of the symbol table with an index below \<open>2^32\<close> has exactly that name,
  a section index other than \<open>SHN_UNDEF\<close> and a global or weak binding, and the
  address is then \<open>load_bias + st_value\<close> of that entry. The converse holds for the
  entries that the lookup visits. Without hash tables these are the first 256 entries:
  the answer is that of the first one among them that has a name offset other than zero
  and defines the name, and \<open>NULL\<close> when there is none. With a GNU hash table, when the
  GNU lookup returns an entry that is defined and global or weak, the answer is that of
  this entry. Otherwise, with an ELF hash table of at least one bucket, the answer is
  that of the first entry on the chain of the name's bucket that defines the name, and
  \<open>NULL\<close> when the chain ends without one; with no ELF hash table it is \<open>NULL\<close>.
  Absence is the null address, which is also the answer for a module without symbol or
  string table and for a \<open>NULL\<close> module.
\<close>

theorem linker_find_symbol_defined:
  assumes "h \<noteq> 0" and "heap w h = Some si"
  shows "(\<forall>a. linker_find_symbol w h name = Some a \<and> a \<noteq> 0 \<longrightarrow>
            (\<exists>i < 2 ^ 32. sym_defines (mem w) si name (sym_at si i)
                 \<and> a = si_load_bias si + st_value (mem w) (sym_at si i)))
       \<and> (si_symtab si \<noteq> 0 \<and> si_strtab si \<noteq> 0 \<and> si_hash si = 0 \<and> si_gnu_hash si = 0 \<longrightarrow>
            linker_find_symbol w h name =
              Some (case find (linear_match (mem w) si name) [0 ..< 256] of
                      None \<Rightarrow> 0
                    | Some i \<Rightarrow> si_load_bias si + st_value (mem w) (sym_at si i)))
       \<and> (si_symtab si \<noteq> 0 \<and> si_strtab si \<noteq> 0 \<and> si_gnu_hash si \<noteq> 0 \<longrightarrow>
            (\<forall>p. gnu_lookup (mem w) si name = Some p \<and> p \<noteq> 0
                  \<and> st_shndx (mem w) p \<noteq> SHN_UNDEF \<and> sym_exported (mem w) p \<longrightarrow>
                 linker_find_symbol w h name = Some (si_load_bias si + st_value (mem w) p)))
       \<and> (si_symtab si \<noteq> 0 \<and> si_strtab si \<noteq> 0 \<and> gnu_misses (mem w) si name
            \<and> si_hash si \<noteq> 0 \<and> read_u32 (mem w) (si_hash si) \<noteq> 0 \<longrightarrow>
            (\<forall>n j. find (\<lambda>i. sym_defines (mem w) si name (sym_at si i))
                        (elf_bucket_chain (mem w) si name n) = Some j \<longrightarrow>
                 linker_find_symbol w h name
                   = Some (si_load_bias si + st_value (mem w) (sym_at si j)))
          \<and> (\<forall>n. elf_bucket_chain_ends (mem w) si name n
                  \<and> find (\<lambda>i. sym_defines (mem w) si name (sym_at si i))
                        (elf_bucket_chain (mem w) si name n) = None \<longrightarrow>
                 linker_find_symbol w h name = Some 0))
       \<and> (si_symtab si \<noteq> 0 \<and> si_strtab si \<noteq> 0 \<and> gnu_misses (mem w) si name
            \<and> si_hash si = 0 \<and> si_gnu_hash si \<noteq> 0 \<longrightarrow>
            linker_find_symbol w h name = Some 0)
       \<and> (si_symtab si = 0 \<or> si_strtab si = 0 \<longrightarrow> linker_find_symbol w h name = Some 0)
       \<and> linker_find_symbol w 0 name = Some 0"
proof -
  have eq: "linker_find_symbol w h name = find_symbol_in (mem w) si name"
    using assms by (simp add: linker_find_symbol_def)
  have c1: "\<forall>a. linker_find_symbol w h name = Some a \<and> a \<noteq> 0 \<longrightarrow>
            (\<exists>i < 2 ^ 32. sym_defines (mem w) si name (sym_at si i)
                 \<and> a = si_load_bias si + st_value (mem w) (sym_at si i))"
    unfolding eq using find_symbol_in_sound by blast
  have c2: "si_symtab si \<noteq> 0 \<and> si_strtab si \<noteq> 0 \<and> si_hash si = 0 \<and> si_gnu_hash si = 0 \<longrightarrow>
            linker_find_symbol w h name =
              Some (case find (linear_match (mem w) si name) [0 ..< 256] of
                      None \<Rightarrow> 0
                    | Some i \<Rightarrow> si_load_bias si + st_value (mem w) (sym_at si i))"
    unfolding eq by (simp add: find_symbol_in_def find_symbol_elf_def find_symbol_linear_eq)
  have c3: "si_symtab si \<noteq> 0 \<and> si_strtab si \<noteq> 0 \<and> si_gnu_hash si \<noteq> 0 \<longrightarrow>
            (\<forall>p. gnu_lookup (mem w) si name = Some p \<and> p \<noteq> 0
                  \<and> st_shndx (mem w) p \<noteq> SHN_UNDEF \<and> sym_exported (mem w) p \<longrightarrow>
                 linker_find_symbol w h name = Some (si_load_bias si + st_value (mem w) p))"
    unfolding eq by (simp add: find_symbol_in_def)
  have c4: "si_symtab si \<noteq> 0 \<and> si_strtab si \<noteq> 0 \<and> gnu_misses (mem w) si name
            \<and> si_hash si \<noteq> 0 \<and> read_u32 (mem w) (si_hash si) \<noteq> 0 \<longrightarrow>
            (\<forall>n j. find (\<lambda>i. sym_defines (mem w) si name (sym_at si i))
                        (elf_bucket_chain (mem w) si name n) = Some j \<longrightarrow>
                 linker_find_symbol w h name
                   = Some (si_load_bias si + st_value (mem w) (sym_at si j)))
          \<and> (\<forall>n. elf_bucket_chain_ends (mem w) si name n
                  \<and> find (\<lambda>i. sym_defines (mem w) si name (sym_at si i))
                        (elf_bucket_chain (mem w) si name n) = None \<longrightarrow>
                 linker_find_symbol w h name = Some 0)"
    unfolding eq using find_in_misses find_elf_chain_found find_elf_chain_none by metis
  have c5: "si_symtab si \<noteq> 0 \<and> si_strtab si \<noteq> 0 \<and> gnu_misses (mem w) si name
            \<and> si_hash si = 0 \<and> si_gnu_hash si \<noteq> 0 \<longrightarrow>
            linker_find_symbol w h name = Some 0"
    unfolding eq using find_in_misses
    by (auto simp: find_symbol_elf_def find_symbol_linear_def)
  have c6: "si_symtab si = 0 \<or> si_strtab si = 0 \<longrightarrow> linker_find_symbol w h name = Some 0"
    unfolding eq by (simp add: find_symbol_in_def)
  have c7: "linker_find_symbol w 0 name = Some 0" by (simp add: linker_find_symbol_def)
  from c1 c2 c3 c4 c5 c6 c7 show ?thesis by blast
qed


theorem linker_find_symbol_defined_witness:
  "(0x7000 :: addr) \<noteq> 0 \<and> heap ex_world 0x7000 = Some ex_si
   \<and> gnu_lookup (mem ex_world) ex_si ''f'' = Some 0x10118
   \<and> linker_find_symbol ex_world 0x7000 ''f'' = Some 0x10500
   \<and> (\<exists>i < 2 ^ 32. sym_defines (mem ex_world) ex_si ''f'' (sym_at ex_si i)
          \<and> 0x10500 = si_load_bias ex_si + st_value (mem ex_world) (sym_at ex_si i))
   \<and> (0x8000 :: addr) \<noteq> 0 \<and> heap big_world 0x8000 = Some big_si
   \<and> si_symtab big_si \<noteq> 0 \<and> si_strtab big_si \<noteq> 0
   \<and> si_hash big_si = 0 \<and> si_gnu_hash big_si = 0
   \<and> linker_find_symbol big_world 0x8000 ''f'' =
        Some (case find (linear_match (mem big_world) big_si ''f'') [0 ..< 256] of
                None \<Rightarrow> 0
              | Some i \<Rightarrow> si_load_bias big_si + st_value (mem big_world) (sym_at big_si i))
   \<and> find (linear_match hid_mem (ex_si\<lparr> si_gnu_hash := 0, si_hash := 0 \<rparr>) ''g'') [0 ..< 256]
        = Some 2
   \<and> linker_find_symbol (hid_world (ex_si\<lparr> si_gnu_hash := 0, si_hash := 0 \<rparr>)) 0x7000 ''g''
        = Some 0x10600
   \<and> gnu_misses hid_mem (ex_si\<lparr> si_gnu_hash := 0 \<rparr>) ''f''
   \<and> find (\<lambda>i. sym_defines hid_mem (ex_si\<lparr> si_gnu_hash := 0 \<rparr>) ''f''
                  (sym_at (ex_si\<lparr> si_gnu_hash := 0 \<rparr>) i))
        (elf_bucket_chain hid_mem (ex_si\<lparr> si_gnu_hash := 0 \<rparr>) ''f'' 1) = Some 1
   \<and> linker_find_symbol (hid_world (ex_si\<lparr> si_gnu_hash := 0 \<rparr>)) 0x7000 ''f'' = Some 0x10500
   \<and> elf_bucket_chain_ends hid_mem (ex_si\<lparr> si_gnu_hash := 0 \<rparr>) ''g'' 1
   \<and> find (\<lambda>i. sym_defines hid_mem (ex_si\<lparr> si_gnu_hash := 0 \<rparr>) ''g''
                  (sym_at (ex_si\<lparr> si_gnu_hash := 0 \<rparr>) i))
        (elf_bucket_chain hid_mem (ex_si\<lparr> si_gnu_hash := 0 \<rparr>) ''g'' 1) = None
   \<and> linker_find_symbol (hid_world (ex_si\<lparr> si_gnu_hash := 0 \<rparr>)) 0x7000 ''g'' = Some 0
   \<and> gnu_misses hid_mem (ex_si\<lparr> si_hash := 0 \<rparr>) ''g''
   \<and> linker_find_symbol (hid_world (ex_si\<lparr> si_hash := 0 \<rparr>)) 0x7000 ''g'' = Some 0
   \<and> si_symtab soinfo_zero = 0
   \<and> linker_find_symbol (hid_world soinfo_zero) 0x7000 ''g'' = Some 0"
proof -
  have a1: "(0x7000 :: addr) \<noteq> 0" by simp
  have a2: "heap ex_world 0x7000 = Some ex_si" by (simp add: ex_world_def)
  have g: "gnu_lookup ex_mem ex_si ''f'' = Some 0x10118"
    by (simp add: gnu_lookup_def gnu_hash_def gnu_chain_walk.simps ex_defs read_defs)
  have gm: "gnu_lookup (mem ex_world) ex_si ''f'' = Some 0x10118"
    using g by (simp add: ex_world_def)
  have ge: "(0x10118 :: addr) \<noteq> 0" "st_shndx (mem ex_world) 0x10118 \<noteq> SHN_UNDEF"
    "sym_exported (mem ex_world) 0x10118" "st_value (mem ex_world) 0x10118 = 0x500"
    "si_symtab ex_si \<noteq> 0" "si_strtab ex_si \<noteq> 0" "si_gnu_hash ex_si \<noteq> 0"
    "si_load_bias ex_si = 0x10000"
    by (simp_all add: ex_world_def sym_exported_def ELF64_ST_BIND_def STB_GLOBAL_def STB_WEAK_def
        SHN_UNDEF_def ex_defs read_defs)
  note A = linker_find_symbol_defined [OF a1 a2, of "''f''"]
  from A gm ge have v: "linker_find_symbol ex_world 0x7000 ''f'' = Some 0x10500"
    by simp
  have nz: "(0x10500 :: addr) \<noteq> 0" by simp
  from A v nz have ex: "\<exists>i < 2 ^ 32. sym_defines (mem ex_world) ex_si ''f'' (sym_at ex_si i)
          \<and> 0x10500 = si_load_bias ex_si + st_value (mem ex_world) (sym_at ex_si i)"
    by blast
  have b1: "(0x8000 :: addr) \<noteq> 0" by simp
  have b2: "heap big_world 0x8000 = Some big_si" by (simp add: big_world_def)
  have b3: "si_symtab big_si \<noteq> 0" "si_strtab big_si \<noteq> 0" "si_hash big_si = 0"
    "si_gnu_hash big_si = 0"
    by (simp_all add: big_si_def soinfo_zero_def)
  note B = linker_find_symbol_defined [OF b1 b2, of "''f''"]
  from B b3 have bl: "linker_find_symbol big_world 0x8000 ''f'' =
        Some (case find (linear_match (mem big_world) big_si ''f'') [0 ..< 256] of
                None \<Rightarrow> 0
              | Some i \<Rightarrow> si_load_bias big_si + st_value (mem big_world) (sym_at big_si i))"
    by blast
  have hw: "\<And>s. heap (hid_world s) 0x7000 = Some s" "\<And>s. mem (hid_world s) = hid_mem"
    by (simp_all add: hid_world_def)
  have f: "si_symtab (ex_si\<lparr> si_gnu_hash := 0, si_hash := 0 \<rparr>) \<noteq> 0"
    "si_strtab (ex_si\<lparr> si_gnu_hash := 0, si_hash := 0 \<rparr>) \<noteq> 0"
    "si_load_bias (ex_si\<lparr> si_gnu_hash := 0, si_hash := 0 \<rparr>) = 0x10000"
    "si_symtab (ex_si\<lparr> si_gnu_hash := 0 \<rparr>) \<noteq> 0" "si_strtab (ex_si\<lparr> si_gnu_hash := 0 \<rparr>) \<noteq> 0"
    "si_hash (ex_si\<lparr> si_gnu_hash := 0 \<rparr>) \<noteq> 0"
    "si_load_bias (ex_si\<lparr> si_gnu_hash := 0 \<rparr>) = 0x10000"
    "si_symtab (ex_si\<lparr> si_hash := 0 \<rparr>) \<noteq> 0" "si_strtab (ex_si\<lparr> si_hash := 0 \<rparr>) \<noteq> 0"
    "si_gnu_hash (ex_si\<lparr> si_hash := 0 \<rparr>) \<noteq> 0"
    "si_symtab soinfo_zero = 0"
    by (simp_all add: ex_si_def soinfo_zero_def)
  note L = linker_find_symbol_defined [OF a1 hw(1) [of "ex_si\<lparr> si_gnu_hash := 0, si_hash := 0 \<rparr>"],
      of "''g''"]
  from L f hid_linear have lin: "linker_find_symbol
      (hid_world (ex_si\<lparr> si_gnu_hash := 0, si_hash := 0 \<rparr>)) 0x7000 ''g'' = Some 0x10600"
    by (simp add: hw)
  have m1: "gnu_misses hid_mem (ex_si\<lparr> si_gnu_hash := 0 \<rparr>) ''f''"
    "gnu_misses hid_mem (ex_si\<lparr> si_gnu_hash := 0 \<rparr>) ''g''"
    by (simp_all add: gnu_misses_def)
  have m2: "gnu_misses hid_mem (ex_si\<lparr> si_hash := 0 \<rparr>) ''g''"
    by (simp add: gnu_misses_def hid_gnu_g)
  have c1: "find (\<lambda>i. sym_defines hid_mem (ex_si\<lparr> si_gnu_hash := 0 \<rparr>) ''f''
                  (sym_at (ex_si\<lparr> si_gnu_hash := 0 \<rparr>) i))
        (elf_bucket_chain hid_mem (ex_si\<lparr> si_gnu_hash := 0 \<rparr>) ''f'' 1) = Some 1"
    by (simp only: hid_chain find.simps hid_entry1 if_True if_False)
  have c2: "find (\<lambda>i. sym_defines hid_mem (ex_si\<lparr> si_gnu_hash := 0 \<rparr>) ''g''
                  (sym_at (ex_si\<lparr> si_gnu_hash := 0 \<rparr>) i))
        (elf_bucket_chain hid_mem (ex_si\<lparr> si_gnu_hash := 0 \<rparr>) ''g'' 1) = None"
    by (simp only: hid_chain find.simps hid_entry1 if_True if_False)
  note E = linker_find_symbol_defined [OF a1 hw(1) [of "ex_si\<lparr> si_gnu_hash := 0 \<rparr>"]]
  from E [of "''f''"] f m1 c1 hid_chain(4) [of 0] hid_entry1(3) [of 0]
  have ef: "linker_find_symbol (hid_world (ex_si\<lparr> si_gnu_hash := 0 \<rparr>)) 0x7000 ''f'' = Some 0x10500"
    by (simp add: hw)
  from E [of "''g''"] f m1 c2 hid_chain(3,4) [of 0]
  have eg: "linker_find_symbol (hid_world (ex_si\<lparr> si_gnu_hash := 0 \<rparr>)) 0x7000 ''g'' = Some 0"
    by (simp add: hw) blast
  note G = linker_find_symbol_defined [OF a1 hw(1) [of "ex_si\<lparr> si_hash := 0 \<rparr>"], of "''g''"]
  from G f m2 have gg: "linker_find_symbol (hid_world (ex_si\<lparr> si_hash := 0 \<rparr>)) 0x7000 ''g'' = Some 0"
    by (simp add: hw)
  note Z = linker_find_symbol_defined [OF a1 hw(1) [of soinfo_zero], of "''g''"]
  from Z f have zz: "linker_find_symbol (hid_world soinfo_zero) 0x7000 ''g'' = Some 0"
    by simp
  from a1 a2 gm v ex b1 b2 b3 bl hid_linear(1) lin m1(1) c1 ef hid_chain(3) [of 0] c2 eg m2 gg
    f(11) zz
  show ?thesis by simp
qed

subsection \<open>Relocation\<close>














lemma do_reloc_returns_zero: "do_reloc e w si rela = Some (c, w') \<Longrightarrow> c = 0"
  by (auto simp: do_reloc_def Let_def split: option.splits)

lemma reloc_loop_seq:
  "reloc_loop e si table idx w =
     map_option (Pair 0) (reloc_seq e si (map (\<lambda>i. table + 24 * of_nat i) idx) w)"
proof (induction idx arbitrary: w)
  case Nil
  show ?case by simp
next
  case (Cons i idx)
  show ?case
  proof (cases "do_reloc e w si (table + 24 * of_nat i)")
    case None
    then show ?thesis by simp
  next
    case (Some r)
    obtain c w' where r: "r = (c, w')" by (cases r)
    with Some have "c = 0" by (auto dest: do_reloc_returns_zero)
    then show ?thesis using Some r Cons.IH [of w'] by simp
  qed
qed

lemma reloc_seq_append:
  "reloc_seq e si (xs @ ys) w =
     (case reloc_seq e si xs w of None \<Rightarrow> None | Some w1 \<Rightarrow> reloc_seq e si ys w1)"
  by (induction xs arbitrary: w) (auto split: option.splits)

lemma linker_relocate_seq:
  "linker_relocate e w si = map_option (Pair 0) (reloc_seq e si (reloc_entries si) w)"
  by (simp add: linker_relocate_def reloc_entries_def reloc_loop_seq reloc_seq_append
      split: option.splits)











lemma upt_0_2: "[0 ..< 2] = [0, Suc 0]"
  by (simp add: numeral_2_eq_2)









subsection \<open>The structure of a load\<close>

lemma emit_fields [simp]:
  "soinfo_list (emit ev w) = soinfo_list w" "heap (emit ev w) = heap w"
  "error_msg (emit ev w) = error_msg w" "has_error (emit ev w) = has_error w"
  "mem (emit ev w) = mem w" "trace (emit ev w) = trace w @ [ev]"
  by (simp_all add: emit_def)

lemma set_error_fields [simp]:
  "soinfo_list (linker_set_error msg w) = soinfo_list w" "heap (linker_set_error msg w) = heap w"
  "error_msg (linker_set_error msg w) = take 511 msg" "has_error (linker_set_error msg w)"
  "mem (linker_set_error msg w) = mem w" "trace (linker_set_error msg w) = trace w"
  by (simp_all add: linker_set_error_def)

lemma elf_close_fields [simp]:
  "soinfo_list (elf_close elf w) = soinfo_list w" "heap (elf_close elf w) = heap w"
  "error_msg (elf_close elf w) = error_msg w" "has_error (elf_close elf w) = has_error w"
  "mem (elf_close elf w) = mem w" "trace (elf_close elf w) = trace w @ elf_close_events elf"
  by (simp_all add: elf_close_def elf_close_events_def Let_def)

lemma load_error_fields [simp]:
  "soinfo_list (load_error fd h si elf w) = soinfo_list w"
  "heap (load_error fd h si elf w) = heap w"
  "error_msg (load_error fd h si elf w) = error_msg w"
  "has_error (load_error fd h si elf w) = has_error w"
  "mem (load_error fd h si elf w) = mem w"
  "trace (load_error fd h si elf w) = trace w @ load_error_events fd h si elf"
  by (simp_all add: load_error_def load_error_events_def Let_def)

lemma load_error_events_cong:
  "si_base si' = si_base si \<Longrightarrow> si_size si' = si_size si \<Longrightarrow>
   load_error_events fd h si' elf = load_error_events fd h si elf"
  by (simp add: load_error_events_def)

lemma elf_open_fields:
  assumes "elf_open e w path = (r, w1, elf)"
  shows "soinfo_list w1 = soinfo_list w" "heap w1 = heap w"
    "error_msg w1 = error_msg w" "has_error w1 = has_error w"
  using assms unfolding elf_open_def Let_def
  by (auto split: if_splits)

lemma elf_open_failed:
  assumes "elf_open e w path = (r, w1, elf)" and "r < 0"
  shows "\<exists>evs. trace w1 = trace w @ evs
           \<and> (evs = [] \<or> evs = [Ev_open (elf_fd e), Ev_close (elf_fd e)]
              \<or> evs = [Ev_open (elf_fd e),
                        Ev_mmap File_view (elf_map e) (of_nat (length (file_bytes e))) PROT_READ,
                        Ev_munmap (elf_map e) (of_nat (length (file_bytes e))),
                        Ev_close (elf_fd e)])"
  using assms unfolding elf_open_def Let_def
  by (auto split: if_splits)

lemma elf_open_ok:
  assumes "elf_open e w path = (r, w1, elf)" and "\<not> r < 0"
  shows "trace w1 = trace w @ [Ev_open (elf_fd e),
            Ev_mmap File_view (elf_map e) (of_nat (length (file_bytes e))) PROT_READ]"
    and "ef_fd elf = elf_fd e" and "0 \<le> elf_fd e" and "ef_map_start elf = elf_map e"
    and "elf_map e \<noteq> MAP_FAILED" and "ef_map_size elf = of_nat (length (file_bytes e))"
  using assms unfolding elf_open_def Let_def
  by (auto split: if_splits)


lemma map_segment_frame:
  assumes "map_segment e si elf i w = (ok, w')"
  shows "soinfo_list w' = soinfo_list w \<and> heap w' = heap w
       \<and> (ok \<longrightarrow> error_msg w' = error_msg w \<and> has_error w' = has_error w)
       \<and> (\<not> ok \<longrightarrow> has_error w')
       \<and> (\<exists>evs. trace w' = trace w @ evs \<and> (\<forall>ev \<in> set evs. is_segment_mmap ev))"
  using assms unfolding map_segment_def Let_def
  by (auto simp: is_segment_mmap_def split: if_splits)

lemma map_segments_frame:
  "map_segments e si elf i w = (ok, w') \<Longrightarrow>
     soinfo_list w' = soinfo_list w \<and> heap w' = heap w
       \<and> (ok \<longrightarrow> error_msg w' = error_msg w \<and> has_error w' = has_error w)
       \<and> (\<not> ok \<longrightarrow> has_error w')
       \<and> (\<exists>evs. trace w' = trace w @ evs \<and> (\<forall>ev \<in> set evs. is_segment_mmap ev))"
proof (induction e si elf i w rule: map_segments.induct)
  case (1 e si elf i w)
  show ?case
  proof (cases "i < unat (e_phnum (mem w) (ef_ehdr elf))")
    case False
    then show ?thesis using "1.prems" by (subst (asm) map_segments.simps) simp
  next
    case True
    show ?thesis
    proof (cases "p_type (mem w) (ef_phdr elf + 56 * of_nat i) \<noteq> PT_LOAD")
      case T2: True
      then have "map_segments e si elf (Suc i) w = (ok, w')"
        using "1.prems" True by (subst (asm) map_segments.simps) simp
      then show ?thesis using "1.IH"(1) [OF True T2] by simp
    next
      case F2: False
      obtain ok1 w1 where s: "map_segment e si elf i w = (ok1, w1)"
        by (cases "map_segment e si elf i w")
      note f1 = map_segment_frame [OF s]
      show ?thesis
      proof (cases ok1)
        case False
        then have "ok = False" "w' = w1"
          using "1.prems" True F2 s by (subst (asm) map_segments.simps, simp)+
        then show ?thesis using f1 False by simp
      next
        case T3: True
        then have r: "map_segments e si elf (Suc i) w1 = (ok, w')"
          using "1.prems" True F2 s by (subst (asm) map_segments.simps) simp
        have "fst (map_segment e si elf i w)" using s T3 by simp
        from "1.IH"(2) [OF True F2 this] r s
        have f2: "soinfo_list w' = soinfo_list w1 \<and> heap w' = heap w1
           \<and> (ok \<longrightarrow> error_msg w' = error_msg w1 \<and> has_error w' = has_error w1)
           \<and> (\<not> ok \<longrightarrow> has_error w')
           \<and> (\<exists>evs. trace w' = trace w1 @ evs \<and> (\<forall>ev \<in> set evs. is_segment_mmap ev))"
          by simp
        from f1 obtain evs1 where e1: "trace w1 = trace w @ evs1" "\<forall>ev \<in> set evs1. is_segment_mmap ev"
          by blast
        from f2 obtain evs2 where e2: "trace w' = trace w1 @ evs2" "\<forall>ev \<in> set evs2. is_segment_mmap ev"
          by blast
        have "trace w' = trace w @ (evs1 @ evs2)" using e1 e2 by simp
        moreover have "\<forall>ev \<in> set (evs1 @ evs2). is_segment_mmap ev" using e1 e2 by auto
        ultimately have "\<exists>evs. trace w' = trace w @ evs \<and> (\<forall>ev \<in> set evs. is_segment_mmap ev)"
          by blast
        then show ?thesis using f1 f2 T3 by simp
      qed
    qed
  qed
qed

lemma dyn_entry_keeps:
  "si_base (dyn_entry si t v) = si_base si" "si_size (dyn_entry si t v) = si_size si"
  "si_name (dyn_entry si t v) = si_name si"
  by (simp_all add: dyn_entry_def)

lemma dynamic_walk_keeps:
  assumes "dynamic_walk m si d = Some si'"
  shows "si_base si' = si_base si \<and> si_size si' = si_size si \<and> si_name si' = si_name si"
proof (rule dynamic_walk.raw_induct [where P = "\<lambda>m si d si'.
    si_base si' = si_base si \<and> si_size si' = si_size si \<and> si_name si' = si_name si", OF _ assms])
  fix dw :: "memory \<Rightarrow> soinfo \<Rightarrow> addr \<Rightarrow> soinfo option"
    and m :: memory and si :: soinfo and d :: addr and si' :: soinfo
  assume IH: "\<And>m si d si'. dw m si d = Some si' \<Longrightarrow>
    si_base si' = si_base si \<and> si_size si' = si_size si \<and> si_name si' = si_name si"
  assume body: "(if d_tag m d = DT_NULL then Some si
         else dw m (dyn_entry si (d_tag m d) (d_un m d)) (d + 16)) = Some si'"
  show "si_base si' = si_base si \<and> si_size si' = si_size si \<and> si_name si' = si_name si"
  proof (cases "d_tag m d = DT_NULL")
    case True
    then show ?thesis using body by simp
  next
    case False
    then have "dw m (dyn_entry si (d_tag m d) (d_un m d)) (d + 16) = Some si'"
      using body by simp
    from IH [OF this] show ?thesis by (simp add: dyn_entry_keeps)
  qed
qed

lemma parse_dynamic_frame:
  assumes "parse_dynamic w si = Some (r, w', si')"
  shows "si_base si' = si_base si \<and> si_size si' = si_size si \<and> si_name si' = si_name si
       \<and> soinfo_list w' = soinfo_list w \<and> heap w' = heap w \<and> trace w' = trace w
       \<and> (r < 0 \<longrightarrow> has_error w')
       \<and> (\<not> r < 0 \<longrightarrow> w' = w)"
proof (cases "si_dynamic si = 0")
  case True
  then show ?thesis using assms by (auto simp: parse_dynamic_def)
next
  case False
  then obtain s where s: "dynamic_walk (mem w) si (si_dynamic si) = Some s"
    using assms by (cases "dynamic_walk (mem w) si (si_dynamic si)") (auto simp: parse_dynamic_def)
  from dynamic_walk_keeps [OF s] assms False s show ?thesis
    by (auto simp: parse_dynamic_def split: if_splits)
qed

lemma do_reloc_frame:
  assumes "do_reloc e w si rela = Some (c, w')"
  shows "c = 0 \<and> soinfo_list w' = soinfo_list w \<and> heap w' = heap w
       \<and> error_msg w' = error_msg w \<and> has_error w' = has_error w \<and> trace w' = trace w"
  using assms by (auto simp: do_reloc_def Let_def split: option.splits if_splits)

lemma reloc_seq_frame:
  "reloc_seq e si rs w = Some w' \<Longrightarrow>
     soinfo_list w' = soinfo_list w \<and> heap w' = heap w
       \<and> error_msg w' = error_msg w \<and> has_error w' = has_error w \<and> trace w' = trace w"
proof (induction rs arbitrary: w)
  case Nil
  then show ?case by simp
next
  case (Cons r rs)
  then obtain c w1 where d: "do_reloc e w si r = Some (c, w1)" and s: "reloc_seq e si rs w1 = Some w'"
    by (auto split: option.splits)
  from do_reloc_frame [OF d] Cons.IH [OF s] show ?case by simp
qed

lemma linker_relocate_frame:
  assumes "linker_relocate e w si = Some (r, w')"
  shows "r = 0 \<and> soinfo_list w' = soinfo_list w \<and> heap w' = heap w
       \<and> error_msg w' = error_msg w \<and> has_error w' = has_error w \<and> trace w' = trace w"
proof -
  from assms obtain w2 where "reloc_seq e si (reloc_entries si) w = Some w2" "r = 0" "w' = w2"
    unfolding linker_relocate_seq by auto
  with reloc_seq_frame [of e si "reloc_entries si" w w2] show ?thesis by simp
qed


lemma load_phdr_fold_keeps:
  "si_base (fold (load_phdr_step m elf) idx si) = si_base si
   \<and> si_size (fold (load_phdr_step m elf) idx si) = si_size si
   \<and> si_name (fold (load_phdr_step m elf) idx si) = si_name si
   \<and> si_load_bias (fold (load_phdr_step m elf) idx si) = si_load_bias si"
  by (induction idx arbitrary: si) (simp_all add: load_phdr_step_def Let_def)

lemma load_link_cases:
  assumes "load_link e w h si elf = Some (r, w')"
  shows "(r = 0 \<and> soinfo_list w' = soinfo_list w \<and> heap w' = heap w \<and> has_error w'
          \<and> trace w' = trace w @ load_error_events (- 1) h si elf)
       \<or> (r = h \<and> soinfo_list w' = h # soinfo_list w
          \<and> (\<exists>si'. heap w' = (heap w)(h \<mapsto> si') \<and> si_ref_count si' = 1
                   \<and> si_base si' = si_base si \<and> si_size si' = si_size si
                   \<and> si_name si' = si_name si)
          \<and> error_msg w' = error_msg w \<and> has_error w' = has_error w
          \<and> trace w' = trace w @ Ev_register h # elf_close_events elf)"
proof -
  define si1 where "si1 = fold (load_phdr_step (mem w) elf)
                            [0 ..< unat (e_phnum (mem w) (ef_ehdr elf))] si"
  define si2 where "si2 = (if si_phdr si1 = 0
                 then si1\<lparr> si_phdr := si_load_bias si1 + e_phoff (mem w) (ef_ehdr elf) \<rparr> else si1)"
  have k2: "si_base si2 = si_base si \<and> si_size si2 = si_size si \<and> si_name si2 = si_name si"
    unfolding si2_def si1_def using load_phdr_fold_keeps [of "mem w" elf _ si] by simp
  have unf: "load_link e w h si elf =
     (case parse_dynamic w si2 of
           None \<Rightarrow> None
         | Some (r, w1, si3) \<Rightarrow>
             if r < 0 then Some (0, load_error (- 1) h si3 elf w1)
             else (case linker_relocate e w1 si3 of
                     None \<Rightarrow> None
                   | Some (r2, w2) \<Rightarrow>
                       if r2 < 0 then Some (0, load_error (- 1) h si3 elf w2)
                       else
                         Some (h, elf_close elf (emit (Ev_register h)
                                    (w2\<lparr> soinfo_list := h # soinfo_list w2,
                                         heap := (heap w2)(h \<mapsto> si3\<lparr> si_ref_count := 1 \<rparr>) \<rparr>)))))"
    unfolding load_link_def Let_def si2_def si1_def ..
  from assms unf obtain r1 w1 si3 where p: "parse_dynamic w si2 = Some (r1, w1, si3)"
    by (cases "parse_dynamic w si2") auto
  note pf = parse_dynamic_frame [OF p]
  have k3: "si_base si3 = si_base si" "si_size si3 = si_size si" "si_name si3 = si_name si"
    using pf k2 by simp_all
  have ev3: "load_error_events (- 1) h si3 elf = load_error_events (- 1) h si elf"
    using k3(1,2) by (rule load_error_events_cong)
  show ?thesis
  proof (cases "r1 < 0")
    case True
    then have "r = 0" "w' = load_error (- 1) h si3 elf w1"
      using assms unf p by auto
    then show ?thesis using pf True ev3 by simp
  next
    case False
    then have w1: "w1 = w" using pf by simp
    from assms unf p False obtain r2 w2 where l: "linker_relocate e w1 si3 = Some (r2, w2)"
      by (cases "linker_relocate e w1 si3") auto
    note lf = linker_relocate_frame [OF l]
    then have "r2 = 0" by simp
    then have "r = h"
      "w' = elf_close elf (emit (Ev_register h)
                (w2\<lparr> soinfo_list := h # soinfo_list w2,
                     heap := (heap w2)(h \<mapsto> si3\<lparr> si_ref_count := 1 \<rparr>) \<rparr>))"
      using assms unf p False l by auto
    then have "r = h \<and> soinfo_list w' = h # soinfo_list w
          \<and> heap w' = (heap w)(h \<mapsto> si3\<lparr> si_ref_count := 1 \<rparr>)
          \<and> error_msg w' = error_msg w \<and> has_error w' = has_error w
          \<and> trace w' = trace w @ Ev_register h # elf_close_events elf"
      using lf w1 by (simp add: emit_def)
    then show ?thesis using k3 by auto
  qed
qed


lemma load_map_cases:
  assumes "load_map e w h si elf = Some (r, w')" and "si_base si = 0"
  shows "(r = 0 \<and> soinfo_list w' = soinfo_list w \<and> heap w' = heap w \<and> has_error w'
          \<and> (\<exists>evs. trace w' = trace w @ evs @ [Ev_free h] @ elf_close_events elf
                    \<and> reservation_shape e evs))
       \<or> (r = h \<and> soinfo_list w' = h # soinfo_list w
          \<and> (\<exists>si'. heap w' = (heap w)(h \<mapsto> si') \<and> si_ref_count si' = 1
                   \<and> si_name si' = si_name si)
          \<and> error_msg w' = error_msg w \<and> has_error w' = has_error w
          \<and> (\<exists>n segs. trace w' = trace w @ [Ev_mmap Reservation (reserve_ptr e) n 0,
                                               Ev_open (seg_fd e)] @ segs
                                    @ [Ev_close (seg_fd e), Ev_register h] @ elf_close_events elf
                       \<and> (\<forall>ev \<in> set segs. is_segment_mmap ev)))"
    (is "?fail \<or> ?ok")
proof -
  define n where "n = calculate_load_size (mem w) (ef_phdr elf) (ucast (e_phnum (mem w) (ef_ehdr elf)))"
  define mv where "mv = PAGE_START (fold (min_vaddr_step (mem w) (ef_phdr elf))
                          [0 ..< unat (e_phnum (mem w) (ef_ehdr elf))] (- 1))"
  define si2 where "si2 = si\<lparr> si_size := n, si_base := reserve_ptr e \<rparr>"
  define si3 where "si3 = si2\<lparr> si_load_bias := reserve_ptr e - mv \<rparr>"
  define w1 where "w1 = emit (Ev_mmap Reservation (reserve_ptr e) n 0)
                           (w\<lparr> mem := map_anon (mem w) (reserve_ptr e) n \<rparr>)"
  define unmap where "unmap = (if reserve_ptr e \<noteq> 0 then [Ev_munmap (reserve_ptr e) n] else [])"
  have unf: "load_map e w h si elf =
     (if n = 0
      then Some (0, load_error (- 1) h si elf (linker_set_error ''No loadable segments'' w))
      else if reserve_ptr e = MAP_FAILED
      then Some (0, load_error (- 1) h si2 elf (linker_set_error ''mmap failed'' w))
      else if seg_fd e < 0
      then Some (0, load_error (seg_fd e) h si3 elf
                      (linker_set_error ''Failed to open file for mmap'' w1))
      else if \<not> fst (map_segments e si3 elf 0 (emit (Ev_open (seg_fd e)) w1))
      then Some (0, load_error (seg_fd e) h si3 elf
                      (snd (map_segments e si3 elf 0 (emit (Ev_open (seg_fd e)) w1))))
      else load_link e (emit (Ev_close (seg_fd e))
                          (snd (map_segments e si3 elf 0 (emit (Ev_open (seg_fd e)) w1))))
             h si3 elf)"
    unfolding load_map_def Let_def n_def mv_def si2_def si3_def w1_def by simp
  have w1f: "soinfo_list w1 = soinfo_list w" "heap w1 = heap w" "error_msg w1 = error_msg w"
    "has_error w1 = has_error w" "trace w1 = trace w @ [Ev_mmap Reservation (reserve_ptr e) n 0]"
    unfolding w1_def by simp_all
  have ev0: "load_error_events (- 1) h si elf = [Ev_free h] @ elf_close_events elf"
    using assms(2) by (simp add: load_error_events_def)
  show ?thesis
  proof (cases "n = 0")
    case True
    then have "r = 0" "w' = load_error (- 1) h si elf (linker_set_error ''No loadable segments'' w)"
      using assms(1) unf by auto
    then have "r = 0 \<and> soinfo_list w' = soinfo_list w \<and> heap w' = heap w \<and> has_error w'
          \<and> trace w' = trace w @ [] @ [Ev_free h] @ elf_close_events elf"
      using ev0 by simp
    moreover have "reservation_shape e []" by (simp add: reservation_shape_def)
    ultimately show ?thesis by blast
  next
    case n0: False
    show ?thesis
    proof (cases "reserve_ptr e = MAP_FAILED")
      case True
      then have "r = 0" "w' = load_error (- 1) h si2 elf (linker_set_error ''mmap failed'' w)"
        using assms(1) unf n0 by auto
      moreover have "load_error_events (- 1) h si2 elf = [Ev_free h] @ elf_close_events elf"
        using True by (simp add: load_error_events_def si2_def)
      ultimately have "r = 0 \<and> soinfo_list w' = soinfo_list w \<and> heap w' = heap w \<and> has_error w'
          \<and> trace w' = trace w @ [] @ [Ev_free h] @ elf_close_events elf"
        by simp
      moreover have "reservation_shape e []" by (simp add: reservation_shape_def)
      ultimately show ?thesis by blast
    next
      case mf: False
      have b3: "si_base si3 = reserve_ptr e" "si_size si3 = n" "si_name si3 = si_name si"
        by (simp_all add: si3_def si2_def)
      have ev3: "\<And>fd. load_error_events fd h si3 elf =
          (if 0 \<le> fd then [Ev_close fd] else []) @ unmap @ [Ev_free h] @ elf_close_events elf"
        using mf by (simp add: load_error_events_def b3 unmap_def)
      show ?thesis
      proof (cases "seg_fd e < 0")
        case True
        then have "r = 0" "w' = load_error (seg_fd e) h si3 elf
                      (linker_set_error ''Failed to open file for mmap'' w1)"
          using assms(1) unf n0 mf by auto
        then have "r = 0 \<and> soinfo_list w' = soinfo_list w \<and> heap w' = heap w \<and> has_error w'
          \<and> trace w' = trace w @ (Ev_mmap Reservation (reserve_ptr e) n 0 # [] @ unmap)
                          @ [Ev_free h] @ elf_close_events elf"
          using w1f ev3 True by simp
        moreover have "reservation_shape e (Ev_mmap Reservation (reserve_ptr e) n 0 # [] @ unmap)"
          unfolding reservation_shape_def unmap_def load_mid_def by auto
        ultimately show ?thesis by blast
      next
        case fd: False
        obtain ok ws where ms: "map_segments e si3 elf 0 (emit (Ev_open (seg_fd e)) w1) = (ok, ws)"
          by (cases "map_segments e si3 elf 0 (emit (Ev_open (seg_fd e)) w1)")
        from map_segments_frame [OF ms] obtain segs where
          wsf: "soinfo_list ws = soinfo_list w" "heap ws = heap w"
            "ok \<longrightarrow> error_msg ws = error_msg w \<and> has_error ws = has_error w"
            "\<not> ok \<longrightarrow> has_error ws"
            "trace ws = trace w @ Ev_mmap Reservation (reserve_ptr e) n 0 # Ev_open (seg_fd e) # segs"
            "\<forall>ev \<in> set segs. is_segment_mmap ev"
          using w1f by auto
        have mid: "load_mid e (Ev_open (seg_fd e) # segs @ [Ev_close (seg_fd e)])"
          using wsf(6) by (auto simp: load_mid_def)
        have shape: "reservation_shape e (Ev_mmap Reservation (reserve_ptr e) n 0
                        # (Ev_open (seg_fd e) # segs @ [Ev_close (seg_fd e)]) @ unmap)"
          unfolding reservation_shape_def unmap_def using mid by blast
        show ?thesis
        proof (cases ok)
          case False
          then have "r = 0" "w' = load_error (seg_fd e) h si3 elf ws"
            using assms(1) unf n0 mf fd ms by auto
          then have "r = 0 \<and> soinfo_list w' = soinfo_list w \<and> heap w' = heap w \<and> has_error w'
            \<and> trace w' = trace w @ (Ev_mmap Reservation (reserve_ptr e) n 0
                        # (Ev_open (seg_fd e) # segs @ [Ev_close (seg_fd e)]) @ unmap)
                          @ [Ev_free h] @ elf_close_events elf"
            using wsf ev3 fd False by simp
          with shape show ?thesis by blast
        next
          case True
          then have ll: "load_link e (emit (Ev_close (seg_fd e)) ws) h si3 elf = Some (r, w')"
            using assms(1) unf n0 mf fd ms by auto
          from load_link_cases [OF ll] show ?thesis
          proof
            assume "r = 0 \<and> soinfo_list w' = soinfo_list (emit (Ev_close (seg_fd e)) ws)
               \<and> heap w' = heap (emit (Ev_close (seg_fd e)) ws) \<and> has_error w'
               \<and> trace w' = trace (emit (Ev_close (seg_fd e)) ws) @ load_error_events (- 1) h si3 elf"
            then have "r = 0 \<and> soinfo_list w' = soinfo_list w \<and> heap w' = heap w \<and> has_error w'
              \<and> trace w' = trace w @ (Ev_mmap Reservation (reserve_ptr e) n 0
                        # (Ev_open (seg_fd e) # segs @ [Ev_close (seg_fd e)]) @ unmap)
                          @ [Ev_free h] @ elf_close_events elf"
              using wsf ev3 by simp
            with shape show ?thesis by blast
          next
            assume "r = h \<and> soinfo_list w' = h # soinfo_list (emit (Ev_close (seg_fd e)) ws)
              \<and> (\<exists>si'. heap w' = (heap (emit (Ev_close (seg_fd e)) ws))(h \<mapsto> si')
                   \<and> si_ref_count si' = 1
                   \<and> si_base si' = si_base si3 \<and> si_size si' = si_size si3
                   \<and> si_name si' = si_name si3)
              \<and> error_msg w' = error_msg (emit (Ev_close (seg_fd e)) ws)
              \<and> has_error w' = has_error (emit (Ev_close (seg_fd e)) ws)
              \<and> trace w' = trace (emit (Ev_close (seg_fd e)) ws) @ Ev_register h # elf_close_events elf"
            then have "r = h \<and> soinfo_list w' = h # soinfo_list w
              \<and> (\<exists>si'. heap w' = (heap w)(h \<mapsto> si') \<and> si_ref_count si' = 1
                   \<and> si_name si' = si_name si)
              \<and> error_msg w' = error_msg w \<and> has_error w' = has_error w
              \<and> trace w' = trace w @ [Ev_mmap Reservation (reserve_ptr e) n 0,
                                               Ev_open (seg_fd e)] @ segs
                                    @ [Ev_close (seg_fd e), Ev_register h] @ elf_close_events elf"
              using wsf True b3 by auto
            with wsf(6) have ?ok by blast
            then show ?thesis ..
          qed
        qed
      qed
    qed
  qed
qed


lemma linker_load_cases:
  assumes "linker_load e w path = Some (r, w')"
  shows "(r = 0 \<and> soinfo_list w' = soinfo_list w \<and> heap w' = heap w \<and> has_error w'
          \<and> (\<exists>evs. trace w' = trace w @ evs \<and> load_failure_shape e evs))
       \<or> (r = calloc_ptr e \<and> r \<noteq> 0 \<and> soinfo_list w' = r # soinfo_list w
          \<and> (\<exists>si'. heap w' = (heap w)(r \<mapsto> si') \<and> si_ref_count si' = 1
                   \<and> si_name si' = take 255 (c_str path))
          \<and> error_msg w' = error_msg w \<and> has_error w' = has_error w
          \<and> (\<exists>n segs. trace w' = trace w @ load_success_events e n segs
                       \<and> (\<forall>ev \<in> set segs. is_segment_mmap ev)))"
proof -
  obtain r0 w1 elf where eo: "elf_open e w path = (r0, w1, elf)"
    by (cases "elf_open e w path")
  note ef = elf_open_fields [OF eo]
  show ?thesis
  proof (cases "r0 < 0")
    case True
    then have "r = 0" "w' = linker_set_error (''Failed to open: '' @ c_str path) w1"
      using assms eo by (auto simp: linker_load_def)
    moreover from elf_open_failed [OF eo True] obtain evs where
      "trace w1 = trace w @ evs" "load_failure_shape e evs"
      unfolding load_failure_shape_def view_events_def by auto
    ultimately show ?thesis using ef by auto
  next
    case False
    note ok = elf_open_ok [OF eo False]
    have tr1: "trace w1 = trace w @ view_events e" using ok(1) by (simp add: view_events_def)
    have cl: "elf_close_events elf = view_close_events e"
      using ok by (simp add: elf_close_events_def view_close_events_def)
    show ?thesis
    proof (cases "calloc_ptr e = 0")
      case True
      then have "r = 0" "w' = elf_close elf (linker_set_error ''Out of memory'' w1)"
        using assms eo False by (auto simp: linker_load_def)
      then have "r = 0 \<and> soinfo_list w' = soinfo_list w \<and> heap w' = heap w \<and> has_error w'
          \<and> trace w' = trace w @ (view_events e @ view_close_events e)"
        using ef tr1 cl by simp
      moreover have "load_failure_shape e (view_events e @ view_close_events e)"
        by (simp add: load_failure_shape_def)
      ultimately show ?thesis by blast
    next
      case c: False
      define si where "si = soinfo_zero\<lparr> si_name := take 255 (c_str path),
                                   si_phdr := ef_phdr elf,
                                   si_phnum := ucast (e_phnum (mem (emit (Ev_calloc (calloc_ptr e)) w1)) (ef_ehdr elf)) \<rparr>"
      have lm: "load_map e (emit (Ev_calloc (calloc_ptr e)) w1) (calloc_ptr e) si elf = Some (r, w')"
        using assms eo False c by (simp add: linker_load_def Let_def si_def)
      have b0: "si_base si = 0" "si_name si = take 255 (c_str path)"
        by (simp_all add: si_def soinfo_zero_def)
      from load_map_cases [OF lm b0(1)] show ?thesis
      proof
        assume "r = 0 \<and> soinfo_list w' = soinfo_list (emit (Ev_calloc (calloc_ptr e)) w1)
          \<and> heap w' = heap (emit (Ev_calloc (calloc_ptr e)) w1) \<and> has_error w'
          \<and> (\<exists>evs. trace w' = trace (emit (Ev_calloc (calloc_ptr e)) w1) @ evs
                      @ [Ev_free (calloc_ptr e)] @ elf_close_events elf
                    \<and> reservation_shape e evs)"
        then obtain mid where
          f: "r = 0" "soinfo_list w' = soinfo_list w" "heap w' = heap w" "has_error w'"
             "trace w' = trace w @ (view_events e @ [Ev_calloc (calloc_ptr e)] @ mid
                      @ [Ev_free (calloc_ptr e)] @ view_close_events e)"
             "reservation_shape e mid"
          using ef tr1 cl by auto
        from f(6) have "load_failure_shape e (view_events e @ [Ev_calloc (calloc_ptr e)] @ mid
                      @ [Ev_free (calloc_ptr e)] @ view_close_events e)"
          unfolding load_failure_shape_def by blast
        with f show ?thesis by blast
      next
        assume "r = calloc_ptr e
          \<and> soinfo_list w' = calloc_ptr e # soinfo_list (emit (Ev_calloc (calloc_ptr e)) w1)
          \<and> (\<exists>si'. heap w' = (heap (emit (Ev_calloc (calloc_ptr e)) w1))(calloc_ptr e \<mapsto> si')
                   \<and> si_ref_count si' = 1 \<and> si_name si' = si_name si)
          \<and> error_msg w' = error_msg (emit (Ev_calloc (calloc_ptr e)) w1)
          \<and> has_error w' = has_error (emit (Ev_calloc (calloc_ptr e)) w1)
          \<and> (\<exists>n segs. trace w' = trace (emit (Ev_calloc (calloc_ptr e)) w1)
                           @ [Ev_mmap Reservation (reserve_ptr e) n 0, Ev_open (seg_fd e)] @ segs
                           @ [Ev_close (seg_fd e), Ev_register (calloc_ptr e)]
                           @ elf_close_events elf
                       \<and> (\<forall>ev \<in> set segs. is_segment_mmap ev))"
        then obtain si' n segs where
          s: "r = calloc_ptr e" "soinfo_list w' = r # soinfo_list w"
             "heap w' = (heap w)(r \<mapsto> si')" "si_ref_count si' = 1"
             "si_name si' = take 255 (c_str path)"
             "error_msg w' = error_msg w" "has_error w' = has_error w"
             "trace w' = trace w @ load_success_events e n segs"
             "\<forall>ev \<in> set segs. is_segment_mmap ev"
          using ef tr1 cl b0 by (auto simp: load_success_events_def)
        from s(3-5) have e1: "\<exists>si'. heap w' = (heap w)(r \<mapsto> si') \<and> si_ref_count si' = 1
                   \<and> si_name si' = take 255 (c_str path)" by blast
        from s(8,9) have e2: "\<exists>n segs. trace w' = trace w @ load_success_events e n segs
                       \<and> (\<forall>ev \<in> set segs. is_segment_mmap ev)" by blast
        from c s(1,2,6,7) e1 e2 show ?thesis by simp
      qed
    qed
  qed
qed

lemma then_released_notin: "a \<notin> set xs \<Longrightarrow> then_released a r xs"
  by (induction xs) auto

lemma then_released_append:
  "then_released a r (xs @ ys) = (then_released a r ys \<and> (r \<in> set ys \<or> then_released a r xs))"
  by (induction xs) auto

subsection \<open>The traces of a load\<close>

lemma load_mid_notin:
  assumes "load_mid e mid"
  shows "Ev_calloc x \<notin> set mid" "Ev_mmap Reservation b n p \<notin> set mid"
    "Ev_register x \<notin> set mid" "Ev_call x \<notin> set mid" "Ev_free x \<notin> set mid"
    "Ev_mmap File_view b n p \<notin> set mid"
  using assms unfolding load_mid_def is_segment_mmap_def by (auto split: event.splits)

lemma segs_notin:
  assumes "\<forall>ev \<in> set segs. is_segment_mmap ev"
  shows "Ev_calloc x \<notin> set segs" "Ev_mmap Reservation b n p \<notin> set segs"
    "Ev_register x \<notin> set segs" "Ev_call x \<notin> set segs" "Ev_open fd \<notin> set segs"
    "Ev_mmap File_view b n p \<notin> set segs" "Ev_close fd \<notin> set segs"
  using assms unfolding is_segment_mmap_def by (auto split: event.splits)

lemma reservation_shape_props:
  assumes "reservation_shape e mid"
  shows "Ev_calloc x \<notin> set mid" "Ev_register x \<notin> set mid" "Ev_call x \<notin> set mid"
    "Ev_free x \<notin> set mid"
    "reserve_ptr e \<noteq> 0 \<Longrightarrow> then_released (Ev_mmap Reservation b n p) (Ev_munmap b n) mid"
proof -
  from assms consider "mid = []"
    | k m where "mid = Ev_mmap Reservation (reserve_ptr e) k 0 # m
                        @ (if reserve_ptr e \<noteq> 0 then [Ev_munmap (reserve_ptr e) k] else [])"
        "load_mid e m"
    unfolding reservation_shape_def by blast
  note c = this
  show "Ev_calloc x \<notin> set mid" using c load_mid_notin by cases auto
  show "Ev_register x \<notin> set mid" using c load_mid_notin by cases auto
  show "Ev_call x \<notin> set mid" using c load_mid_notin by cases auto
  show "Ev_free x \<notin> set mid" using c load_mid_notin by cases auto
  show "then_released (Ev_mmap Reservation b n p) (Ev_munmap b n) mid" if "reserve_ptr e \<noteq> 0"
    using c
  proof cases
    case 1
    then show ?thesis by simp
  next
    case 2
    have "then_released (Ev_mmap Reservation b n p) (Ev_munmap b n) m"
      using load_mid_notin(2) [OF 2(2)] by (rule then_released_notin)
    then show ?thesis using that 2(1) by (simp add: then_released_append)
  qed
qed

lemma load_failure_shape_props:
  assumes "load_failure_shape e evs"
  shows "then_released (Ev_calloc x) (Ev_free x) evs"
    and "reserve_ptr e \<noteq> 0 \<Longrightarrow> then_released (Ev_mmap Reservation b n p) (Ev_munmap b n) evs"
    and "Ev_register x \<notin> set evs" and "Ev_call x \<notin> set evs"
proof -
  from assms consider "evs = []" | "evs = [Ev_open (elf_fd e), Ev_close (elf_fd e)]"
    | "evs = view_events e
               @ [Ev_munmap (elf_map e) (of_nat (length (file_bytes e))), Ev_close (elf_fd e)]"
    | "evs = view_events e @ view_close_events e"
    | mid where "evs = view_events e @ [Ev_calloc (calloc_ptr e)] @ mid
                      @ [Ev_free (calloc_ptr e)] @ view_close_events e"
        "reservation_shape e mid"
    unfolding load_failure_shape_def by blast
  note c = this
  show "then_released (Ev_calloc x) (Ev_free x) evs"
    using c
  proof cases
    case (5 mid)
    have "then_released (Ev_calloc x) (Ev_free x) mid"
      using reservation_shape_props(1) [OF 5(2)] by (rule then_released_notin)
    then show ?thesis using 5(1)
      by (simp add: view_events_def view_close_events_def then_released_append)
  qed (simp_all add: view_events_def view_close_events_def)
  show "then_released (Ev_mmap Reservation b n p) (Ev_munmap b n) evs" if "reserve_ptr e \<noteq> 0"
    using c
  proof cases
    case (5 mid)
    have "then_released (Ev_mmap Reservation b n p) (Ev_munmap b n) mid"
      using reservation_shape_props(5) [OF 5(2) that] .
    then show ?thesis using 5(1)
      by (simp add: view_events_def view_close_events_def then_released_append)
  qed (simp_all add: view_events_def view_close_events_def)
  show "Ev_register x \<notin> set evs"
    using c reservation_shape_props(2)
    by cases (auto simp: view_events_def view_close_events_def)
  show "Ev_call x \<notin> set evs"
    using c reservation_shape_props(3)
    by cases (auto simp: view_events_def view_close_events_def)
qed

lemma load_success_events_props:
  assumes "\<forall>ev \<in> set segs. is_segment_mmap ev" and "elf_map e \<noteq> 0"
  shows "Ev_call a \<notin> set (load_success_events e n segs)"
    and "Ev_register (calloc_ptr e) \<in> set (load_success_events e n segs)"
    and "Ev_open (elf_fd e) \<in> set (load_success_events e n segs)"
    and "Ev_open (seg_fd e) \<in> set (load_success_events e n segs)"
    and "Ev_mmap File_view (elf_map e) (of_nat (length (file_bytes e))) PROT_READ
           \<in> set (load_success_events e n segs)"
    and "then_released (Ev_open fd) (Ev_close fd) (load_success_events e n segs)"
    and "then_released (Ev_mmap File_view b k p) (Ev_munmap b k) (load_success_events e n segs)"
proof -
  note sn = segs_notin [OF assms(1)]
  show "Ev_call a \<notin> set (load_success_events e n segs)"
    using sn(4) by (auto simp: load_success_events_def view_events_def view_close_events_def)
  show "Ev_register (calloc_ptr e) \<in> set (load_success_events e n segs)"
    by (simp add: load_success_events_def)
  show "Ev_open (elf_fd e) \<in> set (load_success_events e n segs)"
    by (simp add: load_success_events_def view_events_def)
  show "Ev_open (seg_fd e) \<in> set (load_success_events e n segs)"
    by (simp add: load_success_events_def)
  show "Ev_mmap File_view (elf_map e) (of_nat (length (file_bytes e))) PROT_READ
           \<in> set (load_success_events e n segs)"
    by (simp add: load_success_events_def view_events_def)
  have t1: "then_released (Ev_open fd) (Ev_close fd) segs"
    using sn(5) by (rule then_released_notin)
  show "then_released (Ev_open fd) (Ev_close fd) (load_success_events e n segs)"
    using t1 by (simp add: load_success_events_def view_events_def view_close_events_def
        then_released_append)
  have t2: "then_released (Ev_mmap File_view b k p) (Ev_munmap b k) segs"
    using sn(6) by (rule then_released_notin)
  show "then_released (Ev_mmap File_view b k p) (Ev_munmap b k) (load_success_events e n segs)"
    using t2 assms(2) by (simp add: load_success_events_def view_events_def view_close_events_def
        then_released_append)
qed

lemma linker_call_constructors_frame:
  assumes "linker_call_constructors w h = Some w'"
  shows "soinfo_list w' = soinfo_list w \<and> heap w' = heap w \<and> mem w' = mem w
       \<and> error_msg w' = error_msg w \<and> has_error w' = has_error w
       \<and> (\<exists>calls. trace w' = trace w @ map Ev_call calls)"
proof (cases "h = 0")
  case True
  then have "w' = w" using assms by (simp add: linker_call_constructors_def)
  then have "trace w' = trace w @ map Ev_call []" by simp
  then show ?thesis using \<open>w' = w\<close> by blast
next
  case False
  then obtain si where si: "heap w h = Some si"
    using assms by (cases "heap w h") (auto simp: linker_call_constructors_def)
  define c1 where "c1 = (if is_valid_func_ptr (si_init_func si) then [si_init_func si] else [])"
  define c2 where "c2 = (if si_init_array si \<noteq> 0 \<and> 0 < si_init_array_count si
      then filter is_valid_func_ptr (map (\<lambda>i. read_u64 (mem w) (si_init_array si + 8 * of_nat i))
               [0 ..< unat (si_init_array_count si)]) else [])"
  have "soinfo_list w' = soinfo_list w \<and> heap w' = heap w \<and> mem w' = mem w
       \<and> error_msg w' = error_msg w \<and> has_error w' = has_error w
       \<and> trace w' = trace w @ map Ev_call (c1 @ c2)"
    using assms False si unfolding linker_call_constructors_def Let_def c1_def c2_def
    by (auto simp: array_calls_def split: if_splits)
  then show ?thesis by blast
qed

lemma find_global_from_first:
  assumes "\<forall>x \<in> set before. linker_find_symbol w x name = Some 0"
    and "linker_find_symbol w h name = Some a" and "a \<noteq> 0"
  shows "find_global_from e w (before @ h # rest) name = Some a"
  using assms by (induction before) auto

lemma find_global_from_host:
  assumes "\<forall>x \<in> set xs. linker_find_symbol w x name = Some 0"
  shows "find_global_from e w xs name = Some (host_dlsym e name)"
  using assms by (induction xs) auto

subsection \<open>The example object, loaded\<close>

lemma image_length: "length ex_image = 400"
  by (simp add: ex_image_def elf_ehdr_def elf_phdr_def elf_dyn_def elf_sym_def le16_def le32_def le64_def)

lemmas img_defs = ex_image_def elf_ehdr_def elf_phdr_def elf_dyn_def elf_sym_def le16_def le32_def le64_def

lemma image_bytes: "ex_image =
  [0x7f, 0x45, 0x4c, 0x46, 2, 1, 1, 0, 0, 0, 0, 0, 0, 0, 0, 0,
   3, 0, 62, 0, 1, 0, 0, 0, 0, 0, 0, 0, 0, 0, 0, 0,
   0x40, 0, 0, 0, 0, 0, 0, 0, 0, 0, 0, 0, 0, 0, 0, 0,
   0, 0, 0, 0, 64, 0, 56, 0, 2, 0, 0, 0, 0, 0, 0, 0,
   1, 0, 0, 0, 7, 0, 0, 0, 0, 0, 0, 0, 0, 0, 0, 0, 0, 0, 0, 0, 0, 0, 0, 0, 0, 0, 0, 0, 0, 0, 0, 0,
   0x90, 1, 0, 0, 0, 0, 0, 0, 0x90, 1, 0, 0, 0, 0, 0, 0, 0, 0x10, 0, 0, 0, 0, 0, 0,
   2, 0, 0, 0, 6, 0, 0, 0, 0xb0, 0, 0, 0, 0, 0, 0, 0, 0xb0, 0, 0, 0, 0, 0, 0, 0, 0xb0, 0, 0, 0, 0, 0, 0, 0,
   0x80, 0, 0, 0, 0, 0, 0, 0, 0x80, 0, 0, 0, 0, 0, 0, 0, 0, 0x10, 0, 0, 0, 0, 0, 0,
   6, 0, 0, 0, 0, 0, 0, 0, 0x30, 1, 0, 0, 0, 0, 0, 0,
   5, 0, 0, 0, 0, 0, 0, 0, 0x60, 1, 0, 0, 0, 0, 0, 0,
   4, 0, 0, 0, 0, 0, 0, 0, 0x68, 1, 0, 0, 0, 0, 0, 0,
   12, 0, 0, 0, 0, 0, 0, 0, 0, 2, 0, 0, 0, 0, 0, 0,
   25, 0, 0, 0, 0, 0, 0, 0, 0x80, 1, 0, 0, 0, 0, 0, 0,
   27, 0, 0, 0, 0, 0, 0, 0, 16, 0, 0, 0, 0, 0, 0, 0,
   0, 0, 0, 0, 0, 0, 0, 0, 0, 0, 0, 0, 0, 0, 0, 0,
   0, 0, 0, 0, 0, 0, 0, 0, 0, 0, 0, 0, 0, 0, 0, 0,
   0, 0, 0, 0, 0, 0, 0, 0, 0, 0, 0, 0, 0, 0, 0, 0, 0, 0, 0, 0, 0, 0, 0, 0,
   1, 0, 0, 0, 0x12, 0, 1, 0, 0, 5, 0, 0, 0, 0, 0, 0, 0, 0, 0, 0, 0, 0, 0, 0,
   0, 102, 0, 0, 0, 0, 0, 0,
   1, 0, 0, 0, 2, 0, 0, 0, 1, 0, 0, 0, 0, 0, 0, 0, 0, 0, 0, 0, 0, 0, 0, 0,
   0, 3, 0, 0, 0, 0, 0, 0, 0, 0, 0, 0, 0, 0, 0, 0]"
  by (simp add: img_defs)

lemma image_nth: "ex_image ! k =
  [0x7f, 0x45, 0x4c, 0x46, 2, 1, 1, 0, 0, 0, 0, 0, 0, 0, 0, 0,
   3, 0, 62, 0, 1, 0, 0, 0, 0, 0, 0, 0, 0, 0, 0, 0,
   0x40, 0, 0, 0, 0, 0, 0, 0, 0, 0, 0, 0, 0, 0, 0, 0,
   0, 0, 0, 0, 64, 0, 56, 0, 2, 0, 0, 0, 0, 0, 0, 0,
   1, 0, 0, 0, 7, 0, 0, 0, 0, 0, 0, 0, 0, 0, 0, 0, 0, 0, 0, 0, 0, 0, 0, 0, 0, 0, 0, 0, 0, 0, 0, 0,
   0x90, 1, 0, 0, 0, 0, 0, 0, 0x90, 1, 0, 0, 0, 0, 0, 0, 0, 0x10, 0, 0, 0, 0, 0, 0,
   2, 0, 0, 0, 6, 0, 0, 0, 0xb0, 0, 0, 0, 0, 0, 0, 0, 0xb0, 0, 0, 0, 0, 0, 0, 0, 0xb0, 0, 0, 0, 0, 0, 0, 0,
   0x80, 0, 0, 0, 0, 0, 0, 0, 0x80, 0, 0, 0, 0, 0, 0, 0, 0, 0x10, 0, 0, 0, 0, 0, 0,
   6, 0, 0, 0, 0, 0, 0, 0, 0x30, 1, 0, 0, 0, 0, 0, 0,
   5, 0, 0, 0, 0, 0, 0, 0, 0x60, 1, 0, 0, 0, 0, 0, 0,
   4, 0, 0, 0, 0, 0, 0, 0, 0x68, 1, 0, 0, 0, 0, 0, 0,
   12, 0, 0, 0, 0, 0, 0, 0, 0, 2, 0, 0, 0, 0, 0, 0,
   25, 0, 0, 0, 0, 0, 0, 0, 0x80, 1, 0, 0, 0, 0, 0, 0,
   27, 0, 0, 0, 0, 0, 0, 0, 16, 0, 0, 0, 0, 0, 0, 0,
   0, 0, 0, 0, 0, 0, 0, 0, 0, 0, 0, 0, 0, 0, 0, 0,
   0, 0, 0, 0, 0, 0, 0, 0, 0, 0, 0, 0, 0, 0, 0, 0,
   0, 0, 0, 0, 0, 0, 0, 0, 0, 0, 0, 0, 0, 0, 0, 0, 0, 0, 0, 0, 0, 0, 0, 0,
   1, 0, 0, 0, 0x12, 0, 1, 0, 0, 5, 0, 0, 0, 0, 0, 0, 0, 0, 0, 0, 0, 0, 0, 0,
   0, 102, 0, 0, 0, 0, 0, 0,
   1, 0, 0, 0, 2, 0, 0, 0, 1, 0, 0, 0, 0, 0, 0, 0, 0, 0, 0, 0, 0, 0, 0, 0,
   0, 3, 0, 0, 0, 0, 0, 0, 0, 0, 0, 0, 0, 0, 0, 0] ! k"
  by (simp only: image_bytes)


lemma map_file_in:
  "x - a < PAGE_END len \<Longrightarrow> map_file m a len bytes off x = file_byte bytes (unat off + unat (x - a))"
  by (simp add: map_file_def)

lemma map_file_out: "\<not> x - a < PAGE_END len \<Longrightarrow> map_file m a len bytes off x = m x"
  by (simp add: map_file_def)

lemma map_anon_in: "x - a < PAGE_END len \<Longrightarrow> map_anon m a len x = 0"
  by (simp add: map_anon_def)

lemma map_anon_out: "\<not> x - a < PAGE_END len \<Longrightarrow> map_anon m a len x = m x"
  by (simp add: map_anon_def)

lemma page_ends: "PAGE_END 400 = 4096" "PAGE_END 4096 = 4096" "PAGE_START 0 = 0"
  "PAGE_START 0x10000 = 0x10000" "PAGE_START 0x20000 = 0x20000"
  "PAGE_END 0x10190 = 0x11000" "PAGE_END 0x20190 = 0x21000"
  by (simp_all add: PAGE_END_def PAGE_START_def PAGE_SIZE_def)

lemmas map_rules = map_file_in map_file_out map_anon_in map_anon_out page_ends file_byte_def
  image_length image_nth

lemmas hdr_defs = e_ident_def e_type_def e_machine_def e_phoff_def e_shoff_def e_phnum_def
  e_shstrndx_def p_type_def p_flags_def p_offset_def p_vaddr_def p_filesz_def p_memsz_def
  d_tag_def d_un_def

lemma env_img_sel:
  "elf_fd (env_img h b fd) = 3" "fstat_ok (env_img h b fd)" "file_bytes (env_img h b fd) = ex_image"
  "elf_map (env_img h b fd) = 0x40000"
  "calloc_ptr (env_img h b fd) = h" "reserve_ptr (env_img h b fd) = b" "seg_fd (env_img h b fd) = fd"
  "seg_mmap_ok (env_img h b fd) i" "bss_mmap_ok (env_img h b fd) i" "host_dlsym (env_img h b fd) name = 0"
  by (simp_all add: env_img_def)

lemma elf_open_img:
  "elf_open (env_img h b fd) w p =
     (0, w\<lparr> mem := map_file (mem w) 0x40000 400 ex_image 0,
            trace := trace w @ [Ev_open 3, Ev_mmap File_view 0x40000 400 PROT_READ] \<rparr>,
      \<lparr> ef_fd = 3, ef_map_start = 0x40000, ef_map_size = 400, ef_ehdr = 0x40000,
        ef_phdr = 0x40040, ef_shdr = 0, ef_shstrtab = 0 \<rparr>)"
  by (simp add: elf_open_def Let_def env_img_sel emit_def MAP_FAILED_def elf_file_zero_def
      elf_validate_header_def hdr_defs read_defs map_rules
      ELFCLASS64_def ELFDATA2LSB_def ET_DYN_def ET_EXEC_def EM_X86_64_def)


lemma view_fields:
  assumes v: "\<And>x. x - 0x40000 < 0x1000 \<Longrightarrow> M x = file_byte ex_image (unat (x - 0x40000))"
  shows "e_phnum M 0x40000 = 2"
    and "p_type M 0x40040 = 1" and "p_vaddr M 0x40040 = 0" and "p_memsz M 0x40040 = 400"
    and "p_filesz M 0x40040 = 400" and "p_offset M 0x40040 = 0" and "p_flags M 0x40040 = 7"
    and "p_type M 0x40078 = 2" and "p_vaddr M 0x40078 = 0xb0" and "e_phoff M 0x40000 = 0x40"
  by (simp_all add: hdr_defs read_defs v file_byte_def image_length image_nth)

lemma away:
  assumes "b = 0x10000 \<or> b = 0x20000" and "x - 0x40000 < (0x1000 :: 64 word)"
  shows "\<not> x - b < 0x1000"
proof -
  define y where "y = x - 0x40000"
  have x: "x = y + 0x40000" by (simp add: y_def)
  have yl: "unat y < 4096" using assms(2) by (simp add: y_def word_less_nat_alt)
  have "unat (0x30000 + y) = unat (0x30000 :: 64 word) + unat y"
    by (rule iffD1 [OF unat_add_lem]) (use yl in simp)
  then have 1: "\<not> 0x30000 + y < 0x1000" by (simp add: word_less_nat_alt)
  have "unat (0x20000 + y) = unat (0x20000 :: 64 word) + unat y"
    by (rule iffD1 [OF unat_add_lem]) (use yl in simp)
  then have 2: "\<not> 0x20000 + y < 0x1000" by (simp add: word_less_nat_alt)
  show ?thesis using assms(1) 1 2 by (auto simp: x)
qed

lemma view1:
  "x - 0x40000 < 0x1000 \<Longrightarrow> map_file m 0x40000 400 ex_image 0 x = file_byte ex_image (unat (x - 0x40000))"
  by (simp add: map_file_in page_ends)

lemma view2:
  assumes "b = 0x10000 \<or> b = 0x20000" and "x - 0x40000 < 0x1000"
  shows "map_anon (map_file m 0x40000 400 ex_image 0) b 4096 x = file_byte ex_image (unat (x - 0x40000))"
  using away [OF assms] assms(2) by (simp add: map_anon_out map_file_in page_ends)

lemma view3:
  assumes "b = 0x10000 \<or> b = 0x20000" and "x - 0x40000 < 0x1000"
  shows "map_file (map_anon (map_file m 0x40000 400 ex_image 0) b 4096) b 400 ex_image 0 x
       = file_byte ex_image (unat (x - 0x40000))"
  using away [OF assms] assms(2) by (simp add: map_anon_out map_file_in map_file_out page_ends)

lemmas fields1 = view_fields [OF view1]
lemmas fields2 = view_fields [OF view2]
lemmas fields3 = view_fields [OF view3]

lemma calc_img: "calculate_load_size (map_file m 0x40000 400 ex_image 0) 0x40040 2 = 4096"
  by (simp add: calculate_load_size_def load_size_step_def Let_def upt_0_2 fields1 page_ends
      PT_LOAD_def word_gt_0)

lemma minv_img: "fold (min_vaddr_step (map_file m 0x40000 400 ex_image 0) 0x40040) [0 ..< 2] (- 1) = 0"
  by (simp add: min_vaddr_step_def Let_def upt_0_2 fields1 PT_LOAD_def word_gt_0)

lemma img_view_sel:
  "ef_fd img_view = 3" "ef_map_start img_view = 0x40000" "ef_map_size img_view = 400"
  "ef_ehdr img_view = 0x40000" "ef_phdr img_view = 0x40040"
  by (simp_all add: img_view_def)

lemma segs_img:
  assumes b: "b = 0x10000 \<or> b = 0x20000"
    and m: "mem w = map_anon (map_file m 0x40000 400 ex_image 0) b 4096"
    and "si_load_bias si = b"
  shows "map_segments (env_img h b fd) si img_view 0 w
       = (True, w\<lparr> mem := map_file (mem w) b 0x190 ex_image 0,
                    trace := trace w @ [Ev_mmap Segment b 0x190 7] \<rparr>)"
  using assms
  apply (elim disjE)
   apply (simp_all add: map_segment_def Let_def img_view_sel env_img_sel emit_def
      fields2 fields3 page_ends PT_LOAD_def elf_to_mmap_prot_def PF_R_def PF_W_def PF_X_def
      PROT_READ_def PROT_WRITE_def PROT_EXEC_def)
  done

lemma phdr_img:
  assumes "b = 0x10000 \<or> b = 0x20000" and "si_load_bias si = b"
  shows "fold (load_phdr_step (img_mem m b) img_view) [0 ..< 2] si = si\<lparr> si_dynamic := b + 0xb0 \<rparr>"
  using assms
  by (simp add: img_mem_def load_phdr_step_def Let_def upt_0_2 img_view_sel fields3
      PT_PHDR_def PT_DYNAMIC_def)

lemmas dt_defs = DT_NULL_def DT_PLTRELSZ_def DT_HASH_def DT_STRTAB_def DT_SYMTAB_def DT_RELA_def
  DT_RELASZ_def DT_STRSZ_def DT_INIT_def DT_FINI_def DT_JMPREL_def DT_INIT_ARRAY_def
  DT_FINI_ARRAY_def DT_INIT_ARRAYSZ_def DT_FINI_ARRAYSZ_def DT_GNU_HASH_def

lemma dyn_read:
  "d_tag (img_mem m b) (b + 0xb0) = 6" "d_un (img_mem m b) (b + 0xb0) = 0x130"
  "d_tag (img_mem m b) (0xc0 + b) = 5" "d_un (img_mem m b) (0xc0 + b) = 0x160"
  "d_tag (img_mem m b) (0xd0 + b) = 4" "d_un (img_mem m b) (0xd0 + b) = 0x168"
  "d_tag (img_mem m b) (0xe0 + b) = 12" "d_un (img_mem m b) (0xe0 + b) = 0x200"
  "d_tag (img_mem m b) (0xf0 + b) = 25" "d_un (img_mem m b) (0xf0 + b) = 0x180"
  "d_tag (img_mem m b) (0x100 + b) = 27" "d_un (img_mem m b) (0x100 + b) = 16"
  "d_tag (img_mem m b) (0x110 + b) = 0"
  by (simp_all add: img_mem_def hdr_defs read_defs map_rules)

lemma dyn_entry_read:
  "dyn_entry si 6 v = si\<lparr> si_symtab := si_load_bias si + v \<rparr>"
  "dyn_entry si 5 v = si\<lparr> si_strtab := si_load_bias si + v \<rparr>"
  "dyn_entry si 4 v = si\<lparr> si_hash := si_load_bias si + v \<rparr>"
  "dyn_entry si 12 v = si\<lparr> si_init_func := si_load_bias si + v \<rparr>"
  "dyn_entry si 25 v = si\<lparr> si_init_array := si_load_bias si + v \<rparr>"
  "dyn_entry si 27 v = si\<lparr> si_init_array_count := v div 8 \<rparr>"
  by (simp_all add: dyn_entry_def dt_defs)

lemma dynamic_img:
  assumes "si_load_bias si = b"
  shows "dynamic_walk (img_mem m b) si (b + 0xb0)
       = Some (si\<lparr> si_symtab := b + 0x130, si_strtab := b + 0x160, si_hash := b + 0x168,
                   si_init_func := b + 0x200, si_init_array := b + 0x180,
                   si_init_array_count := 2 \<rparr>)"
  apply (subst dynamic_walk.simps, simp only: dyn_read dyn_entry_read, simp add: DT_NULL_def)
  apply (subst dynamic_walk.simps, simp only: dyn_read dyn_entry_read, simp add: DT_NULL_def)
  apply (subst dynamic_walk.simps, simp only: dyn_read dyn_entry_read, simp add: DT_NULL_def)
  apply (subst dynamic_walk.simps, simp only: dyn_read dyn_entry_read, simp add: DT_NULL_def)
  apply (subst dynamic_walk.simps, simp only: dyn_read dyn_entry_read, simp add: DT_NULL_def)
  apply (subst dynamic_walk.simps, simp only: dyn_read dyn_entry_read, simp add: DT_NULL_def)
  apply (subst dynamic_walk.simps, simp only: dyn_read dyn_entry_read, simp add: DT_NULL_def assms)
  done

lemma phnum_img:
  assumes "b = 0x10000 \<or> b = 0x20000"
  shows "e_phnum (map_file m 0x40000 400 ex_image 0) 0x40000 = 2"
    and "e_phnum (img_mem m b) 0x40000 = 2"
  using assms by (simp_all add: img_mem_def fields1 fields3)

lemma load_link_img:
  assumes b: "b = 0x10000 \<or> b = 0x20000" and m: "mem w = img_mem m b"
  shows "load_link (env_img h b fd) w h (img_si0 b n) img_view
       = Some (h, w\<lparr> soinfo_list := h # soinfo_list w, heap := (heap w)(h \<mapsto> img_si b n),
                      trace := trace w @ [Ev_register h, Ev_munmap 0x40000 400, Ev_close 3] \<rparr>)"
proof -
  have lb: "si_load_bias (img_si0 b n) = b" by (simp add: img_si0_def)
  have ph: "unat (e_phnum (mem w) (ef_ehdr img_view)) = 2"
    using phnum_img(2) [OF b] m by (simp add: img_view_sel)
  have f: "fold (load_phdr_step (mem w) img_view) [0 ..< 2] (img_si0 b n)
         = (img_si0 b n)\<lparr> si_dynamic := b + 0xb0 \<rparr>"
    using phdr_img [OF b lb] m by simp
  have nz: "b + 0xb0 \<noteq> 0" "b + 0x130 \<noteq> 0" "b + 0x160 \<noteq> 0" using b by auto
  have d: "dynamic_walk (mem w) ((img_si0 b n)\<lparr> si_dynamic := b + 0xb0 \<rparr>) (b + 0xb0)
         = Some ((img_si0 b n)\<lparr> si_dynamic := b + 0xb0, si_symtab := b + 0x130,
                   si_strtab := b + 0x160, si_hash := b + 0x168,
                   si_init_func := b + 0x200, si_init_array := b + 0x180,
                   si_init_array_count := 2 \<rparr>)"
    unfolding m by (subst dynamic_img [where b = b]) (simp_all add: lb)
  have p: "parse_dynamic w ((img_si0 b n)\<lparr> si_dynamic := b + 0xb0 \<rparr>)
         = Some (0, w, (img_si0 b n)\<lparr> si_dynamic := b + 0xb0, si_symtab := b + 0x130,
                   si_strtab := b + 0x160, si_hash := b + 0x168,
                   si_init_func := b + 0x200, si_init_array := b + 0x180,
                   si_init_array_count := 2 \<rparr>)"
    by (simp add: parse_dynamic_def d nz)
  have r: "linker_relocate (env_img h b fd) w ((img_si0 b n)\<lparr> si_dynamic := b + 0xb0,
                   si_symtab := b + 0x130,
                   si_strtab := b + 0x160, si_hash := b + 0x168,
                   si_init_func := b + 0x200, si_init_array := b + 0x180,
                   si_init_array_count := 2 \<rparr>) = Some (0, w)"
    by (simp add: linker_relocate_def img_si0_def soinfo_zero_def)
  have s: "si_phdr ((img_si0 b n)\<lparr> si_dynamic := b + 0xb0 \<rparr>) \<noteq> 0" by (simp add: img_si0_def)
  show ?thesis
    unfolding load_link_def Let_def ph f
    apply (simp only: s if_False p r)
    apply (simp add: elf_close_def emit_def img_view_sel MAP_FAILED_def Let_def img_si_def
        img_si0_def soinfo_zero_def linker_relocate_def)
    done
qed

lemma load_map_img:
  assumes b: "b = 0x10000 \<or> b = 0x20000" and m: "mem w = map_file m 0x40000 400 ex_image 0"
    and fd: "0 \<le> fd"
  shows "load_map (env_img h b fd) w h
           (soinfo_zero\<lparr> si_name := n, si_phdr := 0x40040, si_phnum := 2 \<rparr>) img_view
       = Some (h, w\<lparr> soinfo_list := h # soinfo_list w, heap := (heap w)(h \<mapsto> img_si b n),
                      mem := img_mem m b,
                      trace := trace w @ [Ev_mmap Reservation b 4096 0, Ev_open fd,
                        Ev_mmap Segment b 0x190 7, Ev_close fd,
                        Ev_register h, Ev_munmap 0x40000 400, Ev_close 3] \<rparr>)"
proof -
  define w1 where "w1 = emit (Ev_open fd) (emit (Ev_mmap Reservation b 4096 0)
                           (w\<lparr> mem := map_anon (mem w) b 4096 \<rparr>))"
  define w2 where "w2 = emit (Ev_close fd) (w1\<lparr> mem := map_file (mem w1) b 0x190 ex_image 0,
                    trace := trace w1 @ [Ev_mmap Segment b 0x190 7] \<rparr>)"
  have ph: "e_phnum (mem w) (ef_ehdr img_view) = 2"
    using phnum_img(1) [OF b] m by (simp add: img_view_sel)
  have c: "calculate_load_size (mem w) (ef_phdr img_view) 2 = 4096"
    using calc_img m by (simp add: img_view_sel)
  have mv: "fold (min_vaddr_step (mem w) (ef_phdr img_view)) [0 ..< 2] (- 1) = 0"
    using minv_img m by (simp add: img_view_sel)
  have mf: "b \<noteq> MAP_FAILED" using b by (auto simp: MAP_FAILED_def)
  have m1: "mem w1 = map_anon (map_file m 0x40000 400 ex_image 0) b 4096"
    by (simp add: w1_def emit_def m)
  have sg: "map_segments (env_img h b fd) (img_si0 b n) img_view 0 w1
          = (True, w1\<lparr> mem := map_file (mem w1) b 0x190 ex_image 0,
                        trace := trace w1 @ [Ev_mmap Segment b 0x190 7] \<rparr>)"
    by (rule segs_img [OF b m1]) (simp add: img_si0_def)
  have m2: "mem w2 = img_mem m b" by (simp add: w2_def emit_def m1 img_mem_def)
  note ll = load_link_img [OF b m2, of h fd n]
  have si: "soinfo_zero\<lparr> si_name := n, si_phdr := 0x40040, si_phnum := 2, si_size := 4096,
               si_base := b, si_load_bias := b - 0 \<rparr> = img_si0 b n"
    by (simp add: img_si0_def)
  have "load_map (env_img h b fd) w h
           (soinfo_zero\<lparr> si_name := n, si_phdr := 0x40040, si_phnum := 2 \<rparr>) img_view
       = load_link (env_img h b fd) w2 h (img_si0 b n) img_view"
    unfolding load_map_def Let_def ph
    using c mv mf fd sg
    by (simp add: page_ends env_img_sel w1_def w2_def img_si0_def)
  also have "\<dots> = Some (h, w2\<lparr> soinfo_list := h # soinfo_list w2,
                      heap := (heap w2)(h \<mapsto> img_si b n),
                      trace := trace w2 @ [Ev_register h, Ev_munmap 0x40000 400, Ev_close 3] \<rparr>)"
    by (rule ll)
  finally show ?thesis by (simp add: w2_def w1_def emit_def img_mem_def m)
qed

lemma load_img:
  assumes b: "b = 0x10000 \<or> b = 0x20000" and h: "h \<noteq> 0" and fd: "0 \<le> fd"
  shows "linker_load (env_img h b fd) w p
       = Some (h, w\<lparr> soinfo_list := h # soinfo_list w,
                      heap := (heap w)(h \<mapsto> img_si b (take 255 (c_str p))),
                      mem := img_mem (mem w) b,
                      trace := trace w @ [Ev_open 3, Ev_mmap File_view 0x40000 400 PROT_READ,
                        Ev_calloc h, Ev_mmap Reservation b 4096 0, Ev_open fd,
                        Ev_mmap Segment b 0x190 7, Ev_close fd,
                        Ev_register h, Ev_munmap 0x40000 400, Ev_close 3] \<rparr>)"
proof -
  define w2 where "w2 = emit (Ev_calloc h) (w\<lparr> mem := map_file (mem w) 0x40000 400 ex_image 0,
            trace := trace w @ [Ev_open 3, Ev_mmap File_view 0x40000 400 PROT_READ] \<rparr>)"
  have m: "mem w2 = map_file (mem w) 0x40000 400 ex_image 0" by (simp add: w2_def emit_def)
  have ph: "e_phnum (mem w2) 0x40000 = 2" using phnum_img(1) [OF b] m by simp
  have "linker_load (env_img h b fd) w p
      = load_map (env_img h b fd) w2 h
           (soinfo_zero\<lparr> si_name := take 255 (c_str p), si_phdr := 0x40040, si_phnum := 2 \<rparr>)
           img_view"
    unfolding linker_load_def elf_open_img
    using h phnum_img(1) [OF b, of "mem w"]
    by (simp add: env_img_sel Let_def w2_def [symmetric] img_view_def [symmetric] img_view_sel)
  also note load_map_img [OF b m fd]
  finally show ?thesis by (simp add: w2_def emit_def)
qed

lemma elf_hash_f: "elf_hash ''f'' = 102"
  by (simp add: elf_hash_def Let_def)

lemma find_img:
  assumes "b = 0x10000 \<or> b = 0x20000"
  shows "find_symbol_in (img_mem m b) (img_si b n) ''f'' = Some (b + 0x500)"
  using assms
  apply (elim disjE)
   apply (simp_all add: find_symbol_in_def find_symbol_elf_def img_si_def Let_def elf_hash_f
      elf_chain_walk.simps [of _ _ _ _ 1] sym_exported_def ELF64_ST_BIND_def STB_GLOBAL_def
      STB_WEAK_def SHN_UNDEF_def img_mem_def read_defs map_rules)
  done

lemma find_img_under:
  "find_symbol_in (img_mem (img_mem m 0x10000) 0x20000) (img_si 0x10000 n) ''f'' = Some 0x10500"
  by (simp add: find_symbol_in_def find_symbol_elf_def img_si_def Let_def elf_hash_f
      elf_chain_walk.simps [of _ _ _ _ 1] sym_exported_def ELF64_ST_BIND_def STB_GLOBAL_def
      STB_WEAK_def SHN_UNDEF_def img_mem_def read_defs map_rules)

lemma ctor_img:
  assumes b: "b = 0x10000 \<or> b = 0x20000" and h: "h \<noteq> 0" and hp: "heap w h = Some (img_si b n)"
    and m: "mem w = img_mem m b"
  shows "linker_call_constructors w h
       = Some (w\<lparr> trace := trace w @ [Ev_call (b + 0x200), Ev_call 0x300] \<rparr>)"
  using b
  apply (elim disjE)
   apply (simp_all add: linker_call_constructors_def h hp m img_si_def Let_def is_valid_func_ptr_def
      emit_def array_calls_def upt_0_2 img_mem_def read_defs map_rules word_gt_0)
  done

lemma load_img_nofd:
  assumes b: "b = 0x10000 \<or> b = 0x20000" and h: "h \<noteq> 0" and fd: "fd < 0"
  shows "linker_load (env_img h b fd) w p
       = Some (0, w\<lparr> error_msg := ''Failed to open file for mmap'', has_error := True,
                      mem := map_anon (map_file (mem w) 0x40000 400 ex_image 0) b 4096,
                      trace := trace w @ [Ev_open 3, Ev_mmap File_view 0x40000 400 PROT_READ,
                        Ev_calloc h, Ev_mmap Reservation b 4096 0, Ev_munmap b 4096,
                        Ev_free h, Ev_munmap 0x40000 400, Ev_close 3] \<rparr>)"
proof -
  have mf: "b \<noteq> MAP_FAILED" "b \<noteq> 0" using b by (auto simp: MAP_FAILED_def)
  show ?thesis
    unfolding linker_load_def elf_open_img load_map_def
    using h fd mf
    by (simp add: Let_def env_img_sel emit_def fields1 calc_img minv_img page_ends load_error_def
        elf_close_def linker_set_error_def MAP_FAILED_def)
qed

lemma dlopen_img:
  assumes b: "b = 0x10000 \<or> b = 0x20000" and h: "h \<noteq> 0" and fd: "0 \<le> fd"
  shows "mini_dlopen (env_img h b fd) w (Some p) flags
       = Some (h, w\<lparr> soinfo_list := h # soinfo_list w,
                      heap := (heap w)(h \<mapsto> img_si b (take 255 (c_str p))),
                      mem := img_mem (mem w) b,
                      trace := trace w @ [Ev_open 3, Ev_mmap File_view 0x40000 400 PROT_READ,
                        Ev_calloc h, Ev_mmap Reservation b 4096 0, Ev_open fd,
                        Ev_mmap Segment b 0x190 7, Ev_close fd,
                        Ev_register h, Ev_munmap 0x40000 400, Ev_close 3,
                        Ev_call (b + 0x200), Ev_call 0x300] \<rparr>)"
proof -
  define w1 where "w1 = w\<lparr> soinfo_list := h # soinfo_list w,
                      heap := (heap w)(h \<mapsto> img_si b (take 255 (c_str p))),
                      mem := img_mem (mem w) b,
                      trace := trace w @ [Ev_open 3, Ev_mmap File_view 0x40000 400 PROT_READ,
                        Ev_calloc h, Ev_mmap Reservation b 4096 0, Ev_open fd,
                        Ev_mmap Segment b 0x190 7, Ev_close fd,
                        Ev_register h, Ev_munmap 0x40000 400, Ev_close 3] \<rparr>"
  have l: "linker_load (env_img h b fd) w p = Some (h, w1)"
    unfolding w1_def by (rule load_img [OF b h fd])
  have c: "linker_call_constructors w1 h
         = Some (w1\<lparr> trace := trace w1 @ [Ev_call (b + 0x200), Ev_call 0x300] \<rparr>)"
    by (rule ctor_img [OF b h, where n = "take 255 (c_str p)" and m = "mem w"])
      (simp_all add: w1_def)
  show ?thesis using h by (simp add: mini_dlopen_def l c) (simp add: w1_def)
qed

lemma elf_hash_g: "elf_hash ''g'' = 103"
  by (simp add: elf_hash_def Let_def)

lemma find_img_miss:
  "find_symbol_in (img_mem m 0x10000) (img_si 0x10000 n) ''g'' = Some 0"
  by (simp add: find_symbol_in_def find_symbol_elf_def find_symbol_linear_def img_si_def Let_def
      elf_hash_g elf_chain_walk.simps [of _ _ _ _ 1] elf_chain_walk.simps [of _ _ _ _ 0]
      sym_exported_def ELF64_ST_BIND_def STB_GLOBAL_def
      STB_WEAK_def SHN_UNDEF_def img_mem_def read_defs map_rules)

lemma dlopen_a:
  "mini_dlopen (env_img 0x7000 0x10000 4) world0 (Some ''liba.so'') flags = Some (0x7000, world_a)"
  by (simp add: dlopen_img world_a_def world0_def c_str_def)

lemma dlopen_ab:
  "mini_dlopen (env_img 0x7100 0x20000 4) world_a (Some ''libb.so'') flags = Some (0x7100, world_ab)"
  by (simp add: dlopen_img world_ab_def world_a_def world0_def c_str_def)

lemma find_ab:
  "linker_find_symbol world_ab 0x7000 ''f'' = Some 0x10500"
  "linker_find_symbol world_ab 0x7100 ''f'' = Some 0x20500"
  "linker_find_symbol world_a 0x7000 ''g'' = Some 0"
  by (simp_all add: linker_find_symbol_def world_ab_def world_a_def world0_def find_img_under
      find_img find_img_miss)

lemma list_ab: "soinfo_list world_ab = [0x7100, 0x7000]" "soinfo_list world_a = [0x7000]"
  by (simp_all add: world_ab_def world_a_def)

subsection \<open>Claims about loading\<close>

text \<open>
  Claim C7. A load that returns \<open>NULL\<close> leaves the registry list and the records as
  they were and sets the error flag; in the events it added, every \<open>calloc\<close> of a
  record is followed by its \<open>free\<close> and every reservation by its \<open>munmap\<close>, and
  there is no registration and no call of a constructor. The operating system is one
  whose \<open>mmap\<close> does not return the null address for the reservation.
\<close>

theorem load_failure_is_atomic:
  assumes "mini_dlopen e w path flags = Some (0, w')" and "reserve_ptr e \<noteq> 0"
  shows "soinfo_list w' = soinfo_list w \<and> heap w' = heap w \<and> has_error w'
       \<and> (\<exists>evs. trace w' = trace w @ evs
             \<and> (\<forall>h. then_released (Ev_calloc h) (Ev_free h) evs)
             \<and> (\<forall>b n p. then_released (Ev_mmap Reservation b n p) (Ev_munmap b n) evs)
             \<and> (\<forall>h. Ev_register h \<notin> set evs)
             \<and> (\<forall>a. Ev_call a \<notin> set evs))"
proof (cases path)
  case None
  then have "w' = linker_set_error ''dlopen: path is NULL'' w"
    using assms(1) by (simp add: mini_dlopen_def)
  then have "soinfo_list w' = soinfo_list w \<and> heap w' = heap w \<and> has_error w'
       \<and> trace w' = trace w @ []" by simp
  then show ?thesis by (intro conjI exI [of _ "[]"]) simp_all
next
  case (Some p)
  then obtain r w1 where l: "linker_load e w p = Some (r, w1)"
    using assms(1) by (cases "linker_load e w p") (auto simp: mini_dlopen_def)
  have "r = 0 \<and> w1 = w'"
    using assms(1) Some l by (auto simp: mini_dlopen_def split: if_splits option.splits)
  then have l0: "linker_load e w p = Some (0, w')" using l by simp
  from linker_load_cases [OF l0] obtain evs where
    f: "soinfo_list w' = soinfo_list w" "heap w' = heap w" "has_error w'"
       "trace w' = trace w @ evs" "load_failure_shape e evs"
    by auto
  note p = load_failure_shape_props [OF f(5)]
  have "(\<forall>h. then_released (Ev_calloc h) (Ev_free h) evs)
             \<and> (\<forall>b n p. then_released (Ev_mmap Reservation b n p) (Ev_munmap b n) evs)
             \<and> (\<forall>h. Ev_register h \<notin> set evs)
             \<and> (\<forall>a. Ev_call a \<notin> set evs)"
    using p assms(2) by blast
  with f(4) have "\<exists>evs. trace w' = trace w @ evs
             \<and> (\<forall>h. then_released (Ev_calloc h) (Ev_free h) evs)
             \<and> (\<forall>b n p. then_released (Ev_mmap Reservation b n p) (Ev_munmap b n) evs)
             \<and> (\<forall>h. Ev_register h \<notin> set evs)
             \<and> (\<forall>a. Ev_call a \<notin> set evs)" by blast
  with f(1-3) show ?thesis by simp
qed

theorem load_failure_is_atomic_witness:
  "\<exists>w'. mini_dlopen (env_img 0x7000 0x10000 (- 1)) world0 (Some ''liba.so'') 2 = Some (0, w')
      \<and> reserve_ptr (env_img 0x7000 0x10000 (- 1)) \<noteq> 0
      \<and> soinfo_list w' = soinfo_list world0 \<and> heap w' = heap world0 \<and> has_error w'
      \<and> trace w' = [Ev_open 3, Ev_mmap File_view 0x40000 400 PROT_READ, Ev_calloc 0x7000,
           Ev_mmap Reservation 0x10000 4096 0, Ev_munmap 0x10000 4096, Ev_free 0x7000,
           Ev_munmap 0x40000 400, Ev_close 3]
      \<and> (\<exists>evs. trace w' = trace world0 @ evs
             \<and> (\<forall>h. then_released (Ev_calloc h) (Ev_free h) evs)
             \<and> (\<forall>b n p. then_released (Ev_mmap Reservation b n p) (Ev_munmap b n) evs)
             \<and> (\<forall>h. Ev_register h \<notin> set evs)
             \<and> (\<forall>a. Ev_call a \<notin> set evs))"
proof -
  define w' where "w' = world0\<lparr> error_msg := ''Failed to open file for mmap'', has_error := True,
      mem := map_anon (map_file (mem world0) 0x40000 400 ex_image 0) 0x10000 4096,
      trace := trace world0 @ [Ev_open 3, Ev_mmap File_view 0x40000 400 PROT_READ,
          Ev_calloc 0x7000, Ev_mmap Reservation 0x10000 4096 0, Ev_munmap 0x10000 4096,
          Ev_free 0x7000, Ev_munmap 0x40000 400, Ev_close 3] \<rparr>"
  have d: "mini_dlopen (env_img 0x7000 0x10000 (- 1)) world0 (Some ''liba.so'') 2 = Some (0, w')"
    unfolding w'_def by (simp add: mini_dlopen_def load_img_nofd)
  have r: "reserve_ptr (env_img 0x7000 0x10000 (- 1)) \<noteq> 0" by (simp add: env_img_sel)
  have t: "trace w' = [Ev_open 3, Ev_mmap File_view 0x40000 400 PROT_READ, Ev_calloc 0x7000,
           Ev_mmap Reservation 0x10000 4096 0, Ev_munmap 0x10000 4096, Ev_free 0x7000,
           Ev_munmap 0x40000 400, Ev_close 3]"
    by (simp add: w'_def world0_def)
  show ?thesis
    using load_failure_is_atomic [OF d r] d r t by blast
qed

text \<open>
  Claim C5. A successful \<open>mini_dlopen\<close> is a successful \<open>linker_load\<close> followed by
  \<open>linker_call_constructors\<close>. The events of the load contain no call; they contain
  the registration of the module, which is in the list with its record when the load
  returns; both descriptors that were opened are closed and the view of the file is
  unmapped within the events of the load. The calls of \<open>DT_INIT\<close> and of the init array
  are the only events after them, and they change neither the list nor the records.
  The operating system is one whose \<open>mmap\<close> does not return the null address for the
  view of the file.
\<close>

theorem constructors_run_after_registration:
  assumes "mini_dlopen e w (Some path) flags = Some (h, w')" and "h \<noteq> 0" and "elf_map e \<noteq> 0"
  shows "\<exists>w1 evs calls.
           linker_load e w path = Some (h, w1) \<and> linker_call_constructors w1 h = Some w'
         \<and> trace w1 = trace w @ evs \<and> trace w' = trace w1 @ map Ev_call calls
         \<and> (\<forall>a. Ev_call a \<notin> set evs)
         \<and> Ev_register h \<in> set evs \<and> h \<in> set (soinfo_list w1) \<and> heap w1 h \<noteq> None
         \<and> Ev_open (elf_fd e) \<in> set evs \<and> Ev_open (seg_fd e) \<in> set evs
         \<and> (\<forall>fd. then_released (Ev_open fd) (Ev_close fd) evs)
         \<and> Ev_mmap File_view (elf_map e) (of_nat (length (file_bytes e))) PROT_READ \<in> set evs
         \<and> (\<forall>b k p. then_released (Ev_mmap File_view b k p) (Ev_munmap b k) evs)
         \<and> soinfo_list w' = soinfo_list w1 \<and> heap w' = heap w1"
proof -
  from assms(1) obtain r w1 where l: "linker_load e w path = Some (r, w1)"
    by (cases "linker_load e w path") (auto simp: mini_dlopen_def)
  have r: "r = h" and c: "linker_call_constructors w1 h = Some w'"
    using assms(1,2) l by (auto simp: mini_dlopen_def split: if_splits option.splits)
  from linker_load_cases [OF l] r assms(2) obtain si' n segs where
    s: "h = calloc_ptr e" "soinfo_list w1 = h # soinfo_list w" "heap w1 = (heap w)(h \<mapsto> si')"
       "trace w1 = trace w @ load_success_events e n segs" "\<forall>ev \<in> set segs. is_segment_mmap ev"
    by auto
  note p = load_success_events_props [OF s(5) assms(3)]
  from linker_call_constructors_frame [OF c] obtain calls where
    k: "soinfo_list w' = soinfo_list w1" "heap w' = heap w1"
       "trace w' = trace w1 @ map Ev_call calls" by blast
  have reg: "Ev_register h \<in> set (load_success_events e n segs)" using p(2) s(1) by simp
  have mem: "h \<in> set (soinfo_list w1)" "heap w1 h \<noteq> None" using s(2,3) by simp_all
  show ?thesis
    apply (rule exI [of _ w1])
    apply (rule exI [of _ "load_success_events e n segs"])
    apply (rule exI [of _ calls])
    using l r c s(4) k p reg mem by simp
qed

theorem constructors_run_after_registration_witness:
  "\<exists>w'. mini_dlopen (env_img 0x7000 0x10000 4) world0 (Some ''liba.so'') 2 = Some (0x7000, w')
      \<and> elf_map (env_img 0x7000 0x10000 4) \<noteq> 0
      \<and> trace w' = [Ev_open 3, Ev_mmap File_view 0x40000 400 PROT_READ, Ev_calloc 0x7000,
           Ev_mmap Reservation 0x10000 4096 0, Ev_open 4, Ev_mmap Segment 0x10000 0x190 7,
           Ev_close 4, Ev_register 0x7000, Ev_munmap 0x40000 400, Ev_close 3,
           Ev_call 0x10200, Ev_call 0x300]
      \<and> (\<exists>w1 evs calls.
           linker_load (env_img 0x7000 0x10000 4) world0 ''liba.so'' = Some (0x7000, w1)
         \<and> linker_call_constructors w1 0x7000 = Some w'
         \<and> trace w1 = trace world0 @ evs \<and> trace w' = trace w1 @ map Ev_call calls
         \<and> (\<forall>a. Ev_call a \<notin> set evs)
         \<and> Ev_register 0x7000 \<in> set evs \<and> 0x7000 \<in> set (soinfo_list w1)
         \<and> heap w1 0x7000 \<noteq> None
         \<and> Ev_open (elf_fd (env_img 0x7000 0x10000 4)) \<in> set evs
         \<and> Ev_open (seg_fd (env_img 0x7000 0x10000 4)) \<in> set evs
         \<and> (\<forall>fd. then_released (Ev_open fd) (Ev_close fd) evs)
         \<and> Ev_mmap File_view (elf_map (env_img 0x7000 0x10000 4))
               (of_nat (length (file_bytes (env_img 0x7000 0x10000 4)))) PROT_READ \<in> set evs
         \<and> (\<forall>b k p. then_released (Ev_mmap File_view b k p) (Ev_munmap b k) evs)
         \<and> soinfo_list w' = soinfo_list w1 \<and> heap w' = heap w1)"
proof -
  obtain w' where d: "mini_dlopen (env_img 0x7000 0x10000 4) world0 (Some ''liba.so'') 2
        = Some (0x7000, w')"
    and t: "trace w' = [Ev_open 3, Ev_mmap File_view 0x40000 400 PROT_READ, Ev_calloc 0x7000,
           Ev_mmap Reservation 0x10000 4096 0, Ev_open 4, Ev_mmap Segment 0x10000 0x190 7,
           Ev_close 4, Ev_register 0x7000, Ev_munmap 0x40000 400, Ev_close 3,
           Ev_call 0x10200, Ev_call 0x300]"
    by (simp add: dlopen_img world0_def)
  have r: "elf_map (env_img 0x7000 0x10000 4) \<noteq> 0" by (simp add: env_img_sel)
  have h: "(0x7000 :: addr) \<noteq> 0" by simp
  show ?thesis
    using constructors_run_after_registration [OF d h r] d r t by blast
qed

text \<open>
  Claim C1, as stated, fails: the object is loaded twice, first as \<open>liba.so\<close> at
  \<open>0x10000\<close> and then as \<open>libb.so\<close> at \<open>0x20000\<close>. Both modules define \<open>f\<close>; the
  global lookup, and \<open>mini_dlsym\<close> with the handle \<open>MINI_RTLD_DEFAULT\<close>, return the
  definition of the module that was inserted last.
\<close>

theorem global_lookup_insertion_order_counterexample:
  "mini_dlopen (env_img 0x7000 0x10000 4) world0 (Some ''liba.so'') 2 = Some (0x7000, world_a)
   \<and> mini_dlopen (env_img 0x7100 0x20000 4) world_a (Some ''libb.so'') 2 = Some (0x7100, world_ab)
   \<and> linker_find_symbol world_ab 0x7000 ''f'' = Some 0x10500
   \<and> linker_find_symbol world_ab 0x7100 ''f'' = Some 0x20500
   \<and> linker_find_global_symbol (env_img 0x7100 0x20000 4) world_ab ''f'' = Some 0x20500
   \<and> mini_dlsym (env_img 0x7100 0x20000 4) world_ab MINI_RTLD_DEFAULT (Some ''f'')
       = Some (0x20500, world_ab)"
proof -
  have g: "linker_find_global_symbol (env_img 0x7100 0x20000 4) world_ab ''f'' = Some 0x20500"
    by (simp add: linker_find_global_symbol_def list_ab find_ab)
  show ?thesis
    by (simp add: dlopen_a dlopen_ab find_ab g mini_dlsym_def)
qed

text \<open>
  Claim C1, amended. The global lookup walks the registry list from its head and returns
  the answer of the first module whose \<open>linker_find_symbol\<close> is not \<open>NULL\<close>; when that
  of every module in the list is \<open>NULL\<close> it returns what the host loader's \<open>dlsym\<close>
  returns. A successful load puts the new module at the head of the list, so the walk
  meets the modules from the most recently loaded to the first loaded.
\<close>

theorem global_lookup_order:
  "(soinfo_list w = before @ h # rest
      \<and> (\<forall>x \<in> set before. linker_find_symbol w x name = Some 0)
      \<and> linker_find_symbol w h name = Some a \<and> a \<noteq> 0
      \<longrightarrow> linker_find_global_symbol e w name = Some a)
   \<and> ((\<forall>x \<in> set (soinfo_list v). linker_find_symbol v x other = Some 0)
      \<longrightarrow> linker_find_global_symbol e v other = Some (host_dlsym e other))
   \<and> (linker_load e v path = Some (r, w') \<and> r \<noteq> 0
      \<longrightarrow> soinfo_list w' = r # soinfo_list v)"
proof (intro conjI impI)
  assume "soinfo_list w = before @ h # rest
      \<and> (\<forall>x \<in> set before. linker_find_symbol w x name = Some 0)
      \<and> linker_find_symbol w h name = Some a \<and> a \<noteq> 0"
  then show "linker_find_global_symbol e w name = Some a"
    by (simp add: linker_find_global_symbol_def find_global_from_first)
next
  assume "\<forall>x \<in> set (soinfo_list v). linker_find_symbol v x other = Some 0"
  then show "linker_find_global_symbol e v other = Some (host_dlsym e other)"
    by (simp add: linker_find_global_symbol_def find_global_from_host)
next
  assume "linker_load e v path = Some (r, w') \<and> r \<noteq> 0"
  then have l: "linker_load e v path = Some (r, w')" and r: "r \<noteq> 0" by simp_all
  from linker_load_cases [OF l] r show "soinfo_list w' = r # soinfo_list v" by auto
qed

theorem global_lookup_order_witness:
  "\<exists>w'. soinfo_list world_ab = [] @ 0x7100 # [0x7000]
   \<and> linker_find_symbol world_ab 0x7100 ''f'' = Some 0x20500
   \<and> linker_find_global_symbol (env_img 0x7100 0x20000 4) world_ab ''f'' = Some 0x20500
   \<and> linker_find_symbol world_a 0x7000 ''g'' = Some 0
   \<and> linker_find_global_symbol (env_img 0x7100 0x20000 4) world_a ''g''
       = Some (host_dlsym (env_img 0x7100 0x20000 4) ''g'')
   \<and> linker_load (env_img 0x7100 0x20000 4) world_a ''libb.so'' = Some (0x7100, w')
   \<and> soinfo_list w' = 0x7100 # soinfo_list world_a"
proof -
  obtain w' where l: "linker_load (env_img 0x7100 0x20000 4) world_a ''libb.so'' = Some (0x7100, w')"
    by (simp add: load_img)
  have s: "soinfo_list world_ab = [] @ 0x7100 # [0x7000]" by (simp add: list_ab)
  have a: "\<forall>x \<in> set []. linker_find_symbol world_ab x ''f'' = Some 0" by simp
  have b: "\<forall>x \<in> set (soinfo_list world_a). linker_find_symbol world_a x ''g'' = Some 0"
    by (simp add: list_ab find_ab)
  show ?thesis
    using global_lookup_order [of world_ab "[]" "0x7100" "[0x7000]" "''f''" "0x20500"
        "env_img 0x7100 0x20000 4" world_a "''g''" "''libb.so''" "0x7100" w'] s a b l find_ab
    by auto
qed

text \<open>
  Claim C9. \<open>mini_dlopen\<close> does not look at its flags: for the same answers of the
  operating system and the same state, two calls that differ only in the flags return
  the same handle or \<open>NULL\<close> and leave the same state, error slot included.
\<close>

theorem dlopen_ignores_flags: "mini_dlopen e w path f1 = mini_dlopen e w path f2"
  by (simp add: mini_dlopen_def)

theorem dlopen_ignores_flags_witness:
  "mini_dlopen (env_img 0x7000 0x10000 4) world0 (Some ''liba.so'') 1
   = mini_dlopen (env_img 0x7000 0x10000 4) world0 (Some ''liba.so'') 0x102"
  by (rule dlopen_ignores_flags)

text \<open>
  Claim C10. \<open>mini_dlopen\<close> with a null path and \<open>mini_dlsym\<close> with a null symbol
  name return \<open>NULL\<close>, \<open>mini_dlclose\<close> with a null handle returns \<open>-1\<close>; the state
  each leaves is that of \<open>linker_set_error\<close>, which sets the flag and the message and
  changes neither the list, nor the records, nor the memory, nor the trace.
\<close>

theorem null_arguments_fail:
  "mini_dlopen e w None flags = Some (0, linker_set_error ''dlopen: path is NULL'' w)
   \<and> mini_dlsym e w handle None = Some (0, linker_set_error ''dlsym: symbol is NULL'' w)
   \<and> mini_dlclose w 0 = Some (- 1, linker_set_error ''dlclose: invalid handle'' w)
   \<and> soinfo_list (linker_set_error msg w) = soinfo_list w
   \<and> heap (linker_set_error msg w) = heap w
   \<and> mem (linker_set_error msg w) = mem w
   \<and> trace (linker_set_error msg w) = trace w
   \<and> has_error (linker_set_error msg w)
   \<and> error_msg (linker_set_error msg w) = take 511 msg"
  by (simp add: mini_dlopen_def mini_dlsym_def mini_dlclose_def)

theorem null_arguments_fail_witness:
  "mini_dlopen ex_env world_a None 2
     = Some (0, linker_set_error ''dlopen: path is NULL'' world_a)
   \<and> mini_dlsym ex_env world_a 0x7000 None
     = Some (0, linker_set_error ''dlsym: symbol is NULL'' world_a)
   \<and> mini_dlclose world_a 0 = Some (- 1, linker_set_error ''dlclose: invalid handle'' world_a)
   \<and> soinfo_list (linker_set_error ''dlclose: invalid handle'' world_a) = soinfo_list world_a
   \<and> heap (linker_set_error ''dlclose: invalid handle'' world_a) = heap world_a
   \<and> mem (linker_set_error ''dlclose: invalid handle'' world_a) = mem world_a
   \<and> trace (linker_set_error ''dlclose: invalid handle'' world_a) = trace world_a
   \<and> has_error (linker_set_error ''dlclose: invalid handle'' world_a)
   \<and> error_msg (linker_set_error ''dlclose: invalid handle'' world_a)
       = take 511 ''dlclose: invalid handle''"
  by (rule null_arguments_fail)

subsection \<open>The error slot\<close>

lemma mini_dlopen_null_sets_error:
  assumes "mini_dlopen e w path flags = Some (0, w')"
  shows "has_error w'"
proof (cases path)
  case None
  then show ?thesis using assms by (auto simp: mini_dlopen_def)
next
  case (Some p)
  then obtain r w1 where l: "linker_load e w p = Some (r, w1)"
    using assms by (cases "linker_load e w p") (auto simp: mini_dlopen_def)
  have "r = 0 \<and> w1 = w'"
    using assms Some l by (auto simp: mini_dlopen_def split: if_splits option.splits)
  then have "linker_load e w p = Some (0, w')" using l by simp
  from linker_load_cases [OF this] show ?thesis by auto
qed

lemma mini_dlsym_null_sets_error:
  assumes "mini_dlsym e w handle symbol = Some (0, w')"
  shows "has_error w'"
  using assms by (auto simp: mini_dlsym_def split: option.splits if_splits)

lemma mini_dlclose_fail_sets_error:
  assumes "mini_dlclose w handle = Some (r, w')" and "r \<noteq> 0"
  shows "has_error w' \<and> handle = 0 \<and> r = - 1"
  using assms by (auto simp: mini_dlclose_def split: option.splits if_splits)

lemma mini_dlerror_one_shot:
  assumes "has_error w"
  shows "mini_dlerror w = (Some (error_msg w), w\<lparr> has_error := False \<rparr>)"
    and "mini_dlerror (snd (mini_dlerror w)) = (None, w\<lparr> has_error := False \<rparr>)"
  using assms by (simp_all add: mini_dlerror_def linker_get_error_def)

lemma mini_dlsym_default_message:
  assumes "mini_dlsym e w MINI_RTLD_DEFAULT (Some s) = Some (0, w')"
  shows "w' = linker_set_error (''dlsym: symbol not found: '' @ c_str s) w"
  using assms by (auto simp: mini_dlsym_def split: option.splits if_splits)

lemma mini_dlsym_module_message:
  assumes "mini_dlsym e w h (Some s) = Some (0, w')"
    and "h \<noteq> MINI_RTLD_DEFAULT" and "h \<noteq> MINI_RTLD_NEXT"
  shows "\<exists>si. heap w h = Some si
       \<and> w' = linker_set_error
                (''dlsym: symbol not found in '' @ c_str (si_name si) @ '': '' @ c_str s) w"
  using assms by (auto simp: mini_dlsym_def split: option.splits if_splits)

lemma sublist_take_fits:
  assumes "length p + length xs \<le> n"
  shows "sublist xs (take n (p @ xs))"
proof -
  have "take n (p @ xs) = p @ xs @ []" using assms by simp
  then show ?thesis by (metis sublist_appendI)
qed


lemma c_str_replicate: "c \<noteq> CHR 0x00 \<Longrightarrow> c_str (replicate n c) = replicate n c"
  by (simp add: c_str_def takeWhile_eq_all_conv)

text \<open>
  Claim C6, as stated, fails in its last part: a lookup with the handle
  \<open>MINI_RTLD_NEXT\<close> fails with a message that does not contain the symbol name, and
  the message of a failed lookup of a name of 600 bytes is cut to the 511 bytes of the
  buffer, which do not contain the name.
\<close>

theorem error_message_omits_symbol_counterexample:
  "mini_dlsym ex_env world0 MINI_RTLD_NEXT (Some ''foo'')
     = Some (0, linker_set_error ''dlsym: RTLD_NEXT not implemented'' world0)
   \<and> fst (mini_dlerror (linker_set_error ''dlsym: RTLD_NEXT not implemented'' world0))
     = Some ''dlsym: RTLD_NEXT not implemented''
   \<and> \<not> sublist ''foo'' ''dlsym: RTLD_NEXT not implemented''
   \<and> mini_dlsym ex_env world0 MINI_RTLD_DEFAULT (Some (replicate 600 CHR ''a''))
     = Some (0, linker_set_error (''dlsym: symbol not found: '' @ replicate 600 CHR ''a'') world0)
   \<and> fst (mini_dlerror
            (linker_set_error (''dlsym: symbol not found: '' @ replicate 600 CHR ''a'') world0))
     = Some (''dlsym: symbol not found: '' @ replicate 486 CHR ''a'')
   \<and> \<not> sublist (replicate 600 CHR ''a'') (''dlsym: symbol not found: '' @ replicate 486 CHR ''a'')"
proof -
  have 1: "mini_dlsym ex_env world0 MINI_RTLD_NEXT (Some ''foo'')
     = Some (0, linker_set_error ''dlsym: RTLD_NEXT not implemented'' world0)"
    by (simp add: mini_dlsym_def MINI_RTLD_NEXT_def MINI_RTLD_DEFAULT_def)
  have 2: "fst (mini_dlerror (linker_set_error ''dlsym: RTLD_NEXT not implemented'' world0))
     = Some ''dlsym: RTLD_NEXT not implemented''"
    by (simp add: mini_dlerror_def linker_get_error_def linker_set_error_def)
  have 3: "\<not> sublist ''foo'' ''dlsym: RTLD_NEXT not implemented''"
    by (simp add: sublist_Cons_right)
  have c: "c_str (replicate 600 CHR ''a'') = replicate 600 CHR ''a''"
    by (rule c_str_replicate) simp
  have 4: "mini_dlsym ex_env world0 MINI_RTLD_DEFAULT (Some (replicate 600 CHR ''a''))
     = Some (0, linker_set_error (''dlsym: symbol not found: '' @ replicate 600 CHR ''a'') world0)"
    by (simp add: mini_dlsym_def linker_find_global_symbol_def world0_def ex_env_def c)
  have 5: "fst (mini_dlerror
            (linker_set_error (''dlsym: symbol not found: '' @ replicate 600 CHR ''a'') world0))
     = Some (''dlsym: symbol not found: '' @ replicate 486 CHR ''a'')"
    by (simp add: mini_dlerror_def linker_get_error_def linker_set_error_def)
  have 6: "\<not> sublist (replicate 600 CHR ''a'') (''dlsym: symbol not found: '' @ replicate 486 CHR ''a'')"
  proof
    assume "sublist (replicate 600 CHR ''a'') (''dlsym: symbol not found: '' @ replicate 486 CHR ''a'')"
    then have "length (replicate 600 CHR ''a'')
        \<le> length (''dlsym: symbol not found: '' @ replicate 486 CHR ''a'')"
      by (rule sublist_length_le)
    then show False by simp
  qed
  show ?thesis using 1 2 3 4 5 6 by simp
qed

lemma map_segment_msg:
  assumes "map_segment e si elf i w = (False, w')"
  shows "error_msg w' = take 511 ''Failed to mmap segment''
       \<or> error_msg w' = take 511 ''Failed to mmap BSS''"
  using assms unfolding map_segment_def Let_def
  by (auto split: if_splits)

lemma map_segments_msg:
  "map_segments e si elf i w = (False, w') \<Longrightarrow>
     error_msg w' = take 511 ''Failed to mmap segment''
       \<or> error_msg w' = take 511 ''Failed to mmap BSS''"
proof (induction e si elf i w rule: map_segments.induct)
  case (1 e si elf i w)
  show ?case
  proof (cases "i < unat (e_phnum (mem w) (ef_ehdr elf))")
    case False
    then show ?thesis using "1.prems" by (subst (asm) map_segments.simps) simp
  next
    case True
    show ?thesis
    proof (cases "p_type (mem w) (ef_phdr elf + 56 * of_nat i) \<noteq> PT_LOAD")
      case T2: True
      then have "map_segments e si elf (Suc i) w = (False, w')"
        using "1.prems" True by (subst (asm) map_segments.simps) simp
      then show ?thesis using "1.IH"(1) [OF True T2] by simp
    next
      case F2: False
      show ?thesis
      proof (cases "fst (map_segment e si elf i w)")
        case T3: True
        then have "map_segments e si elf (Suc i) (snd (map_segment e si elf i w)) = (False, w')"
          using "1.prems" True F2 by (subst (asm) map_segments.simps) simp
        then show ?thesis using "1.IH"(2) [OF True F2 T3] by simp
      next
        case F3: False
        then have "w' = snd (map_segment e si elf i w)"
          using "1.prems" True F2 by (subst (asm) map_segments.simps) simp
        then have "map_segment e si elf i w = (False, w')" using F3 by (simp add: prod_eq_iff)
        then show ?thesis by (rule map_segment_msg)
      qed
    qed
  qed
qed

lemma parse_dynamic_msg:
  assumes "parse_dynamic w si = Some (r, w', si')" and "r < 0"
  shows "error_msg w' = take 511 ''No dynamic section''
       \<or> error_msg w' = take 511 ''Missing symbol table or string table''"
  using assms unfolding parse_dynamic_def
  by (auto split: if_splits option.splits)

lemma linker_relocate_nonneg:
  assumes "linker_relocate e w si = Some (r, w')"
  shows "r = 0"
  using assms by (auto simp: linker_relocate_seq)

lemma load_link_msg:
  assumes "load_link e w h si elf = Some (0, w')" and "h \<noteq> 0"
  shows "error_msg w' = take 511 ''No dynamic section''
       \<or> error_msg w' = take 511 ''Missing symbol table or string table''"
proof -
  define si2 where "si2 = (let si1 = fold (load_phdr_step (mem w) elf)
                            [0 ..< unat (e_phnum (mem w) (ef_ehdr elf))] si
       in if si_phdr si1 = 0
          then si1\<lparr> si_phdr := si_load_bias si1 + e_phoff (mem w) (ef_ehdr elf) \<rparr> else si1)"
  have unf: "load_link e w h si elf =
     (case parse_dynamic w si2 of
           None \<Rightarrow> None
         | Some (r, w1, si3) \<Rightarrow>
             if r < 0 then Some (0, load_error (- 1) h si3 elf w1)
             else (case linker_relocate e w1 si3 of
                     None \<Rightarrow> None
                   | Some (r2, w2) \<Rightarrow>
                       if r2 < 0 then Some (0, load_error (- 1) h si3 elf w2)
                       else
                         Some (h, elf_close elf (emit (Ev_register h)
                                    (w2\<lparr> soinfo_list := h # soinfo_list w2,
                                         heap := (heap w2)(h \<mapsto> si3\<lparr> si_ref_count := 1 \<rparr>) \<rparr>)))))"
    unfolding load_link_def Let_def si2_def ..
  from assms(1) unf obtain r1 w1 si3 where p: "parse_dynamic w si2 = Some (r1, w1, si3)"
    by (cases "parse_dynamic w si2") auto
  show ?thesis
  proof (cases "r1 < 0")
    case True
    then have "w' = load_error (- 1) h si3 elf w1" using assms(1) unf p by simp
    then show ?thesis using parse_dynamic_msg [OF p True] by simp
  next
    case False
    then obtain r2 w2 where l: "linker_relocate e w1 si3 = Some (r2, w2)"
      using assms(1) unf p by (cases "linker_relocate e w1 si3") auto
    have "r2 = 0" using l by (rule linker_relocate_nonneg)
    then show ?thesis using assms unf p False l by simp
  qed
qed

lemma load_map_msg:
  assumes "load_map e w h si elf = Some (0, w')" and "h \<noteq> 0"
  shows "error_msg w' \<in> set (map (take 511) (load_error_messages (Some p)))"
proof -
  define n where "n = calculate_load_size (mem w) (ef_phdr elf) (ucast (e_phnum (mem w) (ef_ehdr elf)))"
  define mv where "mv = PAGE_START (fold (min_vaddr_step (mem w) (ef_phdr elf))
                          [0 ..< unat (e_phnum (mem w) (ef_ehdr elf))] (- 1))"
  define si2 where "si2 = si\<lparr> si_size := n, si_base := reserve_ptr e \<rparr>"
  define si3 where "si3 = si2\<lparr> si_load_bias := reserve_ptr e - mv \<rparr>"
  define w1 where "w1 = emit (Ev_mmap Reservation (reserve_ptr e) n 0)
                           (w\<lparr> mem := map_anon (mem w) (reserve_ptr e) n \<rparr>)"
  have unf: "load_map e w h si elf =
     (if n = 0
      then Some (0, load_error (- 1) h si elf (linker_set_error ''No loadable segments'' w))
      else if reserve_ptr e = MAP_FAILED
      then Some (0, load_error (- 1) h si2 elf (linker_set_error ''mmap failed'' w))
      else if seg_fd e < 0
      then Some (0, load_error (seg_fd e) h si3 elf
                      (linker_set_error ''Failed to open file for mmap'' w1))
      else if \<not> fst (map_segments e si3 elf 0 (emit (Ev_open (seg_fd e)) w1))
      then Some (0, load_error (seg_fd e) h si3 elf
                      (snd (map_segments e si3 elf 0 (emit (Ev_open (seg_fd e)) w1))))
      else load_link e (emit (Ev_close (seg_fd e))
                          (snd (map_segments e si3 elf 0 (emit (Ev_open (seg_fd e)) w1))))
             h si3 elf)"
    unfolding load_map_def Let_def n_def mv_def si2_def si3_def w1_def by simp
  let ?ms = "map_segments e si3 elf 0 (emit (Ev_open (seg_fd e)) w1)"
  show ?thesis
  proof (cases "n = 0")
    case True
    then have "w' = load_error (- 1) h si elf (linker_set_error ''No loadable segments'' w)"
      using assms(1) unf by simp
    then show ?thesis by (simp add: load_error_messages_def)
  next
    case n0: False
    show ?thesis
    proof (cases "reserve_ptr e = MAP_FAILED")
      case True
      then have "w' = load_error (- 1) h si2 elf (linker_set_error ''mmap failed'' w)"
        using assms(1) unf n0 by simp
      then show ?thesis by (simp add: load_error_messages_def)
    next
      case mf: False
      show ?thesis
      proof (cases "seg_fd e < 0")
        case True
        then have "w' = load_error (seg_fd e) h si3 elf
                      (linker_set_error ''Failed to open file for mmap'' w1)"
          using assms(1) unf n0 mf by simp
        then show ?thesis by (simp add: load_error_messages_def)
      next
        case fd: False
        obtain ok ws where ms: "?ms = (ok, ws)" by (cases ?ms)
        show ?thesis
        proof (cases ok)
          case False
          then have "w' = load_error (seg_fd e) h si3 elf ws"
            using assms(1) unf n0 mf fd ms by simp
          moreover have "map_segments e si3 elf 0 (emit (Ev_open (seg_fd e)) w1) = (False, ws)"
            using ms False by simp
          from map_segments_msg [OF this]
          have "error_msg ws = take 511 ''Failed to mmap segment''
              \<or> error_msg ws = take 511 ''Failed to mmap BSS''" .
          ultimately show ?thesis by (auto simp: load_error_messages_def)
        next
          case True
          then have "load_link e (emit (Ev_close (seg_fd e)) ws) h si3 elf = Some (0, w')"
            using assms(1) unf n0 mf fd ms by simp
          from load_link_msg [OF this assms(2)] show ?thesis
            by (auto simp: load_error_messages_def)
        qed
      qed
    qed
  qed
qed

lemma linker_load_msg:
  assumes "linker_load e w p = Some (0, w')"
  shows "error_msg w' \<in> set (map (take 511) (load_error_messages (Some p)))"
proof -
  obtain r0 w1 elf where eo: "elf_open e w p = (r0, w1, elf)"
    by (cases "elf_open e w p")
  consider (a) "w' = linker_set_error (''Failed to open: '' @ c_str p) w1"
    | (b) "w' = elf_close elf (linker_set_error ''Out of memory'' w1)"
    | (c) "calloc_ptr e \<noteq> 0" "\<exists>w2 si. load_map e w2 (calloc_ptr e) si elf = Some (0, w')"
    using assms eo unfolding linker_load_def Let_def by (auto split: if_splits)
  then show ?thesis
  proof cases
    case a
    then show ?thesis by (simp add: load_error_messages_def)
  next
    case b
    then show ?thesis by (simp add: load_error_messages_def)
  next
    case c
    then obtain w2 si where "load_map e w2 (calloc_ptr e) si elf = Some (0, w')" by blast
    from load_map_msg [OF this c(1)] show ?thesis .
  qed
qed

lemma mini_dlopen_msg:
  assumes "mini_dlopen e w path flags = Some (0, w')"
  shows "error_msg w' \<in> set (map (take 511) (load_error_messages path))"
proof (cases path)
  case None
  then show ?thesis using assms by (auto simp: mini_dlopen_def load_error_messages_def)
next
  case (Some p)
  then obtain r w1 where l: "linker_load e w p = Some (r, w1)"
    using assms by (cases "linker_load e w p") (auto simp: mini_dlopen_def)
  have "r = 0 \<and> w1 = w'"
    using assms Some l by (auto simp: mini_dlopen_def split: if_splits option.splits)
  then have "linker_load e w p = Some (0, w')" using l by simp
  from linker_load_msg [OF this] Some show ?thesis by simp
qed

lemma mini_dlsym_fail_state:
  assumes "mini_dlsym e w handle symbol = Some (0, w')"
  shows "\<exists>msg. w' = linker_set_error msg w"
  using assms by (auto simp: mini_dlsym_def split: option.splits if_splits)

text \<open>
  Claim C6, amended. A \<open>mini_dlopen\<close> that returns \<open>NULL\<close> leaves the error flag set
  and one of the messages of \<open>load_error_messages\<close>, cut to 511 bytes; a \<open>mini_dlsym\<close>
  that returns \<open>NULL\<close> leaves the state of \<open>linker_set_error\<close>, which sets the flag and
  stores the first 511 bytes of its message; a \<open>mini_dlclose\<close> that does not return 0
  leaves the flag set and the message \<open>dlclose: invalid handle\<close>. \<open>mini_dlerror\<close> with
  the flag set returns the buffered message and clears the flag, and the call after it
  returns \<open>NULL\<close>. After a failed lookup with the handle \<open>MINI_RTLD_DEFAULT\<close> or with
  the handle of a module the message is the first 511 bytes of the text that ends with
  the symbol name; it contains the whole name when the text fits in 511 bytes. A lookup
  with the handle \<open>MINI_RTLD_NEXT\<close> fails with the fixed message
  \<open>dlsym: RTLD_NEXT not implemented\<close>, whatever the symbol, and a lookup with a null
  symbol name with \<open>dlsym: symbol is NULL\<close>.
\<close>

theorem error_slot_one_shot:
  "(mini_dlopen e w path flags = Some (0, w1) \<longrightarrow>
         has_error w1 \<and> error_msg w1 \<in> set (map (take 511) (load_error_messages path)))
   \<and> (mini_dlsym e w handle symbol = Some (0, w2) \<longrightarrow>
         has_error w2 \<and> (\<exists>msg. w2 = linker_set_error msg w))
   \<and> (mini_dlclose w hc = Some (r, w3) \<and> r \<noteq> 0 \<longrightarrow>
         has_error w3 \<and> error_msg w3 = ''dlclose: invalid handle'')
   \<and> (has_error v \<longrightarrow>
         mini_dlerror v = (Some (error_msg v), v\<lparr> has_error := False \<rparr>)
       \<and> mini_dlerror (snd (mini_dlerror v)) = (None, v\<lparr> has_error := False \<rparr>))
   \<and> (mini_dlsym e w MINI_RTLD_DEFAULT (Some s) = Some (0, w4) \<longrightarrow>
         error_msg w4 = take 511 (''dlsym: symbol not found: '' @ c_str s)
       \<and> (length (c_str s) \<le> 486 \<longrightarrow> sublist (c_str s) (error_msg w4)))
   \<and> (mini_dlsym e w h (Some s) = Some (0, w5) \<and> h \<noteq> MINI_RTLD_DEFAULT \<and> h \<noteq> MINI_RTLD_NEXT
       \<longrightarrow> (\<exists>si. heap w h = Some si
             \<and> error_msg w5 = take 511 (''dlsym: symbol not found in '' @ c_str (si_name si)
                                          @ '': '' @ c_str s)
             \<and> (length (c_str (si_name si)) + length (c_str s) \<le> 482
                  \<longrightarrow> sublist (c_str s) (error_msg w5))))
   \<and> mini_dlsym e w MINI_RTLD_NEXT (Some s)
       = Some (0, linker_set_error ''dlsym: RTLD_NEXT not implemented'' w)
   \<and> mini_dlsym e w handle None = Some (0, linker_set_error ''dlsym: symbol is NULL'' w)
   \<and> has_error (linker_set_error msg w) \<and> error_msg (linker_set_error msg w) = take 511 msg"
proof (intro conjI impI)
  assume "mini_dlopen e w path flags = Some (0, w1)"
  then show "has_error w1" by (rule mini_dlopen_null_sets_error)
next
  assume "mini_dlopen e w path flags = Some (0, w1)"
  then show "error_msg w1 \<in> set (map (take 511) (load_error_messages path))"
    by (rule mini_dlopen_msg)
next
  assume "mini_dlsym e w handle symbol = Some (0, w2)"
  then show "has_error w2" by (rule mini_dlsym_null_sets_error)
next
  assume "mini_dlsym e w handle symbol = Some (0, w2)"
  then show "\<exists>msg. w2 = linker_set_error msg w" by (rule mini_dlsym_fail_state)
next
  assume "mini_dlclose w hc = Some (r, w3) \<and> r \<noteq> 0"
  then show "has_error w3" using mini_dlclose_fail_sets_error by blast
next
  assume "mini_dlclose w hc = Some (r, w3) \<and> r \<noteq> 0"
  then show "error_msg w3 = ''dlclose: invalid handle''"
    by (auto simp: mini_dlclose_def split: option.splits if_splits)
next
  assume "has_error v"
  then show "mini_dlerror v = (Some (error_msg v), v\<lparr> has_error := False \<rparr>)"
    by (rule mini_dlerror_one_shot)
next
  assume "has_error v"
  then show "mini_dlerror (snd (mini_dlerror v)) = (None, v\<lparr> has_error := False \<rparr>)"
    by (rule mini_dlerror_one_shot)
next
  assume a: "mini_dlsym e w MINI_RTLD_DEFAULT (Some s) = Some (0, w4)"
  show "error_msg w4 = take 511 (''dlsym: symbol not found: '' @ c_str s)"
    using mini_dlsym_default_message [OF a] by simp
next
  assume a: "mini_dlsym e w MINI_RTLD_DEFAULT (Some s) = Some (0, w4)"
    and l: "length (c_str s) \<le> 486"
  have "sublist (c_str s) (take 511 (''dlsym: symbol not found: '' @ c_str s))"
    by (rule sublist_take_fits) (use l in simp)
  then show "sublist (c_str s) (error_msg w4)"
    using mini_dlsym_default_message [OF a] by simp
next
  assume "mini_dlsym e w h (Some s) = Some (0, w5) \<and> h \<noteq> MINI_RTLD_DEFAULT \<and> h \<noteq> MINI_RTLD_NEXT"
  then obtain si where si: "heap w h = Some si"
    and w5: "w5 = linker_set_error
                (''dlsym: symbol not found in '' @ c_str (si_name si) @ '': '' @ c_str s) w"
    using mini_dlsym_module_message by blast
  have "length (c_str (si_name si)) + length (c_str s) \<le> 482
      \<longrightarrow> sublist (c_str s) (take 511 ((''dlsym: symbol not found in '' @ c_str (si_name si)
                                          @ '': '') @ c_str s))"
    by (intro impI sublist_take_fits) simp
  then show "\<exists>si. heap w h = Some si
             \<and> error_msg w5 = take 511 (''dlsym: symbol not found in '' @ c_str (si_name si)
                                          @ '': '' @ c_str s)
             \<and> (length (c_str (si_name si)) + length (c_str s) \<le> 482
                  \<longrightarrow> sublist (c_str s) (error_msg w5))"
    using si w5 by simp
next
  show "mini_dlsym e w MINI_RTLD_NEXT (Some s)
       = Some (0, linker_set_error ''dlsym: RTLD_NEXT not implemented'' w)"
    by (simp add: mini_dlsym_def MINI_RTLD_NEXT_def MINI_RTLD_DEFAULT_def)
next
  show "mini_dlsym e w handle None = Some (0, linker_set_error ''dlsym: symbol is NULL'' w)"
    by (simp add: mini_dlsym_def)
next
  show "has_error (linker_set_error msg w)" by simp
next
  show "error_msg (linker_set_error msg w) = take 511 msg" by simp
qed

theorem error_slot_one_shot_witness:
  "\<exists>w1. mini_dlopen (env_img 0x7100 0x20000 (- 1)) world_a (Some ''libb.so'') 2 = Some (0, w1)
      \<and> has_error w1
      \<and> error_msg w1 \<in> set (map (take 511) (load_error_messages (Some ''libb.so'')))
      \<and> error_msg w1 = ''Failed to open file for mmap''
      \<and> mini_dlsym (env_img 0x7100 0x20000 (- 1)) world_a 0x7000 (Some ''g'')
          = Some (0, linker_set_error ''dlsym: symbol not found in liba.so: g'' world_a)
      \<and> mini_dlclose world_a 0 = Some (- 1, linker_set_error ''dlclose: invalid handle'' world_a)
      \<and> has_error (linker_set_error ''dlclose: invalid handle'' world_a)
      \<and> error_msg (linker_set_error ''dlclose: invalid handle'' world_a)
          = ''dlclose: invalid handle''
      \<and> has_error (linker_set_error ''dlsym: symbol not found in liba.so: g'' world_a)
      \<and> fst (mini_dlerror (linker_set_error ''dlsym: symbol not found in liba.so: g'' world_a))
          = Some ''dlsym: symbol not found in liba.so: g''
      \<and> fst (mini_dlerror (snd (mini_dlerror
            (linker_set_error ''dlsym: symbol not found in liba.so: g'' world_a)))) = None
      \<and> sublist ''g''
           (error_msg (linker_set_error ''dlsym: symbol not found in liba.so: g'' world_a))
      \<and> mini_dlsym (env_img 0x7100 0x20000 (- 1)) world_a MINI_RTLD_DEFAULT (Some ''g'')
          = Some (0, linker_set_error ''dlsym: symbol not found: g'' world_a)
      \<and> sublist ''g'' (error_msg (linker_set_error ''dlsym: symbol not found: g'' world_a))
      \<and> mini_dlsym (env_img 0x7100 0x20000 (- 1)) world_a MINI_RTLD_NEXT (Some ''g'')
          = Some (0, linker_set_error ''dlsym: RTLD_NEXT not implemented'' world_a)
      \<and> mini_dlsym (env_img 0x7100 0x20000 (- 1)) world_a 0x7000 None
          = Some (0, linker_set_error ''dlsym: symbol is NULL'' world_a)"
proof -
  obtain w1 where d1: "mini_dlopen (env_img 0x7100 0x20000 (- 1)) world_a (Some ''libb.so'') 2
      = Some (0, w1)"
    and m1: "error_msg w1 = ''Failed to open file for mmap''"
    by (simp add: mini_dlopen_def load_img_nofd)
  have d2: "mini_dlsym (env_img 0x7100 0x20000 (- 1)) world_a 0x7000 (Some ''g'')
          = Some (0, linker_set_error ''dlsym: symbol not found in liba.so: g'' world_a)"
    by (simp add: mini_dlsym_def MINI_RTLD_DEFAULT_def MINI_RTLD_NEXT_def find_ab)
      (simp add: world_a_def img_si_def c_str_def)
  have d3: "mini_dlclose world_a 0 = Some (- 1, linker_set_error ''dlclose: invalid handle'' world_a)"
    by (simp add: mini_dlclose_def)
  have d4: "mini_dlsym (env_img 0x7100 0x20000 (- 1)) world_a MINI_RTLD_DEFAULT (Some ''g'')
          = Some (0, linker_set_error ''dlsym: symbol not found: g'' world_a)"
    by (simp add: mini_dlsym_def linker_find_global_symbol_def list_ab find_ab env_img_sel c_str_def)
  have h: "heap world_a 0x7000 = Some (img_si 0x10000 ''liba.so'')" by (simp add: world_a_def)
  have n: "si_name (img_si 0x10000 ''liba.so'') = ''liba.so''" by (simp add: img_si_def)
  note t = error_slot_one_shot [where e = "env_img 0x7100 0x20000 (- 1)" and w = world_a
      and path = "Some ''libb.so''" and flags = 2 and ?w1.0 = w1 and handle = "0x7000"
      and symbol = "Some ''g''"
      and ?w2.0 = "linker_set_error ''dlsym: symbol not found in liba.so: g'' world_a"
      and hc = 0 and r = "- 1" and ?w3.0 = "linker_set_error ''dlclose: invalid handle'' world_a"
      and v = "linker_set_error ''dlsym: symbol not found in liba.so: g'' world_a"
      and s = "''g''" and ?w4.0 = "linker_set_error ''dlsym: symbol not found: g'' world_a"
      and h = "0x7000"
      and ?w5.0 = "linker_set_error ''dlsym: symbol not found in liba.so: g'' world_a"]
  show ?thesis
    using t d1 m1 d2 d3 d4 h n
    by (auto simp: c_str_def MINI_RTLD_DEFAULT_def MINI_RTLD_NEXT_def)
qed

subsection \<open>Unloading and the reference count\<close>

lemma unload_keeps:
  assumes "heap w h = Some si" and "h \<noteq> 0" and "si_ref_count si \<noteq> 0x80000000"
    and "0 <s si_ref_count si - 1"
  shows "linker_unload w h
       = Some (w\<lparr> heap := (heap w)(h \<mapsto> si\<lparr> si_ref_count := si_ref_count si - 1 \<rparr>) \<rparr>)"
  using assms by (simp add: linker_unload_def Let_def)

lemma unload_removes:
  assumes "heap w h = Some si" and "h \<noteq> 0" and "si_ref_count si \<noteq> 0x80000000"
    and "\<not> 0 <s si_ref_count si - 1"
  shows "\<exists>w'. linker_unload w h = Some w' \<and> soinfo_list w' = remove1 h (soinfo_list w)
       \<and> heap w' = (heap w)(h := None) \<and> mem w' = mem w
       \<and> error_msg w' = error_msg w \<and> has_error w' = has_error w
       \<and> trace w' = trace w @ unload_events w h si"
  using assms
  by (simp add: linker_unload_def linker_call_destructors_def Let_def array_calls_def
      unload_events_def emit_def remove1_idem)

lemma sless_sle_one: "0 <s (x :: 32 word) \<Longrightarrow> 1 \<le>s x"
  by (simp add: word_sless_alt word_sle_eq)

lemma unload_inv:
  assumes inv: "registry_inv w" and u: "linker_unload w h = Some w'"
  shows "registry_inv w'"
proof (cases "h = 0")
  case True
  then show ?thesis using inv u by (simp add: linker_unload_def)
next
  case False
  then obtain si where si: "heap w h = Some si"
    using u by (cases "heap w h") (auto simp: linker_unload_def)
  have rc: "si_ref_count si \<noteq> 0x80000000"
    using u False si by (auto simp: linker_unload_def split: if_splits)
  show ?thesis
  proof (cases "0 <s si_ref_count si - 1")
    case True
    have w': "w' = w\<lparr> heap := (heap w)(h \<mapsto> si\<lparr> si_ref_count := si_ref_count si - 1 \<rparr>) \<rparr>"
      using unload_keeps [OF si False rc True] u by simp
    show ?thesis using inv sless_sle_one [OF True]
      by (auto simp: registry_inv_def w' split: option.splits)
  next
    case f: False
    from unload_removes [OF si False rc f] u
    have l: "soinfo_list w' = remove1 h (soinfo_list w)" and hp: "heap w' = (heap w)(h := None)"
      by auto
    have d: "distinct (soinfo_list w)" using inv by (simp add: registry_inv_def)
    show ?thesis using inv d
      by (auto simp: registry_inv_def l hp split: option.splits)
  qed
qed

lemma load_inv:
  assumes inv: "registry_inv w" and l: "linker_load e w path = Some (r, w')"
    and fresh: "calloc_ptr e \<notin> set (soinfo_list w)"
  shows "registry_inv w'"
  using linker_load_cases [OF l]
proof (elim disjE conjE exE)
  assume "soinfo_list w' = soinfo_list w" "heap w' = heap w"
  then show ?thesis using inv by (simp add: registry_inv_def)
next
  fix si'
  assume a: "r = calloc_ptr e" "r \<noteq> 0" "soinfo_list w' = r # soinfo_list w"
    "heap w' = (heap w)(r \<mapsto> si')" "si_ref_count si' = 1"
  show ?thesis using inv fresh a
    by (auto simp: registry_inv_def split: option.splits)
qed


lemma dlclose_inv:
  assumes "registry_inv w" and "mini_dlclose w h = Some (r, w')"
  shows "registry_inv w'"
proof (cases "h = 0")
  case True
  then have "w' = linker_set_error ''dlclose: invalid handle'' w"
    using assms(2) by (simp add: mini_dlclose_def)
  then show ?thesis using assms(1) by (simp add: registry_inv_def)
next
  case False
  then have "linker_unload w h = Some w'"
    using assms(2) by (auto simp: mini_dlclose_def split: option.splits)
  with assms(1) show ?thesis by (rule unload_inv)
qed

lemma dlopen_inv:
  assumes inv: "registry_inv w" and d: "mini_dlopen e w path flags = Some (r, w')"
    and fresh: "calloc_ptr e \<notin> set (soinfo_list w)"
  shows "registry_inv w'"
proof (cases path)
  case None
  then have "w' = linker_set_error ''dlopen: path is NULL'' w"
    using d by (simp add: mini_dlopen_def)
  then show ?thesis using inv by (simp add: registry_inv_def)
next
  case (Some p)
  then obtain r1 w1 where l: "linker_load e w p = Some (r1, w1)"
    using d by (cases "linker_load e w p") (auto simp: mini_dlopen_def)
  have i1: "registry_inv w1" using inv l fresh by (rule load_inv)
  show ?thesis
  proof (cases "r1 = 0")
    case True
    then have "w' = w1" using d Some l by (simp add: mini_dlopen_def)
    then show ?thesis using i1 by simp
  next
    case False
    then have c: "linker_call_constructors w1 r1 = Some w'"
      using d Some l by (auto simp: mini_dlopen_def split: option.splits)
    from linker_call_constructors_frame [OF c]
    have "soinfo_list w' = soinfo_list w1" "heap w' = heap w1" by simp_all
    then show ?thesis using i1 by (simp add: registry_inv_def)
  qed
qed

lemma dlsym_inv:
  assumes "registry_inv w" and "mini_dlsym e w h symbol = Some (a, w')"
  shows "registry_inv w'"
proof -
  have "soinfo_list w' = soinfo_list w \<and> heap w' = heap w"
    using assms(2) by (auto simp: mini_dlsym_def split: option.splits if_splits)
  then show ?thesis using assms(1) by (simp add: registry_inv_def)
qed

lemma dlerror_inv:
  assumes "registry_inv w"
  shows "registry_inv (snd (mini_dlerror w))"
  using assms by (simp add: registry_inv_def mini_dlerror_def linker_get_error_def)

lemma upt_0_4: "[0 ..< 4] = [0, 1, 2, 3]"
  by (simp add: upt_rec_numeral upt_conv_Cons)

lemma fini_reads:
  "read_u64 fini_mem 0x5000 = 0x111" "read_u64 fini_mem 0x5008 = 0"
  "read_u64 fini_mem 0x5010 = 0xFFFFFFFFFFFFFFFF" "read_u64 fini_mem 0x5018 = 0x222"
  by (simp_all add: read_defs fini_mem_def le16_def le32_def le64_def)

lemma fini_events:
  "unload_events (fini_world 1) 0x7000 (fini_si 1)
   = [Ev_call 0x222, Ev_call 0x111, Ev_call 0x333, Ev_unregister 0x7000,
      Ev_munmap 0x10000 4096, Ev_free 0x7000]"
  by (simp add: unload_events_def fini_world_def fini_si_def soinfo_zero_def upt_0_4 fini_reads
      is_valid_func_ptr_def)


text \<open>
  Claim C8. \<open>mini_dlclose\<close> with a handle that is not \<open>NULL\<close> is \<open>linker_unload\<close>
  and returns 0. \<open>linker_unload\<close> decrements the reference count. While the count
  stays positive that is all it does: the module stays in the list. Otherwise its
  events are those of \<open>unload_events\<close>, in that order, the record leaves the list and is
  freed. Every operation of the interface keeps the invariant that a module in the list
  has a reference count of at least 1, which holds after \<open>linker_init\<close>; for
  \<open>mini_dlopen\<close>, \<open>calloc\<close> returns a block that is not one of the registered
  records. Decrementing \<open>INT_MIN\<close> is excluded.
\<close>

theorem unload_reference_count:
  "(heap w h = Some si \<and> h \<noteq> 0 \<and> si_ref_count si \<noteq> 0x80000000 \<and> 0 <s si_ref_count si - 1
      \<longrightarrow> linker_unload w h
            = Some (w\<lparr> heap := (heap w)(h \<mapsto> si\<lparr> si_ref_count := si_ref_count si - 1 \<rparr>) \<rparr>))
   \<and> (heap v k = Some sj \<and> k \<noteq> 0 \<and> si_ref_count sj \<noteq> 0x80000000
        \<and> \<not> 0 <s si_ref_count sj - 1
      \<longrightarrow> (\<exists>v'. linker_unload v k = Some v' \<and> soinfo_list v' = remove1 k (soinfo_list v)
             \<and> heap v' = (heap v)(k := None) \<and> mem v' = mem v
             \<and> trace v' = trace v @ unload_events v k sj))
   \<and> (g \<noteq> 0 \<longrightarrow> mini_dlclose u g = map_option (Pair 0) (linker_unload u g))
   \<and> (registry_inv u \<and> mini_dlclose u g = Some (c, u1) \<longrightarrow> registry_inv u1)
   \<and> (registry_inv u \<and> mini_dlopen e u path flags = Some (r, u2)
        \<and> calloc_ptr e \<notin> set (soinfo_list u) \<longrightarrow> registry_inv u2)
   \<and> (registry_inv u \<and> mini_dlsym e u g symbol = Some (a, u3) \<longrightarrow> registry_inv u3)
   \<and> (registry_inv u \<longrightarrow> registry_inv (snd (mini_dlerror u)))
   \<and> registry_inv (linker_init u)"
proof (intro conjI impI)
  assume "heap w h = Some si \<and> h \<noteq> 0 \<and> si_ref_count si \<noteq> 0x80000000
      \<and> 0 <s si_ref_count si - 1"
  then show "linker_unload w h
      = Some (w\<lparr> heap := (heap w)(h \<mapsto> si\<lparr> si_ref_count := si_ref_count si - 1 \<rparr>) \<rparr>)"
    by (intro unload_keeps) simp_all
next
  assume "heap v k = Some sj \<and> k \<noteq> 0 \<and> si_ref_count sj \<noteq> 0x80000000
        \<and> \<not> 0 <s si_ref_count sj - 1"
  then have "heap v k = Some sj" "k \<noteq> 0" "si_ref_count sj \<noteq> 0x80000000"
    "\<not> 0 <s si_ref_count sj - 1" by simp_all
  from unload_removes [OF this]
  show "\<exists>v'. linker_unload v k = Some v' \<and> soinfo_list v' = remove1 k (soinfo_list v)
             \<and> heap v' = (heap v)(k := None) \<and> mem v' = mem v
             \<and> trace v' = trace v @ unload_events v k sj" by blast
next
  assume "g \<noteq> 0"
  then show "mini_dlclose u g = map_option (Pair 0) (linker_unload u g)"
    by (simp add: mini_dlclose_def split: option.splits)
next
  assume "registry_inv u \<and> mini_dlclose u g = Some (c, u1)"
  then show "registry_inv u1" using dlclose_inv by blast
next
  assume "registry_inv u \<and> mini_dlopen e u path flags = Some (r, u2)
        \<and> calloc_ptr e \<notin> set (soinfo_list u)"
  then show "registry_inv u2" using dlopen_inv by blast
next
  assume "registry_inv u \<and> mini_dlsym e u g symbol = Some (a, u3)"
  then show "registry_inv u3" using dlsym_inv by blast
next
  assume "registry_inv u"
  then show "registry_inv (snd (mini_dlerror u))" by (rule dlerror_inv)
next
  show "registry_inv (linker_init u)" by (simp add: registry_inv_def linker_init_def)
qed


theorem unload_reference_count_witness:
  "linker_unload (fini_world 2) 0x7000 = Some (fini_world 1)
   \<and> (\<exists>v'. linker_unload (fini_world 1) 0x7000 = Some v' \<and> soinfo_list v' = []
          \<and> heap v' 0x7000 = None
          \<and> trace v' = [Ev_call 0x222, Ev_call 0x111, Ev_call 0x333, Ev_unregister 0x7000,
                         Ev_munmap 0x10000 4096, Ev_free 0x7000])
   \<and> registry_inv (fini_world 1)
   \<and> mini_dlclose (fini_world 2) 0x7000 = Some (0, fini_world 1)
   \<and> (\<exists>u1. mini_dlclose (fini_world 1) 0x7000 = Some (0, u1) \<and> soinfo_list u1 = []
          \<and> heap u1 0x7000 = None
          \<and> trace u1 = [Ev_call 0x222, Ev_call 0x111, Ev_call 0x333, Ev_unregister 0x7000,
                         Ev_munmap 0x10000 4096, Ev_free 0x7000]
          \<and> registry_inv u1)
   \<and> (\<exists>u2. mini_dlopen (env_img 0x7100 0x20000 4) (fini_world 1) (Some ''libb.so'') 2
              = Some (0x7100, u2) \<and> registry_inv u2)
   \<and> (\<exists>u3. mini_dlsym (env_img 0x7100 0x20000 4) (fini_world 1) 0x7000 (Some ''f'')
              = Some (0, u3) \<and> registry_inv u3)
   \<and> registry_inv (snd (mini_dlerror (fini_world 1)))"
proof -
  have h1: "heap (fini_world 2) 0x7000 = Some (fini_si 2)" "si_ref_count (fini_si 2) \<noteq> 0x80000000"
    "0 <s si_ref_count (fini_si 2) - 1"
    by (simp_all add: fini_world_def fini_si_def word_sless_alt)
  have k1: "heap (fini_world 1) 0x7000 = Some (fini_si 1)" "si_ref_count (fini_si 1) \<noteq> 0x80000000"
    "\<not> 0 <s si_ref_count (fini_si 1) - 1"
    by (simp_all add: fini_world_def fini_si_def)
  have inv: "registry_inv (fini_world 1)"
    by (simp add: registry_inv_def fini_world_def fini_si_def)
  have z: "(0x7000 :: addr) \<noteq> 0" by simp
  from unload_removes [OF k1(1) z k1(2,3)] obtain u1 where
    c1: "mini_dlclose (fini_world 1) 0x7000 = Some (0, u1)"
    by (auto simp: mini_dlclose_def)
  obtain u2 where o1: "mini_dlopen (env_img 0x7100 0x20000 4) (fini_world 1) (Some ''libb.so'') 2
              = Some (0x7100, u2)"
    by (simp add: dlopen_img)
  have f: "calloc_ptr (env_img 0x7100 0x20000 4) \<notin> set (soinfo_list (fini_world 1))"
    by (simp add: env_img_sel fini_world_def)
  obtain u3 where s1: "mini_dlsym (env_img 0x7100 0x20000 4) (fini_world 1) 0x7000 (Some ''f'')
              = Some (0, u3)"
    by (simp add: mini_dlsym_def linker_find_symbol_def find_symbol_in_def fini_world_def
        fini_si_def soinfo_zero_def MINI_RTLD_DEFAULT_def MINI_RTLD_NEXT_def)
  note t = unload_reference_count [where w = "fini_world 2" and h = "0x7000" and si = "fini_si 2"
      and v = "fini_world 1" and k = "0x7000" and sj = "fini_si 1" and u = "fini_world 1"
      and g = "0x7000" and c = 0 and ?u1.0 = u1 and e = "env_img 0x7100 0x20000 4"
      and path = "Some ''libb.so''" and flags = 2 and r = "0x7100" and ?u2.0 = u2
      and symbol = "Some ''f''" and a = 0 and ?u3.0 = u3]
  have a1: "linker_unload (fini_world 2) 0x7000 = Some (fini_world 1)"
    using t h1 z by (simp add: fini_world_def fini_si_def)
  have a2: "\<exists>v'. linker_unload (fini_world 1) 0x7000 = Some v' \<and> soinfo_list v' = []
          \<and> heap v' 0x7000 = None
          \<and> trace v' = [Ev_call 0x222, Ev_call 0x111, Ev_call 0x333, Ev_unregister 0x7000,
                         Ev_munmap 0x10000 4096, Ev_free 0x7000]"
  proof -
    from t k1 z obtain v' where "linker_unload (fini_world 1) 0x7000 = Some v'"
      "soinfo_list v' = remove1 0x7000 (soinfo_list (fini_world 1))"
      "heap v' = (heap (fini_world 1))(0x7000 := None)"
      "trace v' = trace (fini_world 1) @ unload_events (fini_world 1) 0x7000 (fini_si 1)"
      by blast
    then show ?thesis by (simp add: fini_events) (simp add: fini_world_def)
  qed
  have a3: "registry_inv u1" "registry_inv u2" "registry_inv u3"
    "registry_inv (snd (mini_dlerror (fini_world 1)))"
    using t inv c1 o1 s1 f by blast+
  have a4: "mini_dlclose (fini_world 1) 0x7000
      = map_option (Pair 0) (linker_unload (fini_world 1) 0x7000)"
    using t z by blast
  have a5: "mini_dlclose (fini_world 2) 0x7000 = Some (0, fini_world 1)"
    using unload_reference_count [where u = "fini_world 2" and g = "0x7000"] z a1 by simp
  have a6: "\<exists>u1. mini_dlclose (fini_world 1) 0x7000 = Some (0, u1) \<and> soinfo_list u1 = []
          \<and> heap u1 0x7000 = None
          \<and> trace u1 = [Ev_call 0x222, Ev_call 0x111, Ev_call 0x333, Ev_unregister 0x7000,
                         Ev_munmap 0x10000 4096, Ev_free 0x7000]
          \<and> registry_inv u1"
    using a2 a3(1) a4 c1 by auto
  show ?thesis using a1 a2 a3 a5 a6 inv o1 s1 by blast
qed

end
